(* ===== verification/Go_Prelude.thy ===== *)
theory Go_Prelude
  imports Main "HOL-Library.AList" "HOL-Library.List_Lexorder" "HOL-Library.Char_ord"
    "HOL-Library.Product_Lexorder"
begin

text \<open>
  Shared vocabulary of the development: Go's 64-bit \<open>int\<close>, the decimal
  conversions the Go code and Redis perform on it (\<open>strconv.Itoa\<close>, the
  \<open>%d\<close> verb, \<open>strconv.Atoi\<close>, Redis's strict \<open>string2ll\<close>), Go's
  \<open>strings.Split\<close>, and the generic lemmas on strings, association lists and
  options that the component theories use.  The collection \<open>key_simps\<close>
  gathers the facts that decide equality of cache keys built by
  \<open>fmt.Sprintf\<close>.
\<close>

named_theorems key_simps "facts deciding equality of formatted cache keys"

type_synonym go_int = int

definition in_int64 :: "int \<Rightarrow> bool" where
  "in_int64 x \<longleftrightarrow> - (2 ^ 63) \<le> x \<and> x < 2 ^ 63"

subsection \<open>Decimal digits\<close>

definition digit_char :: "nat \<Rightarrow> char" where
  "digit_char d = char_of (48 + d)"

definition is_digit :: "char \<Rightarrow> bool" where
  "is_digit c \<longleftrightarrow> 48 \<le> (of_char c :: nat) \<and> (of_char c :: nat) \<le> 57"

definition digit_val :: "char \<Rightarrow> nat" where
  "digit_val c = of_char c - 48"

fun nat_digits :: "nat \<Rightarrow> string" where
  "nat_digits n =
     (if n < 10 then [digit_char n] else nat_digits (n div 10) @ [digit_char (n mod 10)])"

declare nat_digits.simps [simp del]

definition digits_val :: "string \<Rightarrow> nat" where
  "digits_val s = foldl (\<lambda>acc c. 10 * acc + digit_val c) 0 s"

text \<open>\<open>strconv.Itoa\<close> and the \<open>%d\<close> verb of \<open>fmt\<close>: optional minus sign, then
  the decimal digits without leading zeros.\<close>

definition itoa :: "int \<Rightarrow> string" where
  "itoa i = (if i < 0 then CHR ''-'' # nat_digits (nat (- i)) else nat_digits (nat i))"

text \<open>A decimal numeral with an optional sign and at least one digit, of any size.
  This is the syntax both \<open>strconv.Atoi\<close> and the integer numerals of Lua's
  \<open>tonumber\<close> accept.\<close>

definition parse_decimal :: "string \<Rightarrow> int option" where
  "parse_decimal s =
     (let (neg, ds) = (case s of
                         [] \<Rightarrow> (False, [])
                       | c # r \<Rightarrow> (if c = CHR ''-'' then (True, r)
                                  else if c = CHR ''+'' then (False, r) else (False, s)))
      in if ds = [] \<or> \<not> list_all is_digit ds then None
         else Some (if neg then - int (digits_val ds) else int (digits_val ds)))"

text \<open>\<open>strconv.Atoi\<close>: a decimal numeral whose value is in the range of a 64-bit
  \<open>int\<close> (otherwise \<open>ErrSyntax\<close> or \<open>ErrRange\<close>, both modelled as \<open>None\<close>).\<close>

definition atoi :: "string \<Rightarrow> int option" where
  "atoi s = (case parse_decimal s of None \<Rightarrow> None | Some v \<Rightarrow> if in_int64 v then Some v else None)"

text \<open>Redis's \<open>string2ll\<close>, used by \<open>HINCRBY\<close> on the stored field: it accepts
  exactly the canonical decimal rendering of a 64-bit integer (no sign \<open>+\<close>, no
  leading zeros, no \<open>-0\<close>).\<close>

definition redis_int :: "string \<Rightarrow> int option" where
  "redis_int s = (case atoi s of None \<Rightarrow> None | Some v \<Rightarrow> if itoa v = s then Some v else None)"

text \<open>\<open>strings.Split(s, sep)\<close> for a one-character separator: the pieces between
  separators, at least one piece.\<close>

fun split_on :: "char \<Rightarrow> string \<Rightarrow> string list" where
  "split_on c [] = [[]]"
| "split_on c (x # xs) =
     (if x = c then [] # split_on c xs
      else (case split_on c xs of [] \<Rightarrow> [[x]] | w # ws \<Rightarrow> (x # w) # ws))"

text \<open>Go string literals are UTF-8 byte sequences; \<open>utf8\<close> encodes a list of
  code points of the Basic Multilingual Plane, the only ones the source's
  messages use, so that a message can be written with its code points.\<close>

definition utf8_char :: "nat \<Rightarrow> string" where
  "utf8_char n =
     (if n < 128 then [char_of n]
      else if n < 2048 then [char_of (192 + n div 64), char_of (128 + n mod 64)]
      else [char_of (224 + n div 4096), char_of (128 + (n div 64) mod 64), char_of (128 + n mod 64)])"

definition utf8 :: "nat list \<Rightarrow> string" where
  "utf8 cps = concat (map utf8_char cps)"

subsection \<open>Digits and the decimal round trip\<close>

lemma of_char_digit_char [simp]: "d < 10 \<Longrightarrow> (of_char (digit_char d) :: nat) = 48 + d"
  by (simp add: digit_char_def)

lemma digit_val_digit_char [simp]: "d < 10 \<Longrightarrow> digit_val (digit_char d) = d"
  by (simp add: digit_val_def)

lemma is_digit_digit_char [simp]: "d < 10 \<Longrightarrow> is_digit (digit_char d)"
  by (simp add: is_digit_def)

lemma is_digit_not_sep:
  "is_digit c \<Longrightarrow> c \<noteq> CHR ''-'' \<and> c \<noteq> CHR ''+'' \<and> c \<noteq> CHR '','' \<and> c \<noteq> CHR '':''"
  by (auto simp: is_digit_def)

lemma nat_digits_ne [simp]: "nat_digits n \<noteq> []"
  by (subst nat_digits.simps) simp

lemma set_nat_digits: "c \<in> set (nat_digits n) \<Longrightarrow> is_digit c"
proof (induction n rule: nat_digits.induct)
  case (1 n)
  then show ?case
    by (cases "n < 10") (auto simp: nat_digits.simps [of n])
qed

lemma nat_digits_digits [simp]: "list_all is_digit (nat_digits n)"
  by (auto simp: list_all_iff dest: set_nat_digits)

lemma digits_val_snoc: "digits_val (xs @ [c]) = 10 * digits_val xs + digit_val c"
  by (simp add: digits_val_def)

lemma digits_val_nat_digits [simp]: "digits_val (nat_digits n) = n"
proof (induction n rule: nat_digits.induct)
  case (1 n)
  show ?case
  proof (cases "n < 10")
    case True
    then show ?thesis by (simp add: nat_digits.simps [of n] digits_val_def)
  next
    case False
    with "1.IH" show ?thesis
      by (simp add: nat_digits.simps [of n] digits_val_snoc)
  qed
qed

lemma nat_digits_inj: "nat_digits m = nat_digits n \<Longrightarrow> m = n"
  by (metis digits_val_nat_digits)

lemma nat_digits_hd_not_minus: "nat_digits n \<noteq> CHR ''-'' # r"
  using set_nat_digits [of "CHR ''-''" n] is_digit_not_sep by fastforce

lemma itoa_no_sep [simp]: "CHR '','' \<notin> set (itoa i)" "CHR '':'' \<notin> set (itoa i)"
  by (auto simp: itoa_def dest!: set_nat_digits is_digit_not_sep)

lemma itoa_ne [simp]: "itoa i \<noteq> []"
  by (simp add: itoa_def)

lemma parse_decimal_digits:
  assumes "list_all is_digit ds" "ds \<noteq> []"
  shows "parse_decimal ds = Some (int (digits_val ds))"
    and "parse_decimal (CHR ''-'' # ds) = Some (- int (digits_val ds))"
proof -
  obtain c r where ds: "ds = c # r" "is_digit c"
    using assms by (cases ds) auto
  then have "c \<noteq> CHR ''-''" "c \<noteq> CHR ''+''" using is_digit_not_sep by auto
  with ds assms show "parse_decimal ds = Some (int (digits_val ds))"
    by (simp add: parse_decimal_def)
  from assms show "parse_decimal (CHR ''-'' # ds) = Some (- int (digits_val ds))"
    by (simp add: parse_decimal_def)
qed

lemma parse_decimal_itoa [simp]: "parse_decimal (itoa i) = Some i"
  by (cases "i < 0") (simp_all add: itoa_def parse_decimal_digits)

theorem atoi_itoa: "in_int64 i \<Longrightarrow> atoi (itoa i) = Some i"
  by (simp add: atoi_def)

lemma atoi_Nil [simp]: "atoi [] = None"
  by (simp add: atoi_def parse_decimal_def)

lemma itoa_inj: "itoa i = itoa j \<Longrightarrow> i = j"
  by (cases "i < 0"; cases "j < 0")
     (auto simp: itoa_def nat_digits_hd_not_minus not_sym [OF nat_digits_hd_not_minus]
           dest: nat_digits_inj)

lemma itoa_eq_iff [key_simps]: "itoa i = itoa j \<longleftrightarrow> i = j"
  using itoa_inj by blast

lemma redis_int_itoa [simp]: "in_int64 i \<Longrightarrow> redis_int (itoa i) = Some i"
  by (simp add: redis_int_def atoi_itoa)

lemma atoi_range: "atoi s = Some v \<Longrightarrow> in_int64 v"
  by (auto simp: atoi_def split: if_splits option.splits)

lemma redis_int_Some: "redis_int s = Some v \<Longrightarrow> s = itoa v \<and> in_int64 v"
  by (auto simp: redis_int_def dest: atoi_range split: option.splits if_splits)

lemma append_itoa_eq_iff [key_simps]: "p @ itoa i = p @ itoa j \<longleftrightarrow> i = j"
  by (simp add: itoa_eq_iff)

lemma append_sep_eq_iff:
  "c \<notin> set x \<Longrightarrow> c \<notin> set x' \<Longrightarrow> x @ c # y = x' @ c # y' \<longleftrightarrow> x = x' \<and> y = y'"
proof (induction x arbitrary: x')
  case Nil
  then show ?case by (cases x') auto
next
  case (Cons a x)
  then show ?case by (cases x') auto
qed

lemma itoa_sep_eq_iff [key_simps]:
  "itoa i @ CHR '':'' # y = itoa j @ CHR '':'' # y' \<longleftrightarrow> i = j \<and> y = y'"
  by (simp add: append_sep_eq_iff itoa_eq_iff)

subsection \<open>Splitting at a separator\<close>

lemma split_on_no_sep: "c \<notin> set xs \<Longrightarrow> split_on c xs = [xs]"
  by (induction xs) auto

lemma split_on_append_sep:
  "c \<notin> set xs \<Longrightarrow> split_on c (xs @ c # ys) = xs # split_on c ys"
  by (induction xs) auto

lemma split_on_two:
  "c \<notin> set xs \<Longrightarrow> c \<notin> set ys \<Longrightarrow> split_on c (xs @ c # ys) = [xs, ys]"
  by (simp add: split_on_append_sep split_on_no_sep)

lemma split_on_ne [simp]: "split_on c xs \<noteq> []"
  by (induction xs) (auto split: list.splits)

subsection \<open>Association lists and options\<close>

lemma map_of_update_same [simp]: "map_of (AList.update k v al) k = Some v"
  by (simp add: update_conv')

lemma map_of_update_other [simp]: "k' \<noteq> k \<Longrightarrow> map_of (AList.update k v al) k' = map_of al k'"
  by (simp add: update_conv')


lemma set_map_filter: "set (List.map_filter f xs) = {y. \<exists>x\<in>set xs. f x = Some y}"
  by (induction xs) (auto simp: map_filter_simps split: option.splits)

lemma map_filter_app: "List.map_filter f (xs @ ys) = List.map_filter f xs @ List.map_filter f ys"
  by (induction xs) (simp_all add: map_filter_simps split: option.split)

lemma map_filter_enumerate: "List.map_filter (\<lambda>(j, k). f k) (enumerate n ks) = List.map_filter f ks"
  by (induction ks arbitrary: n) (simp_all add: map_filter_simps split: option.splits)

lemma distinct_map_filter_fst:
  assumes "distinct ks" "\<And>k e. k \<in> set ks \<Longrightarrow> f k = Some e \<Longrightarrow> k = g (fst e)"
  shows "distinct (map fst (List.map_filter f ks))"
  using assms
proof (induction ks)
  case Nil then show ?case by (simp add: map_filter_simps)
next
  case (Cons k ks)
  then have ih: "distinct (map fst (List.map_filter f ks))" by simp
  show ?case
  proof (cases "f k")
    case None then show ?thesis using ih by (simp add: map_filter_simps)
  next
    case (Some e)
    have "fst e \<notin> fst ` set (List.map_filter f ks)"
    proof
      assume "fst e \<in> fst ` set (List.map_filter f ks)"
      then obtain k' e' where k': "k' \<in> set ks" "f k' = Some e'" "fst e' = fst e"
        by (auto simp: set_map_filter)
      then have "k' = g (fst e)" using Cons.prems(2) [of k' e'] by simp
      moreover have "k = g (fst e)" using Cons.prems(2) [of k e] Some by simp
      ultimately show False using k'(1) Cons.prems(1) by simp
    qed
    then show ?thesis using ih Some by (simp add: map_filter_simps)
  qed
qed


lemma atoi_itoa_Some: "atoi (itoa i) = Some v \<Longrightarrow> v = i"
  by (auto simp: atoi_def split: if_splits)

lemma bex_set_update:
  "\<exists>c\<in>set xs. P c \<Longrightarrow> i < length xs \<Longrightarrow> (P (xs ! i) \<Longrightarrow> P y) \<Longrightarrow> \<exists>c\<in>set (xs[i := y]). P c"
  by (metis in_set_conv_nth length_list_update nth_list_update_eq nth_list_update_neq)

lemma ball_set_update:
  "\<forall>c\<in>set xs. P c \<Longrightarrow> P y \<Longrightarrow> \<forall>c\<in>set (xs[i := y]). P c"
  using set_update_subset_insert [of xs i y] by blast

lemma update_fst_in [simp]: "k \<in> fst ` set (AList.update k v al)"
  by (induction al) auto

lemma set_update_distinct_keys:
  "distinct (map fst al) \<Longrightarrow> set (AList.update k v al) = insert (k, v) {p \<in> set al. fst p \<noteq> k}"
  by (induction al) (auto intro: rev_image_eqI)

lemma sorted_map_fst:
  assumes "sorted (xs :: ('a::linorder \<times> 'b::linorder) list)"
  shows "sorted (map fst xs)"
proof -
  have "sorted_wrt (\<le>) xs" using assms by simp
  then have "sorted_wrt (\<lambda>x y. fst x \<le> fst y) xs"
    by (rule sorted_wrt_mono_rel [rotated]) (auto simp: less_eq_prod_def)
  then show ?thesis by (simp add: sorted_wrt_map)
qed

lemma prod_collapse3: "x = (fst x, fst (snd x), snd (snd x))"
  by simp

text \<open>Characters given by their byte value, as \<open>utf8\<close> produces them.\<close>

lemma eq_char_of_iff [simp]: "c = char_of n \<longleftrightarrow> of_char c = (n::nat) mod 256"
  by (metis char_of_char of_char_of)

lemma char_of_eq_char_iff [simp]: "char_of n = c \<longleftrightarrow> (n::nat) mod 256 = of_char c"
  by (metis char_of_char of_char_of)

end
