(* ===== verification/Redis_Store.thy ===== *)
theory Redis_Store
  imports Go_Prelude
begin

text \<open>
  The Fast Cache Store (Redis, reached through go-redis's \<open>*redis.Client\<close>), as
  far as the program uses it.  The keyspace is an association list from key to
  value; a value is a string, a hash, a list, a set or a sorted set, so that a
  command on a key of the wrong kind fails with \<open>WRONGTYPE\<close> as in Redis.
  Hashes and sorted sets are association lists, sets are lists without
  duplicates, so that every command is executable.  Keys with a time-to-live
  are recorded in \<open>volatile\<close>; their expiry is an environment step.

  Each command has a server-side semantics (\<open>*_srv\<close>, also used inside the Lua
  script) and is issued by the program through \<open>call ok\<close>: when \<open>ok\<close> is false
  the request does not reach the server and the client sees a connection error.
\<close>

datatype rval =
    RStr string
  | RHash "(string \<times> string) list"
  | RList "string list"
  | RSet "string list"
  | RZSet "(string \<times> int) list"

record redis =
  data :: "(string \<times> rval) list"
  volatile :: "string set"

datatype rerr = ErrConn | ErrWrongType | ErrNotInteger | ErrOverflow | ErrNil

type_synonym 'a rres = "(rerr + 'a) \<times> redis"

definition empty_redis :: redis where
  "empty_redis = \<lparr>data = [], volatile = {}\<rparr>"

definition lookup :: "redis \<Rightarrow> string \<Rightarrow> rval option" where
  "lookup r k = map_of (data r) k"

definition store :: "string \<Rightarrow> rval \<Rightarrow> redis \<Rightarrow> redis" where
  "store k v r = r\<lparr>data := AList.update k v (data r)\<rparr>"

definition remove_key :: "string \<Rightarrow> redis \<Rightarrow> redis" where
  "remove_key k r = r\<lparr>data := AList.delete k (data r), volatile := volatile r - {k}\<rparr>"

definition call :: "bool \<Rightarrow> (redis \<Rightarrow> 'a rres) \<Rightarrow> redis \<Rightarrow> 'a rres" where
  "call ok f r = (if ok then f r else (Inl ErrConn, r))"

subsection \<open>Typed views of a key\<close>

definition hash_of :: "redis \<Rightarrow> string \<Rightarrow> rerr + (string \<times> string) list" where
  "hash_of r k = (case lookup r k of None \<Rightarrow> Inr [] | Some (RHash h) \<Rightarrow> Inr h | Some _ \<Rightarrow> Inl ErrWrongType)"

definition set_of :: "redis \<Rightarrow> string \<Rightarrow> rerr + string list" where
  "set_of r k = (case lookup r k of None \<Rightarrow> Inr [] | Some (RSet s) \<Rightarrow> Inr s | Some _ \<Rightarrow> Inl ErrWrongType)"

definition list_of :: "redis \<Rightarrow> string \<Rightarrow> rerr + string list" where
  "list_of r k = (case lookup r k of None \<Rightarrow> Inr [] | Some (RList l) \<Rightarrow> Inr l | Some _ \<Rightarrow> Inl ErrWrongType)"

definition zset_of :: "redis \<Rightarrow> string \<Rightarrow> rerr + (string \<times> int) list" where
  "zset_of r k = (case lookup r k of None \<Rightarrow> Inr [] | Some (RZSet z) \<Rightarrow> Inr z | Some _ \<Rightarrow> Inl ErrWrongType)"

text \<open>\<open>ZINTERSTORE\<close> reads a plain set as a sorted set whose scores are all 1.\<close>

definition zsource_of :: "redis \<Rightarrow> string \<Rightarrow> rerr + (string \<times> int) list" where
  "zsource_of r k = (case lookup r k of None \<Rightarrow> Inr [] | Some (RZSet z) \<Rightarrow> Inr z
                     | Some (RSet s) \<Rightarrow> Inr (map (\<lambda>m. (m, 1)) s) | Some _ \<Rightarrow> Inl ErrWrongType)"

subsection \<open>Hash commands\<close>

definition hset_srv :: "string \<Rightarrow> (string \<times> string) list \<Rightarrow> redis \<Rightarrow> unit rres" where
  "hset_srv k fvs r =
     (case hash_of r k of
        Inl e \<Rightarrow> (Inl e, r)
      | Inr h \<Rightarrow> (Inr (), store k (RHash (fold (\<lambda>(f, v). AList.update f v) fvs h)) r))"

definition hget_srv :: "string \<Rightarrow> string \<Rightarrow> redis \<Rightarrow> string rres" where
  "hget_srv k f r =
     (case hash_of r k of
        Inl e \<Rightarrow> (Inl e, r)
      | Inr h \<Rightarrow> (case map_of h f of None \<Rightarrow> (Inl ErrNil, r) | Some v \<Rightarrow> (Inr v, r)))"

definition hgetall_srv :: "string \<Rightarrow> redis \<Rightarrow> (string \<times> string) list rres" where
  "hgetall_srv k r = (case hash_of r k of Inl e \<Rightarrow> (Inl e, r) | Inr h \<Rightarrow> (Inr h, r))"

text \<open>\<open>HINCRBY\<close>: a missing key or field counts as 0; the stored field must be a
  canonical 64-bit integer and the sum must not overflow.\<close>

definition hincrby_srv :: "string \<Rightarrow> string \<Rightarrow> int \<Rightarrow> redis \<Rightarrow> int rres" where
  "hincrby_srv k f d r =
     (case hash_of r k of
        Inl e \<Rightarrow> (Inl e, r)
      | Inr h \<Rightarrow>
          (case (case map_of h f of None \<Rightarrow> Some 0 | Some s \<Rightarrow> redis_int s) of
             None \<Rightarrow> (Inl ErrNotInteger, r)
           | Some v \<Rightarrow>
               if \<not> in_int64 (v + d) then (Inl ErrOverflow, r)
               else (Inr (v + d), store k (RHash (AList.update f (itoa (v + d)) h)) r)))"

subsection \<open>Keys\<close>

definition del_srv :: "string \<Rightarrow> redis \<Rightarrow> unit rres" where
  "del_srv k r = (Inr (), remove_key k r)"

text \<open>\<open>EXPIRE\<close> gives an existing key a time-to-live; the two hours of the code are
  not counted, the key may simply expire at any later moment.\<close>

definition expire_srv :: "string \<Rightarrow> redis \<Rightarrow> unit rres" where
  "expire_srv k r =
     (Inr (), if lookup r k = None then r else r\<lparr>volatile := insert k (volatile r)\<rparr>)"

definition expire_key :: "string \<Rightarrow> redis \<Rightarrow> redis" where
  "expire_key k r = (if k \<in> volatile r then remove_key k r else r)"

text \<open>\<open>SCAN\<close> with a \<open>MATCH\<close> pattern of the form \<open>p*\<close>: the cursor loop of the code
  is one pass over the keyspace, returning the matching keys.\<close>

definition glob_prefix :: "string \<Rightarrow> string \<Rightarrow> bool" where
  "glob_prefix p k \<longleftrightarrow> take (length p) k = p"

definition scan_srv :: "string \<Rightarrow> redis \<Rightarrow> string list rres" where
  "scan_srv p r = (Inr (filter (glob_prefix p) (map fst (data r))), r)"

subsection \<open>Set commands\<close>

definition sadd_srv :: "string \<Rightarrow> string \<Rightarrow> redis \<Rightarrow> unit rres" where
  "sadd_srv k m r =
     (case set_of r k of
        Inl e \<Rightarrow> (Inl e, r)
      | Inr s \<Rightarrow> (Inr (), store k (RSet (List.insert m s)) r))"

text \<open>\<open>SREM\<close>: a set that becomes empty is deleted, as Redis does.\<close>

definition srem_srv :: "string \<Rightarrow> string \<Rightarrow> redis \<Rightarrow> unit rres" where
  "srem_srv k m r =
     (case set_of r k of
        Inl e \<Rightarrow> (Inl e, r)
      | Inr s \<Rightarrow> (let s' = removeAll m s in
                  (Inr (), if s' = [] then remove_key k r else store k (RSet s') r)))"

definition sismember_srv :: "string \<Rightarrow> string \<Rightarrow> redis \<Rightarrow> bool rres" where
  "sismember_srv k m r = (case set_of r k of Inl e \<Rightarrow> (Inl e, r) | Inr s \<Rightarrow> (Inr (m \<in> set s), r))"

definition sinter_srv :: "string \<Rightarrow> string \<Rightarrow> redis \<Rightarrow> string list rres" where
  "sinter_srv k1 k2 r =
     (case set_of r k1 of
        Inl e \<Rightarrow> (Inl e, r)
      | Inr s1 \<Rightarrow> (case set_of r k2 of
                    Inl e \<Rightarrow> (Inl e, r)
                  | Inr s2 \<Rightarrow> (Inr (filter (\<lambda>m. m \<in> set s2) s1), r)))"

subsection \<open>List commands\<close>

definition lpush_srv :: "string \<Rightarrow> string \<Rightarrow> redis \<Rightarrow> unit rres" where
  "lpush_srv k v r =
     (case list_of r k of Inl e \<Rightarrow> (Inl e, r) | Inr l \<Rightarrow> (Inr (), store k (RList (v # l)) r))"

definition lrange_all_srv :: "string \<Rightarrow> redis \<Rightarrow> string list rres" where
  "lrange_all_srv k r = (case list_of r k of Inl e \<Rightarrow> (Inl e, r) | Inr l \<Rightarrow> (Inr l, r))"

subsection \<open>Sorted-set commands\<close>

text \<open>Scores are Redis doubles; the program only stores integer counts, which are
  modelled as \<open>int\<close>.\<close>

definition zincrby_srv :: "string \<Rightarrow> int \<Rightarrow> string \<Rightarrow> redis \<Rightarrow> int rres" where
  "zincrby_srv k d m r =
     (case zset_of r k of
        Inl e \<Rightarrow> (Inl e, r)
      | Inr z \<Rightarrow> (let v = (case map_of z m of None \<Rightarrow> d | Some s \<Rightarrow> s + d) in
                  (Inr v, store k (RZSet (AList.update m v z)) r)))"

definition zscore_srv :: "string \<Rightarrow> string \<Rightarrow> redis \<Rightarrow> int rres" where
  "zscore_srv k m r =
     (case zset_of r k of
        Inl e \<Rightarrow> (Inl e, r)
      | Inr z \<Rightarrow> (case map_of z m of None \<Rightarrow> (Inl ErrNil, r) | Some s \<Rightarrow> (Inr s, r)))"

definition zadd_srv :: "string \<Rightarrow> int \<Rightarrow> string \<Rightarrow> redis \<Rightarrow> unit rres" where
  "zadd_srv k s m r =
     (case zset_of r k of
        Inl e \<Rightarrow> (Inl e, r)
      | Inr z \<Rightarrow> (Inr (), store k (RZSet (AList.update m s z)) r))"

text \<open>\<open>ZINTERSTORE dst 2 k1 k2 WEIGHTS w1 w2 AGGREGATE SUM\<close>: the members of both
  sources, scored by the weighted sum; the destination is overwritten (and deleted
  when the intersection is empty).\<close>

definition zinterstore_srv ::
  "string \<Rightarrow> string \<Rightarrow> string \<Rightarrow> int \<Rightarrow> int \<Rightarrow> redis \<Rightarrow> nat rres" where
  "zinterstore_srv dst k1 k2 w1 w2 r =
     (case zsource_of r k1 of
        Inl e \<Rightarrow> (Inl e, r)
      | Inr z1 \<Rightarrow>
          (case zsource_of r k2 of
             Inl e \<Rightarrow> (Inl e, r)
           | Inr z2 \<Rightarrow>
               (let z = [(m, w1 * s1 + w2 * the (map_of z2 m)). (m, s1) \<leftarrow> z1, m \<in> fst ` set z2]
                in (Inr (length z),
                    if z = [] then remove_key dst r else store dst (RZSet z) (remove_key dst r)))))"

text \<open>\<open>ZREVRANGE k 0 -1 WITHSCORES\<close>: descending by score, members of equal score
  in descending byte order.\<close>

definition zrevrange_srv :: "string \<Rightarrow> redis \<Rightarrow> (string \<times> int) list rres" where
  "zrevrange_srv k r =
     (case zset_of r k of
        Inl e \<Rightarrow> (Inl e, r)
      | Inr z \<Rightarrow> (Inr (rev (sort_key (\<lambda>(m, s). (s, m)) z)), r))"

subsection \<open>Well-formed stores\<close>

text \<open>What Redis guarantees of its keyspace and the model's commands keep: one
  value per key, no empty set stored (an emptied set is deleted), and only
  existing keys carry a time-to-live.\<close>

definition wf_redis :: "redis \<Rightarrow> bool" where
  "wf_redis r \<longleftrightarrow> distinct (map fst (data r)) \<and> list_all (\<lambda>(k, v). v \<noteq> RSet []) (data r)
                  \<and> volatile r \<subseteq> set (map fst (data r))"

subsection \<open>Frame lemmas\<close>

lemma lookup_store [simp]: "lookup (store k v r) k' = (if k' = k then Some v else lookup r k')"
  by (simp add: lookup_def store_def update_conv')

lemma lookup_remove_key [simp]: "lookup (remove_key k r) k' = (if k' = k then None else lookup r k')"
  by (simp add: lookup_def remove_key_def delete_conv')

lemma volatile_store [simp]: "volatile (store k v r) = volatile r"
  by (simp add: store_def)

lemma volatile_remove_key [simp]: "volatile (remove_key k r) = volatile r - {k}"
  by (simp add: remove_key_def)

lemma call_True [simp]: "call True f r = f r"
  and call_False [simp]: "call False f r = (Inl ErrConn, r)"
  by (simp_all add: call_def)

lemmas view_defs = hash_of_def set_of_def list_of_def zset_of_def zsource_of_def

subsection \<open>Commands on well-formed values\<close>

lemma hincrby_srv_canonical:
  assumes "lookup r k = Some (RHash h)" "map_of h f = Some (itoa n)" "in_int64 n" "in_int64 (n + d)"
  shows "hincrby_srv k f d r = (Inr (n + d), store k (RHash (AList.update f (itoa (n + d)) h)) r)"
  using assms by (simp add: hincrby_srv_def hash_of_def)

lemma hincrby_srv_overflow:
  assumes "lookup r k = Some (RHash h)" "map_of h f = Some (itoa n)" "in_int64 n" "\<not> in_int64 (n + d)"
  shows "hincrby_srv k f d r = (Inl ErrOverflow, r)"
  using assms by (simp add: hincrby_srv_def hash_of_def)

lemma hincrby_srv_absent:
  assumes "lookup r k = None" "in_int64 d"
  shows "hincrby_srv k f d r = (Inr d, store k (RHash [(f, itoa d)]) r)"
  using assms by (simp add: hincrby_srv_def hash_of_def)

lemma store_triv: "lookup r k = Some v \<Longrightarrow> store k v r = r"
  by (simp add: store_def lookup_def update_triv)

lemma store_store [simp]: "store k v (store k v' r) = store k v r"
  by (simp add: store_def)

lemma hincrby_undo:
  assumes "lookup r k = Some (RHash h)" "map_of h f = Some (itoa n)" "in_int64 n" "in_int64 (n + d)"
  shows "hincrby_srv k f (- d) (store k (RHash (AList.update f (itoa (n + d)) h)) r) = (Inr n, r)"
proof -
  have "hincrby_srv k f (- d) (store k (RHash (AList.update f (itoa (n + d)) h)) r)
        = (Inr n, store k (RHash (AList.update f (itoa n) (AList.update f (itoa (n + d)) h)))
                     (store k (RHash (AList.update f (itoa (n + d)) h)) r))"
    using assms(3,4) by (simp add: hincrby_srv_canonical)
  also have "\<dots> = (Inr n, r)"
    using assms(1,2) by (simp add: update_triv store_triv)
  finally show ?thesis .
qed

lemma alist_eqI:
  "distinct (map fst xs) \<Longrightarrow> map fst xs = map fst ys \<Longrightarrow> map_of xs = map_of ys \<Longrightarrow> xs = ys"
proof (induction xs arbitrary: ys)
  case Nil
  then show ?case by simp
next
  case (Cons x xs)
  then obtain y ys' where ys: "ys = y # ys'" by (cases ys) auto
  with Cons.prems have k: "fst x = fst y" and ks: "map fst xs = map fst ys'" by simp_all
  have "snd x = snd y"
    using fun_cong [OF Cons.prems(3), of "fst x"] k by (simp add: ys)
  with k have xy: "x = y" by (simp add: prod_eq_iff)
  have "map_of xs = map_of ys'"
  proof
    fix a
    show "map_of xs a = map_of ys' a"
    proof (cases "a = fst x")
      case True
      have s: "set (map fst xs) = set (map fst ys')" using ks by (rule arg_cong)
      have "a \<notin> set (map fst xs)" using Cons.prems(1) True by simp
      then have "a \<notin> fst ` set xs" "a \<notin> fst ` set ys'" using s unfolding set_map by simp_all
      then show ?thesis by (metis map_of_eq_None_iff)
    next
      case False
      then show ?thesis using fun_cong [OF Cons.prems(3), of a] xy by (simp add: ys)
    qed
  qed
  with Cons.IH Cons.prems(1) ks have "xs = ys'" by simp
  with xy ys show ?case by simp
qed


lemma keys_store_present: "lookup r k \<noteq> None \<Longrightarrow> map fst (data (store k v r)) = map fst (data r)"
  unfolding store_def lookup_def by (simp add: update_keys map_of_eq_None_iff [symmetric])

lemma keys_store_absent: "lookup r k = None \<Longrightarrow> map fst (data (store k v r)) = map fst (data r) @ [k]"
  unfolding store_def lookup_def by (simp add: update_keys map_of_eq_None_iff [symmetric])

lemma keys_remove_key: "map fst (data (remove_key k r)) = removeAll k (map fst (data r))"
  by (simp add: remove_key_def delete_keys)

lemma lookup_None_keys: "lookup r k = None \<longleftrightarrow> k \<notin> set (map fst (data r))"
  unfolding lookup_def by (simp add: map_of_eq_None_iff)
lemma redis_eqI:
  assumes "distinct (map fst (data r))" "map fst (data r') = map fst (data r)"
    "\<And>k. lookup r' k = lookup r k" "volatile r' = volatile r"
  shows "r' = r"
proof -
  have "data r = data r'"
    using assms(1,2) assms(3) [unfolded lookup_def]
    by (intro alist_eqI) (auto simp: fun_eq_iff)
  with assms(4) show ?thesis by simp
qed

text \<open>\<open>ZREVRANGE\<close> returns its scores in descending order.\<close>

lemma zrevrange_desc:
  "sorted_wrt (\<ge>) (map snd (rev (sort_key (\<lambda>(m, s). (s, m)) (z :: (string \<times> int) list))))"
proof -
  have "sorted (map (\<lambda>(m, s). (s, m)) (sort_key (\<lambda>(m, s). (s, m)) z))" by (rule sorted_sort_key)
  then have "sorted (map fst (map (\<lambda>(m, s). (s, m)) (sort_key (\<lambda>(m :: string, s :: int). (s, m)) z)))"
    by (rule sorted_map_fst)
  then show ?thesis
    by (simp add: rev_map [symmetric] sorted_wrt_rev o_def case_prod_beta sorted_wrt_map)
qed

end
