(* ===== verification/Models.thy ===== *)
theory Models
  imports Go_Prelude "HOL-Library.Sublist"
begin

text \<open>
  The Go structs of \<open>internal/article/article_model\<close> and
  \<open>internal/user/user_model\<close> that the core reads and writes, as records, and the
  text helpers they are built with (\<open>utils.Substring\<close>).  Timestamps
  (\<open>time.Time\<close>) are integer nanosecond counts; their RFC3339 rendering, used by
  go-redis when a time is stored in a hash, is modelled by the decimal numeral, of
  which only the print/parse round trip is used.
\<close>

type_synonym go_time = int

definition rfc3339 :: "go_time \<Rightarrow> string" where
  "rfc3339 t = itoa t"

definition parse_rfc3339 :: "string \<Rightarrow> go_time option" where
  "parse_rfc3339 s = atoi s"

record article =
  art_id :: go_int
  art_title :: string
  art_content :: string
  art_manager :: go_int
  art_create :: go_time
  art_kind :: string
  art_like :: go_int

record article_no_like =
  anl_id :: go_int
  anl_title :: string
  anl_content :: string
  anl_manager :: go_int
  anl_create :: go_time
  anl_kind :: string

record basic_article =
  ba_id :: go_int
  ba_title :: string
  ba_content :: string
  ba_kind :: string
  ba_like :: go_int
  ba_manager :: go_int

record community_item =
  item_id :: go_int
  item_name :: string
  item_capacity :: go_int
  item_remain :: go_int
  item_price :: go_int
  item_begin :: go_time

record user_item =
  ui_id :: go_int
  ui_user :: go_int
  ui_item :: go_int
  ui_create :: go_time

record user_follow =
  uf_id :: go_int
  uf_user :: go_int
  uf_follow :: go_int
  uf_create :: go_time

text \<open>\<open>user_model.User\<close>, \<open>ScoreRecord\<close> and \<open>PhoneRecord\<close>.\<close>

record user =
  us_id :: go_int
  us_name :: string
  us_phone :: string
  us_manager :: go_int
  us_created :: go_time
  us_avatar :: string
  us_bio :: string
  us_likes :: go_int

record score_record =
  sr_id :: go_int
  sr_user :: go_int
  sr_manager :: go_int
  sr_score :: go_int
  sr_created :: go_time

record phone_record =
  pr_id :: go_int
  pr_user :: go_int
  pr_manager :: go_int
  pr_content :: string
  pr_created :: go_time
  pr_satisfaction :: go_int
  pr_phone :: string

subsection \<open>\<open>utils.Substring\<close>\<close>

text \<open>Go strings are UTF-8 byte strings; \<open>[]rune(s)\<close> counts code points.  Text
  reaches the program through JSON binding, which replaces invalid UTF-8 by
  U+FFFD, so the strings are valid UTF-8 and a code point is a lead byte
  followed by its continuation bytes (\<open>0x80\<close>-\<open>0xBF\<close>).\<close>

definition utf8_cont :: "char \<Rightarrow> bool" where
  "utf8_cont c \<longleftrightarrow> 128 \<le> (of_char c :: nat) \<and> (of_char c :: nat) < 192"

definition rune_count :: "string \<Rightarrow> nat" where
  "rune_count s = length (filter (\<lambda>c. \<not> utf8_cont c) s)"

text \<open>The longest prefix of \<open>s\<close> holding \<open>n\<close> code points.\<close>

fun take_runes :: "nat \<Rightarrow> string \<Rightarrow> string" where
  "take_runes n [] = []"
| "take_runes n (c # cs) =
     (if utf8_cont c then c # take_runes n cs
      else if n = 0 then [] else c # take_runes (n - 1) cs)"

definition substring :: "string \<Rightarrow> nat \<Rightarrow> string" where
  "substring s n = (if rune_count s \<le> n then s else take_runes n s)"

lemma take_runes_prefix: "prefix (take_runes n s) s"
  by (induction n s rule: take_runes.induct) auto

lemma substring_prefix: "prefix (substring s n) s"
  by (simp add: substring_def take_runes_prefix)

lemma rune_count_take_runes: "rune_count (take_runes n s) \<le> n"
  by (induction n s rule: take_runes.induct) (auto simp: rune_count_def)

lemma rune_count_substring: "rune_count (substring s n) \<le> n"
  by (simp add: substring_def rune_count_take_runes)

lemma substring_short [simp]: "rune_count s \<le> n \<Longrightarrow> substring s n = s"
  by (simp add: substring_def)

end
