(* ===== verification/Like_Cache.thy ===== *)
theory Like_Cache
  imports Redis_Store Models
begin

text \<open>
  The Counter Cache Engine's repository
  (\<open>internal/article/article_repository/article_cache_repository.go\<close>).  An
  article lives in the cache as a basic hash \<open>hcl:article:basic:map:<id>\<close>
  (listed per kind in \<open>hcl:article:basic:list:<kind>\<close>), a full hash
  \<open>hcl:article:full:<id>\<close> with a time-to-live, and the set
  \<open>hcl:article:like:<id>\<close> of users who liked it.  \<open>AddLikes\<close> and
  \<open>RemoveLikes\<close> are sequences of separate commands (membership test, two
  increments, a compensating decrement, the set update); the argument
  \<open>net :: nat \<Rightarrow> bool\<close> says which of them reach Redis, numbered in program order.
\<close>

datatype art_err =
    ErrRedis rerr
  | ErrAlreadyLiked
  | ErrNotLiked
  | ErrRollback rerr rerr
  | ErrOption
  | ErrParse
  | ErrBasicMissing

definition article_prefix :: string where
  "article_prefix = ''hcl:article''"

definition basic_map_key :: "go_int \<Rightarrow> string" where
  "basic_map_key aid = article_prefix @ '':basic:map:'' @ itoa aid"

definition basic_list_key :: "string \<Rightarrow> string" where
  "basic_list_key kind = article_prefix @ '':basic:list:'' @ kind"

definition full_key :: "go_int \<Rightarrow> string" where
  "full_key aid = article_prefix @ '':full:'' @ itoa aid"

definition like_key :: "go_int \<Rightarrow> string" where
  "like_key aid = article_prefix @ '':like:'' @ itoa aid"

subsection \<open>Writing articles\<close>

definition add_basic_article :: "(nat \<Rightarrow> bool) \<Rightarrow> basic_article \<Rightarrow> redis \<Rightarrow> (art_err + unit) \<times> redis" where
  "add_basic_article net ba r =
     (case call (net 0) (hset_srv (basic_map_key (ba_id ba))
             [(''id'', itoa (ba_id ba)), (''title'', ba_title ba), (''content'', ba_content ba),
              (''kind'', ba_kind ba), (''like'', itoa (ba_like ba)), (''manager_id'', itoa (ba_manager ba))]) r of
        (Inl e, r) \<Rightarrow> (Inl (ErrRedis e), r)
      | (Inr _, r) \<Rightarrow>
          (case call (net 1) (lpush_srv (basic_list_key (ba_kind ba)) (itoa (ba_id ba))) r of
             (Inl e, r) \<Rightarrow> (Inl (ErrRedis e), r)
           | (Inr _, r) \<Rightarrow> (Inr (), r)))"

definition add_article_cache :: "(nat \<Rightarrow> bool) \<Rightarrow> article \<Rightarrow> redis \<Rightarrow> (art_err + unit) \<times> redis" where
  "add_article_cache net a r =
     (case call (net 0) (hset_srv (full_key (art_id a))
             [(''id'', itoa (art_id a)), (''title'', art_title a), (''content'', art_content a),
              (''kind'', art_kind a), (''like'', itoa (art_like a)), (''manager_id'', itoa (art_manager a)),
              (''create_at'', rfc3339 (art_create a))]) r of
        (Inl e, r) \<Rightarrow> (Inl (ErrRedis e), r)
      | (Inr _, r) \<Rightarrow>
          (case call (net 1) (expire_srv (full_key (art_id a))) r of
             (Inl e, r) \<Rightarrow> (Inl (ErrRedis e), r)
           | (Inr _, r) \<Rightarrow> (Inr (), r)))"

definition add_basic_article_without_list :: "bool \<Rightarrow> article \<Rightarrow> redis \<Rightarrow> (art_err + unit) \<times> redis" where
  "add_basic_article_without_list ok a r =
     (case call ok (hset_srv (basic_map_key (art_id a))
             [(''id'', itoa (art_id a)), (''title'', art_title a), (''content'', substring (art_content a) 5),
              (''kind'', art_kind a), (''like'', itoa (art_like a)), (''manager_id'', itoa (art_manager a))]) r of
        (Inl e, r) \<Rightarrow> (Inl (ErrRedis e), r)
      | (Inr _, r) \<Rightarrow> (Inr (), r))"

definition delete_article_for_update :: "(nat \<Rightarrow> bool) \<Rightarrow> go_int \<Rightarrow> redis \<Rightarrow> (art_err + unit) \<times> redis" where
  "delete_article_for_update net aid r =
     (case call (net 0) (del_srv (full_key aid)) r of
        (Inl e, r) \<Rightarrow> (Inl (ErrRedis e), r)
      | (Inr _, r) \<Rightarrow>
          (case call (net 1) (del_srv (basic_map_key aid)) r of
             (Inl e, r) \<Rightarrow> (Inl (ErrRedis e), r)
           | (Inr _, r) \<Rightarrow> (Inr (), r)))"

subsection \<open>Reading articles\<close>

text \<open>\<open>GetArticleByID\<close>: an empty hash is a miss (\<open>nil\<close>, no error); a field that
  does not parse (a missing field reads as the empty string) is an error.\<close>

definition get_article_cache :: "bool \<Rightarrow> go_int \<Rightarrow> redis \<Rightarrow> art_err + article option" where
  "get_article_cache ok aid r =
     (case fst (call ok (hgetall_srv (full_key aid)) r) of
        Inl e \<Rightarrow> Inl (ErrRedis e)
      | Inr h \<Rightarrow>
          if h = [] then Inr None
          else let fld = (\<lambda>f. case map_of h f of None \<Rightarrow> [] | Some v \<Rightarrow> v) in
            (case (atoi (fld ''like''), atoi (fld ''manager_id''), parse_rfc3339 (fld ''create_at'')) of
               (Some lk, Some mg, Some t) \<Rightarrow>
                 Inr (Some \<lparr>art_id = aid, art_title = fld ''title'', art_content = fld ''content'',
                           art_manager = mg, art_create = t, art_kind = fld ''kind'', art_like = lk\<rparr>)
             | _ \<Rightarrow> Inl ErrParse))"

text \<open>\<open>GetBasicArticleByID\<close>: here an empty hash is an error.\<close>

definition get_basic_article :: "bool \<Rightarrow> go_int \<Rightarrow> redis \<Rightarrow> art_err + basic_article" where
  "get_basic_article ok aid r =
     (case fst (call ok (hgetall_srv (basic_map_key aid)) r) of
        Inl e \<Rightarrow> Inl (ErrRedis e)
      | Inr h \<Rightarrow>
          if h = [] then Inl ErrBasicMissing
          else let fld = (\<lambda>f. case map_of h f of None \<Rightarrow> [] | Some v \<Rightarrow> v) in
            (case (atoi (fld ''like''), atoi (fld ''manager_id'')) of
               (Some lk, Some mg) \<Rightarrow>
                 Inr \<lparr>ba_id = aid, ba_title = fld ''title'', ba_content = fld ''content'',
                      ba_kind = fld ''kind'', ba_like = lk, ba_manager = mg\<rparr>
             | _ \<Rightarrow> Inl ErrParse))"

subsection \<open>Likes\<close>

text \<open>\<open>UseLikeSort\<close>: the option string selects \<open>SADD\<close> or \<open>SREM\<close> on the like set.\<close>

definition use_like_sort :: "bool \<Rightarrow> go_int \<Rightarrow> go_int \<Rightarrow> string \<Rightarrow> redis \<Rightarrow> (art_err + unit) \<times> redis" where
  "use_like_sort ok aid uid opt r =
     (if opt \<noteq> ''addLike'' \<and> opt \<noteq> ''removeLike'' then (Inl ErrOption, r)
      else if opt = ''addLike'' then
        (case call ok (sadd_srv (like_key aid) (itoa uid)) r of
           (Inl e, r) \<Rightarrow> (Inl (ErrRedis e), r) | (Inr _, r) \<Rightarrow> (Inr (), r))
      else
        (case call ok (srem_srv (like_key aid) (itoa uid)) r of
           (Inl e, r) \<Rightarrow> (Inl (ErrRedis e), r) | (Inr _, r) \<Rightarrow> (Inr (), r)))"

text \<open>The common body of \<open>AddLikes\<close> and \<open>RemoveLikes\<close> after the membership
  test: increment the basic projection, then the full one; if the second
  increment fails, compensate the first and report the failure (both failures when
  the compensation fails too); finally update the like set.\<close>

definition bump_likes :: "(nat \<Rightarrow> bool) \<Rightarrow> go_int \<Rightarrow> go_int \<Rightarrow> int \<Rightarrow> string \<Rightarrow> redis \<Rightarrow> (art_err + unit) \<times> redis" where
  "bump_likes net aid uid i opt r =
     (case call (net 1) (hincrby_srv (basic_map_key aid) ''like'' i) r of
        (Inl e, r) \<Rightarrow> (Inl (ErrRedis e), r)
      | (Inr _, r) \<Rightarrow>
          (case call (net 2) (hincrby_srv (full_key aid) ''like'' i) r of
             (Inl e, r) \<Rightarrow>
               (case call (net 3) (hincrby_srv (basic_map_key aid) ''like'' (- i)) r of
                  (Inl e', r) \<Rightarrow> (Inl (ErrRollback e e'), r)
                | (Inr _, r) \<Rightarrow> (Inl (ErrRedis e), r))
           | (Inr _, r) \<Rightarrow> use_like_sort (net 4) aid uid opt r))"

definition add_likes_cache :: "(nat \<Rightarrow> bool) \<Rightarrow> go_int \<Rightarrow> go_int \<Rightarrow> int \<Rightarrow> redis \<Rightarrow> (art_err + unit) \<times> redis" where
  "add_likes_cache net aid uid i r =
     (case call (net 0) (sismember_srv (like_key aid) (itoa uid)) r of
        (Inl e, r) \<Rightarrow> (Inl (ErrRedis e), r)
      | (Inr True, r) \<Rightarrow> (Inl ErrAlreadyLiked, r)
      | (Inr False, r) \<Rightarrow> bump_likes net aid uid i ''addLike'' r)"

definition remove_likes_cache :: "(nat \<Rightarrow> bool) \<Rightarrow> go_int \<Rightarrow> go_int \<Rightarrow> int \<Rightarrow> redis \<Rightarrow> (art_err + unit) \<times> redis" where
  "remove_likes_cache net aid uid i r =
     (case call (net 0) (sismember_srv (like_key aid) (itoa uid)) r of
        (Inl e, r) \<Rightarrow> (Inl (ErrRedis e), r)
      | (Inr False, r) \<Rightarrow> (Inl ErrNotLiked, r)
      | (Inr True, r) \<Rightarrow> bump_likes net aid uid i ''removeLike'' r)"

subsection \<open>Scanning counts for reconciliation\<close>

definition basic_scan_prefix :: string where
  "basic_scan_prefix = ''hcl:article:basic:map:''"

text \<open>One key of the scan: the id after the prefix, then the \<open>like\<close> field; a key
  whose id or count does not parse, or whose \<open>HGET\<close> fails, is logged and skipped.\<close>

definition scan_entry :: "bool \<Rightarrow> redis \<Rightarrow> string \<Rightarrow> (go_int \<times> go_int) option" where
  "scan_entry ok r k =
     (case atoi (drop (length basic_scan_prefix) k) of
        None \<Rightarrow> None
      | Some aid \<Rightarrow>
          (case fst (call ok (hget_srv k ''like'') r) of
             Inl _ \<Rightarrow> None
           | Inr s \<Rightarrow> (case atoi s of None \<Rightarrow> None | Some lk \<Rightarrow> Some (aid, lk))))"

definition get_all_articles_from_hash :: "(nat \<Rightarrow> bool) \<Rightarrow> redis \<Rightarrow> art_err + (go_int \<times> go_int) list" where
  "get_all_articles_from_hash net r =
     (case fst (call (net 0) (scan_srv basic_scan_prefix) r) of
        Inl e \<Rightarrow> Inl (ErrRedis e)
      | Inr ks \<Rightarrow> Inr (List.map_filter (\<lambda>(j, k). scan_entry (net (Suc j)) r k) (enumerate 0 ks)))"

subsection \<open>Views of an article's counters\<close>

text \<open>The \<open>like\<close> field of a hash, when it holds a canonical integer.\<close>

definition hash_like :: "redis \<Rightarrow> string \<Rightarrow> int option" where
  "hash_like r k =
     (case lookup r k of
        Some (RHash h) \<Rightarrow> (case map_of h ''like'' of None \<Rightarrow> None | Some s \<Rightarrow> redis_int s)
      | _ \<Rightarrow> None)"

definition likers :: "redis \<Rightarrow> go_int \<Rightarrow> string list option" where
  "likers r aid = (case set_of r (like_key aid) of Inl _ \<Rightarrow> None | Inr s \<Rightarrow> Some s)"

text \<open>The counter invariant of an article: the basic projection counts the like
  set, the set has no duplicates, and the full projection, when cached, agrees.\<close>

definition like_inv :: "go_int \<Rightarrow> redis \<Rightarrow> bool" where
  "like_inv aid r =
     (case (hash_like r (basic_map_key aid), likers r aid) of
        (Some n, Some us) \<Rightarrow>
          n = int (length us) \<and> distinct us
          \<and> (lookup r (full_key aid) = None \<or> hash_like r (full_key aid) = Some n)
      | _ \<Rightarrow> False)"

text \<open>The store after both increments of \<open>bump_likes\<close> succeeded.\<close>

definition bumped :: "go_int \<Rightarrow> int \<Rightarrow> (string \<times> string) list \<Rightarrow> int \<Rightarrow> (string \<times> string) list \<Rightarrow> int \<Rightarrow> redis \<Rightarrow> redis" where
  "bumped aid i hb n hf m r =
     store (full_key aid) (RHash (AList.update ''like'' (itoa (m + i)) hf))
       (store (basic_map_key aid) (RHash (AList.update ''like'' (itoa (n + i)) hb)) r)"

text \<open>The keys matching the scan pattern that parse as an id are the basic keys of
  that id, as the program writes them.\<close>

definition basic_keys_canonical :: "redis \<Rightarrow> bool" where
  "basic_keys_canonical r =
     list_all (\<lambda>k. glob_prefix basic_scan_prefix k \<longrightarrow>
                    (case atoi (drop (length basic_scan_prefix) k) of None \<Rightarrow> True | Some a \<Rightarrow> k = basic_map_key a))
       (map fst (data r))"

subsection \<open>A fixture\<close>

definition demo_article :: article where
  "demo_article = \<lparr>art_id = 1, art_title = ''Free clinic'', art_content = ''Saturday morning at the hall'',
                   art_manager = 9, art_create = 0, art_kind = ''medical'', art_like = 0\<rparr>"

definition demo_basic :: basic_article where
  "demo_basic = \<lparr>ba_id = 1, ba_title = ''Free clinic'', ba_content = substring ''Saturday morning at the hall'' 5,
                 ba_kind = ''medical'', ba_like = 0, ba_manager = 9\<rparr>"

definition demo_cache :: redis where
  "demo_cache = snd (add_article_cache (\<lambda>_. True) demo_article (snd (add_basic_article (\<lambda>_. True) demo_basic empty_redis)))"

subsection \<open>Keys\<close>

lemma article_keys_distinct [key_simps]:
  "basic_map_key a \<noteq> full_key b" "full_key b \<noteq> basic_map_key a"
  "basic_map_key a \<noteq> like_key b" "like_key b \<noteq> basic_map_key a"
  "full_key a \<noteq> like_key b" "like_key b \<noteq> full_key a"
  "basic_list_key c \<noteq> basic_map_key a" "basic_map_key a \<noteq> basic_list_key c"
  "basic_list_key c \<noteq> full_key a" "full_key a \<noteq> basic_list_key c"
  "basic_list_key c \<noteq> like_key a" "like_key a \<noteq> basic_list_key c"
  by (simp_all add: basic_map_key_def basic_list_key_def full_key_def like_key_def article_prefix_def)

lemma article_keys_eq_iff [key_simps]:
  "basic_map_key a = basic_map_key b \<longleftrightarrow> a = b"
  "full_key a = full_key b \<longleftrightarrow> a = b"
  "like_key a = like_key b \<longleftrightarrow> a = b"
  by (simp_all add: basic_map_key_def full_key_def like_key_def key_simps)


subsection \<open>Liking and unliking\<close>

lemma bump_likes_state:
  assumes B: "lookup r (basic_map_key aid) = Some (RHash hb)" "map_of hb ''like'' = Some (itoa n)" "in_int64 n"
    and F: "lookup r (full_key aid) = Some (RHash hf)" "map_of hf ''like'' = Some (itoa m)" "in_int64 m"
    and rb: "net 3"
  shows "bump_likes net aid uid i opt r =
    (if net 1 \<and> in_int64 (n + i) \<and> net 2 \<and> in_int64 (m + i)
     then use_like_sort (net 4) aid uid opt (bumped aid i hb n hf m r)
     else (Inl (ErrRedis (if \<not> net 1 \<or> \<not> net 2 \<and> in_int64 (n + i) then ErrConn else ErrOverflow)), r))"
proof -
  let ?rB = "store (basic_map_key aid) (RHash (AList.update ''like'' (itoa (n + i)) hb)) r"
  have F': "lookup ?rB (full_key aid) = Some (RHash hf)" using F(1) by (simp add: key_simps)
  have undo: "in_int64 (n + i) \<Longrightarrow> hincrby_srv (basic_map_key aid) ''like'' (- i) ?rB = (Inr n, r)"
    using B by (simp add: hincrby_undo)
  show ?thesis
  proof (cases "net 1 \<and> in_int64 (n + i)")
    case False
    then show ?thesis using B by (auto simp: bump_likes_def call_def hincrby_srv_overflow)
  next
    case True
    then have inc: "hincrby_srv (basic_map_key aid) ''like'' i r = (Inr (n + i), ?rB)"
      using B by (simp add: hincrby_srv_canonical)
    show ?thesis
    proof (cases "net 2 \<and> in_int64 (m + i)")
      case False
      have ov: "\<not> in_int64 (m + i) \<Longrightarrow> hincrby_srv (full_key aid) ''like'' i ?rB = (Inl ErrOverflow, ?rB)"
        using F' F(2,3) by (simp add: hincrby_srv_overflow)
      from True False undo ov rb show ?thesis by (auto simp: bump_likes_def inc call_def)
    next
      case c2: True
      then have "hincrby_srv (full_key aid) ''like'' i ?rB = (Inr (m + i), bumped aid i hb n hf m r)"
        using F' F(2,3) by (simp add: hincrby_srv_canonical bumped_def)
      with True c2 show ?thesis by (simp add: bump_likes_def inc call_def)
    qed
  qed
qed

lemma like_inv_full:
  assumes "like_inv aid r" "lookup r (full_key aid) \<noteq> None"
  obtains hb hf n us where
    "lookup r (basic_map_key aid) = Some (RHash hb)" "map_of hb ''like'' = Some (itoa n)"
    "lookup r (full_key aid) = Some (RHash hf)" "map_of hf ''like'' = Some (itoa n)"
    "in_int64 n" "set_of r (like_key aid) = Inr us" "n = int (length us)" "distinct us"
  using assms
  by (auto simp: like_inv_def hash_like_def likers_def
      split: option.splits rval.splits sum.splits dest!: redis_int_Some)

lemma bumped_views [simp]:
  "lookup (bumped aid i hb n hf m r) (basic_map_key aid) = Some (RHash (AList.update ''like'' (itoa (n + i)) hb))"
  "lookup (bumped aid i hb n hf m r) (full_key aid) = Some (RHash (AList.update ''like'' (itoa (m + i)) hf))"
  "lookup (bumped aid i hb n hf m r) (like_key aid) = lookup r (like_key aid)"
  by (simp_all add: bumped_def key_simps)

lemma like_inv_bumped_set:
  assumes "in_int64 (n + i)" "int (length us') = n + i" "distinct us'" "us' \<noteq> []"
  shows "like_inv aid (store (like_key aid) (RSet us') (bumped aid i hb n hf n r))"
  using assms by (simp add: like_inv_def hash_like_def likers_def set_of_def key_simps)

lemma like_inv_bumped_del:
  assumes "in_int64 (n + i)" "n + i = 0"
  shows "like_inv aid (remove_key (like_key aid) (bumped aid i hb n hf n r))"
  using assms by (simp add: like_inv_def hash_like_def likers_def set_of_def key_simps)

lemma add_likes_keeps_inv:
  assumes inv: "like_inv aid r" and full: "lookup r (full_key aid) \<noteq> None" and "net 3" "net 4"
  shows "like_inv aid (snd (add_likes_cache net aid uid 1 r))"
proof -
  obtain hb hf n us where v:
    "lookup r (basic_map_key aid) = Some (RHash hb)" "map_of hb ''like'' = Some (itoa n)"
    "lookup r (full_key aid) = Some (RHash hf)" "map_of hf ''like'' = Some (itoa n)"
    "in_int64 n" "set_of r (like_key aid) = Inr us" "n = int (length us)" "distinct us"
    using inv full by (rule like_inv_full)
  note bump = bump_likes_state [where net = net and uid = uid and i = 1 and opt = "''addLike''",
                                OF v(1,2,5) v(3,4,5) \<open>net 3\<close>]
  have sadd: "set_of (bumped aid 1 hb n hf n r) (like_key aid) = Inr us"
    using v(6) by (simp add: set_of_def)
  show ?thesis
  proof (cases "net 0 \<and> itoa uid \<notin> set us")
    case False
    with inv v(6) show ?thesis
      by (auto simp: add_likes_cache_def call_def sismember_srv_def)
  next
    case True
    then have start: "add_likes_cache net aid uid 1 r = bump_likes net aid uid 1 ''addLike'' r"
      using v(6) by (simp add: add_likes_cache_def sismember_srv_def)
    show ?thesis
    proof (cases "net 1 \<and> in_int64 (n + 1) \<and> net 2")
      case False
      with inv show ?thesis by (auto simp: start bump)
    next
      case c: True
      have "like_inv aid (store (like_key aid) (RSet (List.insert (itoa uid) us)) (bumped aid 1 hb n hf n r))"
        using True c v(7,8) by (intro like_inv_bumped_set) auto
      with c \<open>net 4\<close> sadd show ?thesis
        by (simp add: start bump use_like_sort_def sadd_srv_def)
    qed
  qed
qed

lemma remove_likes_keeps_inv:
  assumes inv: "like_inv aid r" and full: "lookup r (full_key aid) \<noteq> None" and "net 3" "net 4"
  shows "like_inv aid (snd (remove_likes_cache net aid uid (-1) r))"
proof -
  obtain hb hf n us where v:
    "lookup r (basic_map_key aid) = Some (RHash hb)" "map_of hb ''like'' = Some (itoa n)"
    "lookup r (full_key aid) = Some (RHash hf)" "map_of hf ''like'' = Some (itoa n)"
    "in_int64 n" "set_of r (like_key aid) = Inr us" "n = int (length us)" "distinct us"
    using inv full by (rule like_inv_full)
  note bump = bump_likes_state [where net = net and uid = uid and i = "-1" and opt = "''removeLike''",
                                OF v(1,2,5) v(3,4,5) \<open>net 3\<close>]
  have srem: "set_of (bumped aid (-1) hb n hf n r) (like_key aid) = Inr us"
    using v(6) by (simp add: set_of_def)
  show ?thesis
  proof (cases "net 0 \<and> itoa uid \<in> set us")
    case False
    with inv v(6) show ?thesis
      by (auto simp: remove_likes_cache_def call_def sismember_srv_def)
  next
    case True
    then have start: "remove_likes_cache net aid uid (-1) r = bump_likes net aid uid (-1) ''removeLike'' r"
      using v(6) by (simp add: remove_likes_cache_def sismember_srv_def)
    have pos: "0 < length us" using True by (auto simp: length_pos_if_in_set)
    have len: "int (length (removeAll (itoa uid) us)) = n + -1"
      using True v(7,8) pos by (simp add: distinct_remove1_removeAll [symmetric] length_remove1 of_nat_diff Suc_le_eq)
    have rng: "in_int64 (n + -1)"
      using True v(5,7) by (cases us) (auto simp: in_int64_def)
    show ?thesis
    proof (cases "net 1 \<and> net 2")
      case False
      with inv show ?thesis by (auto simp: start bump)
    next
      case c: True
      show ?thesis
      proof (cases "removeAll (itoa uid) us = []")
        case True
        then have "like_inv aid (remove_key (like_key aid) (bumped aid (-1) hb n hf n r))"
          using len rng by (intro like_inv_bumped_del) auto
        with c rng \<open>net 4\<close> srem True show ?thesis
          by (simp add: start bump use_like_sort_def srem_srv_def)
      next
        case False
        then have "like_inv aid (store (like_key aid) (RSet (removeAll (itoa uid) us)) (bumped aid (-1) hb n hf n r))"
          using len rng v(8) by (intro like_inv_bumped_set) (auto simp: distinct_removeAll)
        with c rng \<open>net 4\<close> srem False show ?thesis
          by (simp add: start bump use_like_sort_def srem_srv_def)
      qed
    qed
  qed
qed

lemma add_likes_ok:
  assumes inv: "like_inv aid r" and full: "lookup r (full_key aid) \<noteq> None"
    and us: "likers r aid = Some us" "itoa uid \<notin> set us"
    and rng: "in_int64 (int (length us) + 1)"
  obtains hb hf where
    "lookup r (basic_map_key aid) = Some (RHash hb)" "map_of hb ''like'' = Some (itoa (int (length us)))"
    "lookup r (full_key aid) = Some (RHash hf)" "map_of hf ''like'' = Some (itoa (int (length us)))"
    "set_of r (like_key aid) = Inr us" "distinct us"
    "add_likes_cache (\<lambda>_. True) aid uid 1 r =
       (Inr (), store (like_key aid) (RSet (itoa uid # us)) (bumped aid 1 hb (int (length us)) hf (int (length us)) r))"
proof -
  obtain hb hf n us' where v:
    "lookup r (basic_map_key aid) = Some (RHash hb)" "map_of hb ''like'' = Some (itoa n)"
    "lookup r (full_key aid) = Some (RHash hf)" "map_of hf ''like'' = Some (itoa n)"
    "in_int64 n" "set_of r (like_key aid) = Inr us'" "n = int (length us')" "distinct us'"
    using inv full by (rule like_inv_full)
  from v(6) us(1) have "us' = us" by (simp add: likers_def)
  with v have v': "n = int (length us)" "set_of r (like_key aid) = Inr us" "distinct us" by simp_all
  have sadd: "set_of (bumped aid 1 hb n hf n r) (like_key aid) = Inr us"
    using v'(2) by (simp add: set_of_def)
  have "add_likes_cache (\<lambda>_. True) aid uid 1 r =
       (Inr (), store (like_key aid) (RSet (itoa uid # us)) (bumped aid 1 hb n hf n r))"
    using bump_likes_state [where net = "\<lambda>_. True" and uid = uid and i = 1 and opt = "''addLike''",
                            OF v(1,2,5) v(3,4,5)] v' us(2) rng sadd
    by (simp add: add_likes_cache_def sismember_srv_def use_like_sort_def sadd_srv_def)
  with v v' show ?thesis using that by simp
qed


subsection \<open>Reads and invalidation\<close>

lemma delete_article_for_update_ok:
  "delete_article_for_update net aid r = (Inr u, r') \<Longrightarrow>
     r' = remove_key (basic_map_key aid) (remove_key (full_key aid) r)"
  by (auto simp: delete_article_for_update_def call_def del_srv_def split: if_splits)

lemma get_article_cache_absent:
  "lookup r (full_key aid) = None \<Longrightarrow> get_article_cache True aid r = Inr None"
  by (simp add: get_article_cache_def hgetall_srv_def hash_of_def)

lemma get_basic_article_absent:
  "lookup r (basic_map_key aid) = None \<Longrightarrow> get_basic_article True aid r = Inl ErrBasicMissing"
  by (simp add: get_basic_article_def hgetall_srv_def hash_of_def)

lemma get_article_cache_Some:
  "get_article_cache ok aid r = Inr (Some c) \<Longrightarrow> art_id c = aid \<and> in_int64 (art_like c)"
  by (auto simp: get_article_cache_def Let_def split: sum.splits if_splits option.splits dest: atoi_range)

text \<open>The basic hash written by \<open>AddBasicArticleWithoutAddList\<close> on a missing key
  reads back as the article's basic projection.\<close>

lemma get_basic_article_without_list:
  assumes "lookup r (basic_map_key (art_id b)) = None" "in_int64 (art_like b)" "in_int64 (art_manager b)"
  shows "get_basic_article True (art_id b) (snd (add_basic_article_without_list True b r))
         = Inr \<lparr>ba_id = art_id b, ba_title = art_title b, ba_content = substring (art_content b) 5,
                ba_kind = art_kind b, ba_like = art_like b, ba_manager = art_manager b\<rparr>"
  using assms
  by (simp add: add_basic_article_without_list_def hset_srv_def hash_of_def
      get_basic_article_def hgetall_srv_def atoi_itoa)

lemma add_basic_article_without_list_frame:
  "k \<noteq> basic_map_key (art_id b) \<Longrightarrow>
     lookup (snd (add_basic_article_without_list ok b r)) k = lookup r k"
  by (auto simp: add_basic_article_without_list_def call_def hset_srv_def split: sum.splits)

subsection \<open>Scanning\<close>

lemma get_all_articles_ok:
  "get_all_articles_from_hash (\<lambda>_. True) r
   = Inr (List.map_filter (scan_entry True r) (filter (glob_prefix basic_scan_prefix) (map fst (data r))))"
  by (simp add: get_all_articles_from_hash_def scan_srv_def map_filter_enumerate)

lemma glob_prefix_basic: "glob_prefix basic_scan_prefix (basic_map_key aid)"
  by (simp add: glob_prefix_def basic_map_key_def basic_scan_prefix_def article_prefix_def)

lemma scan_entry_basic:
  assumes "in_int64 aid" "hash_like r (basic_map_key aid) = Some n"
  shows "scan_entry True r (basic_map_key aid) = Some (aid, n)"
proof -
  obtain h s where "lookup r (basic_map_key aid) = Some (RHash h)" "map_of h ''like'' = Some s" "redis_int s = Some n"
    using assms(2) by (auto simp: hash_like_def split: option.splits rval.splits)
  moreover have "drop (length basic_scan_prefix) (basic_map_key aid) = itoa aid"
    by (simp add: basic_map_key_def basic_scan_prefix_def article_prefix_def)
  ultimately show ?thesis
    using assms(1) redis_int_Some [of s n]
    by (simp add: scan_entry_def hget_srv_def hash_of_def atoi_itoa)
qed

lemma scan_entry_key:
  "scan_entry ok r k = Some e \<Longrightarrow>
     (case atoi (drop (length basic_scan_prefix) k) of None \<Rightarrow> True | Some a \<Rightarrow> k = basic_map_key a) \<Longrightarrow>
     k = basic_map_key (fst e)"
  by (auto simp: scan_entry_def split: option.splits sum.splits)

subsection \<open>Properties\<close>

text \<open>Undoing a like: after the like's two increments and \<open>SADD\<close>, the unlike's
  two decrements and \<open>SREM\<close> give back the store exactly, keys, order and TTLs.\<close>

lemma unlike_restores:
  assumes wf: "wf_redis r"
    and v: "lookup r (basic_map_key aid) = Some (RHash hb)" "map_of hb ''like'' = Some (itoa n)"
      "lookup r (full_key aid) = Some (RHash hf)" "map_of hf ''like'' = Some (itoa n)"
    and lk_r: "lookup r (like_key aid) = (if us = [] then None else Some (RSet us))"
  shows "(if us = [] then remove_key (like_key aid)
            (bumped aid (-1) (AList.update ''like'' (itoa (n + 1)) hb) (n + 1) (AList.update ''like'' (itoa (n + 1)) hf) (n + 1)
              (store (like_key aid) (RSet (itoa uid # us)) (bumped aid 1 hb n hf n r)))
          else store (like_key aid) (RSet us)
            (bumped aid (-1) (AList.update ''like'' (itoa (n + 1)) hb) (n + 1) (AList.update ''like'' (itoa (n + 1)) hf) (n + 1)
              (store (like_key aid) (RSet (itoa uid # us)) (bumped aid 1 hb n hf n r)))) = r"
    (is "?r3 = r")
proof -
  have look: "lookup ?r3 k = lookup r k" for k
    using v lk_r by (auto simp: bumped_def key_simps update_triv)
  have present: "lookup r (basic_map_key aid) \<noteq> None" "lookup r (full_key aid) \<noteq> None"
    using v(1,3) by simp_all
  have keys: "map fst (data ?r3) = map fst (data r)"
  proof (cases "us = []")
    case True
    then have "lookup r (like_key aid) = None" using lk_r by simp
    moreover from this have "like_key aid \<notin> set (map fst (data r))"
      by (simp add: lookup_None_keys)
    ultimately show ?thesis
      using True present
      by (simp add: bumped_def keys_store_present keys_store_absent keys_remove_key key_simps)
  next
    case False
    then have "lookup r (like_key aid) \<noteq> None" using lk_r by simp
    with False present show ?thesis
      by (simp add: bumped_def keys_store_present key_simps)
  qed
  have vol: "volatile ?r3 = volatile r"
  proof (cases "us = []")
    case True
    then have "like_key aid \<notin> set (map fst (data r))"
      using lk_r lookup_None_keys by simp
    with wf have "like_key aid \<notin> volatile r" by (auto simp: wf_redis_def)
    with True show ?thesis by (auto simp: bumped_def)
  next
    case False
    then show ?thesis by (simp add: bumped_def)
  qed
  show ?thesis
    using wf keys look vol by (intro redis_eqI) (simp_all add: wf_redis_def)
qed

text \<open>C6 (roundtrip).  On a well-formed store where an article's counters agree
  and its full projection is cached, a like followed by an unlike of the same user
  both succeed and give back exactly the store before the like: both counters,
  the like set, the key order and the TTLs.\<close>

theorem like_unlike_roundtrip:
  assumes wf: "wf_redis r" and inv: "like_inv aid r" and full: "lookup r (full_key aid) \<noteq> None"
    and us: "likers r aid = Some us" "itoa uid \<notin> set us"
    and rng: "in_int64 (int (length us) + 1)"
  shows "fst (add_likes_cache (\<lambda>_. True) aid uid 1 r) = Inr ()
       \<and> remove_likes_cache (\<lambda>_. True) aid uid (-1) (snd (add_likes_cache (\<lambda>_. True) aid uid 1 r)) = (Inr (), r)"
proof -
  let ?n = "int (length us)"
  obtain hb hf where v:
    "lookup r (basic_map_key aid) = Some (RHash hb)" "map_of hb ''like'' = Some (itoa ?n)"
    "lookup r (full_key aid) = Some (RHash hf)" "map_of hf ''like'' = Some (itoa ?n)"
    "set_of r (like_key aid) = Inr us" "distinct us"
    and add: "add_likes_cache (\<lambda>_. True) aid uid 1 r =
       (Inr (), store (like_key aid) (RSet (itoa uid # us)) (bumped aid 1 hb ?n hf ?n r))"
    using assms(2-6) by (rule add_likes_ok)
  let ?r1 = "store (like_key aid) (RSet (itoa uid # us)) (bumped aid 1 hb ?n hf ?n r)"
  let ?hb1 = "AList.update ''like'' (itoa (?n + 1)) hb" and ?hf1 = "AList.update ''like'' (itoa (?n + 1)) hf"
  have n64: "in_int64 ?n" using rng by (simp add: in_int64_def)
  have v1: "lookup ?r1 (basic_map_key aid) = Some (RHash ?hb1)" "map_of ?hb1 ''like'' = Some (itoa (?n + 1))"
    "lookup ?r1 (full_key aid) = Some (RHash ?hf1)" "map_of ?hf1 ''like'' = Some (itoa (?n + 1))"
    "set_of ?r1 (like_key aid) = Inr (itoa uid # us)"
    by (simp_all add: key_simps set_of_def)
  let ?r2 = "bumped aid (-1) ?hb1 (?n + 1) ?hf1 (?n + 1) ?r1"
  have set2: "set_of ?r2 (like_key aid) = Inr (itoa uid # us)"
    using v1(5) by (simp add: set_of_def)
  have rem_us: "removeAll (itoa uid) (itoa uid # us) = us" using us(2) by simp
  let ?r3 = "if us = [] then remove_key (like_key aid) ?r2 else store (like_key aid) (RSet us) ?r2"
  have rem: "remove_likes_cache (\<lambda>_. True) aid uid (-1) ?r1 = (Inr (), ?r3)"
    using bump_likes_state [where net = "\<lambda>_. True" and uid = uid and i = "-1" and opt = "''removeLike''",
                            OF v1(1,2) _ v1(3,4)] rng n64 set2 rem_us v1(5)
    by (simp add: remove_likes_cache_def sismember_srv_def use_like_sort_def srem_srv_def)
  have lk_r: "lookup r (like_key aid) = (if us = [] then None else Some (RSet us))"
    using v(5) wf
    by (auto simp: set_of_def wf_redis_def list_all_iff lookup_def dest: map_of_SomeD
             split: option.splits rval.splits)
  have "?r3 = r" by (rule unlike_restores [OF wf v(1-4) lk_r])
  with add rem show ?thesis by simp
qed

theorem like_unlike_roundtrip_witness:
  "wf_redis demo_cache \<and> like_inv 1 demo_cache \<and> likers demo_cache 1 = Some []
   \<and> fst (add_likes_cache (\<lambda>_. True) 1 5 1 demo_cache) = Inr ()
   \<and> remove_likes_cache (\<lambda>_. True) 1 5 (-1) (snd (add_likes_cache (\<lambda>_. True) 1 5 1 demo_cache)) = (Inr (), demo_cache)"
proof -
  have h1: "wf_redis demo_cache" by code_simp
  have h2: "like_inv 1 demo_cache" by code_simp
  have h3: "lookup demo_cache (full_key 1) \<noteq> None" by code_simp
  have h4: "likers demo_cache 1 = Some []" by code_simp
  have h5: "itoa 5 \<notin> set []" by simp
  have h6: "in_int64 (int (length ([] :: string list)) + 1)" by code_simp
  show ?thesis using like_unlike_roundtrip [OF h1 h2 h3 h4 h5 h6] h1 h2 h4 by simp
qed

text \<open>C7 (functional).  Liking twice in a row: the first call succeeds and adds
  one to both projections and the user to the like set; the second fails with
  "already liked" and changes nothing.\<close>

theorem like_twice:
  assumes "like_inv aid r" "lookup r (full_key aid) \<noteq> None"
    "likers r aid = Some us" "itoa uid \<notin> set us" "in_int64 (int (length us) + 1)"
  shows "fst (add_likes_cache (\<lambda>_. True) aid uid 1 r) = Inr ()
    \<and> add_likes_cache (\<lambda>_. True) aid uid 1 (snd (add_likes_cache (\<lambda>_. True) aid uid 1 r))
        = (Inl ErrAlreadyLiked, snd (add_likes_cache (\<lambda>_. True) aid uid 1 r))
    \<and> hash_like (snd (add_likes_cache (\<lambda>_. True) aid uid 1 r)) (basic_map_key aid) = Some (int (length us) + 1)
    \<and> hash_like (snd (add_likes_cache (\<lambda>_. True) aid uid 1 r)) (full_key aid) = Some (int (length us) + 1)
    \<and> likers (snd (add_likes_cache (\<lambda>_. True) aid uid 1 r)) aid = Some (itoa uid # us)"
proof -
  obtain hb hf where
    "lookup r (basic_map_key aid) = Some (RHash hb)" "map_of hb ''like'' = Some (itoa (int (length us)))"
    "lookup r (full_key aid) = Some (RHash hf)" "map_of hf ''like'' = Some (itoa (int (length us)))"
    "set_of r (like_key aid) = Inr us" "distinct us"
    and add: "add_likes_cache (\<lambda>_. True) aid uid 1 r =
       (Inr (), store (like_key aid) (RSet (itoa uid # us)) (bumped aid 1 hb (int (length us)) hf (int (length us)) r))"
    using assms by (rule add_likes_ok)
  with assms(5) show ?thesis
    by (simp add: add_likes_cache_def sismember_srv_def set_of_def hash_like_def likers_def key_simps)
qed

theorem like_twice_witness:
  "like_inv 1 demo_cache \<and> likers demo_cache 1 = Some []
   \<and> add_likes_cache (\<lambda>_. True) 1 5 1 (snd (add_likes_cache (\<lambda>_. True) 1 5 1 demo_cache))
       = (Inl ErrAlreadyLiked, snd (add_likes_cache (\<lambda>_. True) 1 5 1 demo_cache))"
proof -
  have h1: "like_inv 1 demo_cache" by code_simp
  have h2: "lookup demo_cache (full_key 1) \<noteq> None" by code_simp
  have h3: "likers demo_cache 1 = Some []" by code_simp
  have h4: "itoa 5 \<notin> set []" by simp
  have h5: "in_int64 (int (length ([] :: string list)) + 1)" by code_simp
  show ?thesis using like_twice [OF h1 h2 h3 h4 h5] h1 h3 by simp
qed

text \<open>C8 (invariant).  While an article's full projection is cached, liking and
  unliking keep its counters consistent (basic count = size of the like set =
  full count, no duplicate liker) whichever of the membership test, the two
  increments and the full-projection increment fail, provided the compensating
  decrement and the set update reach Redis.\<close>

theorem like_counts_invariant:
  assumes "like_inv aid r" "lookup r (full_key aid) \<noteq> None" "net 3" "net 4"
  shows "like_inv aid (snd (add_likes_cache net aid uid 1 r))
       \<and> like_inv aid (snd (remove_likes_cache net aid uid (-1) r))"
  using add_likes_keeps_inv [OF assms] remove_likes_keeps_inv [OF assms] by simp

theorem like_counts_invariant_witness:
  "like_inv 1 demo_cache \<and> like_inv 1 (snd (add_likes_cache (\<lambda>k. k \<noteq> 2) 1 5 1 demo_cache))
   \<and> like_inv 1 (snd (remove_likes_cache (\<lambda>k. k \<noteq> 2) 1 5 (-1) demo_cache))"
proof -
  have h1: "like_inv 1 demo_cache" by code_simp
  have h2: "lookup demo_cache (full_key 1) \<noteq> None" by code_simp
  have h3: "(\<lambda>k::nat. k \<noteq> 2) 3" by simp
  have h4: "(\<lambda>k::nat. k \<noteq> 2) 4" by simp
  show ?thesis using like_counts_invariant [OF h1 h2 h3 h4] h1 by simp
qed

text \<open>C9 (error).  Compensation: when the membership test and the basic increment
  succeed but the full-projection increment fails, \<open>AddLikes\<close> decrements the
  basic projection again and reports the failure, leaving the store exactly as
  it was; when the compensation fails too, both failures are reported and only
  the basic projection has moved.\<close>

theorem add_likes_compensates:
  assumes "lookup r (basic_map_key aid) = Some (RHash hb)" "map_of hb ''like'' = Some (itoa n)"
    "in_int64 n" "in_int64 (n + i)"
    and "set_of r (like_key aid) = Inr us" "itoa uid \<notin> set us"
    and "net 0" "net 1" "\<not> net 2"
  shows "add_likes_cache net aid uid i r =
           (if net 3 then (Inl (ErrRedis ErrConn), r)
            else (Inl (ErrRollback ErrConn ErrConn),
                  store (basic_map_key aid) (RHash (AList.update ''like'' (itoa (n + i)) hb)) r))"
proof -
  let ?rB = "store (basic_map_key aid) (RHash (AList.update ''like'' (itoa (n + i)) hb)) r"
  have inc: "hincrby_srv (basic_map_key aid) ''like'' i r = (Inr (n + i), ?rB)"
    using assms(1-4) by (simp add: hincrby_srv_canonical)
  have undo: "hincrby_srv (basic_map_key aid) ''like'' (- i) ?rB = (Inr n, r)"
    using assms(1-4) by (rule hincrby_undo)
  show ?thesis
    using assms(5-9) inc undo
    by (simp add: add_likes_cache_def bump_likes_def sismember_srv_def call_def)
qed

theorem add_likes_compensates_witness:
  "lookup demo_cache (basic_map_key 1) = Some (RHash [(''id'', ''1''), (''title'', ''Free clinic''), (''content'', ''Satur''), (''kind'', ''medical''), (''like'', ''0''), (''manager_id'', ''9'')])
   \<and> add_likes_cache (\<lambda>k. k \<noteq> 2) 1 5 1 demo_cache = (Inl (ErrRedis ErrConn), demo_cache)"
proof -
  have h1: "lookup demo_cache (basic_map_key 1) = Some (RHash [(''id'', ''1''), (''title'', ''Free clinic''), (''content'', ''Satur''), (''kind'', ''medical''), (''like'', ''0''), (''manager_id'', ''9'')])"
    by code_simp
  have h2: "map_of [(''id'', ''1''), (''title'', ''Free clinic''), (''content'', ''Satur''), (''kind'', ''medical''), (''like'', ''0''), (''manager_id'', ''9'')] ''like'' = Some (itoa 0)" by code_simp
  have h3: "in_int64 0" "in_int64 (0 + 1)" by (simp_all add: in_int64_def)
  have h4: "set_of demo_cache (like_key 1) = Inr []" by code_simp
  have h5: "itoa 5 \<notin> set []" by simp
  have h6: "(\<lambda>k::nat. k \<noteq> 2) 0" "(\<lambda>k::nat. k \<noteq> 2) 1" "\<not> (\<lambda>k::nat. k \<noteq> 2) 2" by simp_all
  show ?thesis using add_likes_compensates [OF h1 h2 h3 h4 h5 h6] h1 by simp
qed

text \<open>C10 (safety).  Membership is recorded by a separate command after both
  increments: when only that command is lost, \<open>AddLikes\<close> reports an error with
  both counters already incremented and the user not recorded, so the user's
  retry is accepted and one user's like is counted twice.\<close>

theorem lost_membership_double_count:
  assumes "like_inv aid r" "lookup r (full_key aid) \<noteq> None"
    "likers r aid = Some us" "itoa uid \<notin> set us" "in_int64 (int (length us) + 2)"
  shows "fst (add_likes_cache (\<lambda>k. k \<noteq> 4) aid uid 1 r) = Inl (ErrRedis ErrConn)
    \<and> fst (add_likes_cache (\<lambda>_. True) aid uid 1 (snd (add_likes_cache (\<lambda>k. k \<noteq> 4) aid uid 1 r))) = Inr ()
    \<and> hash_like (snd (add_likes_cache (\<lambda>_. True) aid uid 1 (snd (add_likes_cache (\<lambda>k. k \<noteq> 4) aid uid 1 r))))
        (basic_map_key aid) = Some (int (length us) + 2)
    \<and> likers (snd (add_likes_cache (\<lambda>_. True) aid uid 1 (snd (add_likes_cache (\<lambda>k. k \<noteq> 4) aid uid 1 r)))) aid
        = Some (itoa uid # us)"
proof -
  let ?n = "int (length us)"
  obtain hb hf n us' where v:
    "lookup r (basic_map_key aid) = Some (RHash hb)" "map_of hb ''like'' = Some (itoa n)"
    "lookup r (full_key aid) = Some (RHash hf)" "map_of hf ''like'' = Some (itoa n)"
    "in_int64 n" "set_of r (like_key aid) = Inr us'" "n = int (length us')" "distinct us'"
    using assms(1,2) by (rule like_inv_full)
  from v(6) assms(3) have "us' = us" by (simp add: likers_def)
  with v have n: "n = ?n" and su: "set_of r (like_key aid) = Inr us" by simp_all
  have r1: "add_likes_cache (\<lambda>k. k \<noteq> 4) aid uid 1 r = (Inl (ErrRedis ErrConn), bumped aid 1 hb ?n hf ?n r)"
    using bump_likes_state [where net = "\<lambda>k. k \<noteq> 4" and uid = uid and i = 1 and opt = "''addLike''",
                            OF v(1,2,5) v(3,4,5)] su assms(4,5) n
    by (simp add: add_likes_cache_def sismember_srv_def use_like_sort_def in_int64_def)
  let ?hb1 = "AList.update ''like'' (itoa (?n + 1)) hb" and ?hf1 = "AList.update ''like'' (itoa (?n + 1)) hf"
  have v1: "lookup (bumped aid 1 hb ?n hf ?n r) (basic_map_key aid) = Some (RHash ?hb1)" "map_of ?hb1 ''like'' = Some (itoa (?n + 1))"
    "lookup (bumped aid 1 hb ?n hf ?n r) (full_key aid) = Some (RHash ?hf1)" "map_of ?hf1 ''like'' = Some (itoa (?n + 1))"
    "set_of (bumped aid 1 hb ?n hf ?n r) (like_key aid) = Inr us"
    using su by (simp_all add: set_of_def)
  have rng: "in_int64 (?n + 1)" "in_int64 (?n + 1 + 1)" using assms(5) by (simp_all add: in_int64_def)
  have "add_likes_cache (\<lambda>_. True) aid uid 1 (bumped aid 1 hb ?n hf ?n r) =
    (Inr (), store (like_key aid) (RSet (itoa uid # us)) (bumped aid 1 ?hb1 (?n + 1) ?hf1 (?n + 1) (bumped aid 1 hb ?n hf ?n r)))"
    using bump_likes_state [where net = "\<lambda>_. True" and uid = uid and i = 1 and opt = "''addLike''",
                            OF v1(1,2) rng(1) v1(3,4) rng(1)] v1(5) assms(4) rng
    by (simp add: add_likes_cache_def sismember_srv_def use_like_sort_def sadd_srv_def set_of_def)
  with r1 rng show ?thesis
    by (simp add: hash_like_def likers_def set_of_def key_simps)
qed

theorem lost_membership_double_count_witness:
  "like_inv 1 demo_cache \<and> likers demo_cache 1 = Some []
   \<and> hash_like (snd (add_likes_cache (\<lambda>_. True) 1 5 1 (snd (add_likes_cache (\<lambda>k. k \<noteq> 4) 1 5 1 demo_cache))))
        (basic_map_key 1) = Some 2"
proof -
  have h1: "like_inv 1 demo_cache" by code_simp
  have h2: "lookup demo_cache (full_key 1) \<noteq> None" by code_simp
  have h3: "likers demo_cache 1 = Some []" by code_simp
  have h4: "itoa 5 \<notin> set []" by simp
  have h5: "in_int64 (int (length ([] :: string list)) + 2)" by code_simp
  show ?thesis using lost_membership_double_count [OF h1 h2 h3 h4 h5] h1 h3 by simp
qed

text \<open>C11 (safety).  When the full projection's two-hour TTL has expired, a like
  re-creates the full hash with the single field \<open>like = 1\<close> and no TTL: the two
  projections disagree, the corrupt hash never expires, and \<open>GetArticleByID\<close>
  fails on it (its \<open>manager_id\<close> does not parse).\<close>

theorem like_after_full_expiry:
  assumes "like_inv aid r" "full_key aid \<in> volatile r"
    "likers r aid = Some us" "itoa uid \<notin> set us" "in_int64 (int (length us) + 1)"
  shows "fst (add_likes_cache (\<lambda>_. True) aid uid 1 (expire_key (full_key aid) r)) = Inr ()
    \<and> hash_like (snd (add_likes_cache (\<lambda>_. True) aid uid 1 (expire_key (full_key aid) r))) (full_key aid) = Some 1
    \<and> full_key aid \<notin> volatile (snd (add_likes_cache (\<lambda>_. True) aid uid 1 (expire_key (full_key aid) r)))
    \<and> get_article_cache True aid (snd (add_likes_cache (\<lambda>_. True) aid uid 1 (expire_key (full_key aid) r))) = Inl ErrParse"
proof -
  let ?r0 = "remove_key (full_key aid) r"
  have r0: "expire_key (full_key aid) r = ?r0" using assms(2) by (simp add: expire_key_def)
  obtain hb n us' where v:
    "lookup r (basic_map_key aid) = Some (RHash hb)" "map_of hb ''like'' = Some (itoa n)" "in_int64 n"
    "set_of r (like_key aid) = Inr us'" "n = int (length us')"
    using assms(1) by (auto simp: like_inv_def hash_like_def likers_def split: option.splits rval.splits sum.splits dest!: redis_int_Some)
  from v(4) assms(3) have "us' = us" by (simp add: likers_def)
  with v have n: "n = int (length us)" and su: "set_of ?r0 (like_key aid) = Inr us"
    by (simp_all add: set_of_def key_simps)
  have b0: "lookup ?r0 (basic_map_key aid) = Some (RHash hb)" using v(1) by (simp add: key_simps)
  have f0: "lookup ?r0 (full_key aid) = None" by simp
  let ?rB = "store (basic_map_key aid) (RHash (AList.update ''like'' (itoa (n + 1)) hb)) ?r0"
  have incB: "hincrby_srv (basic_map_key aid) ''like'' 1 ?r0 = (Inr (n + 1), ?rB)"
    using b0 v(2,3) assms(5) n by (simp add: hincrby_srv_canonical)
  have incF: "hincrby_srv (full_key aid) ''like'' 1 ?rB = (Inr 1, store (full_key aid) (RHash [(''like'', itoa 1)]) ?rB)"
    by (rule hincrby_srv_absent) (simp_all add: key_simps in_int64_def)
  have "add_likes_cache (\<lambda>_. True) aid uid 1 ?r0 =
         (Inr (), store (like_key aid) (RSet (itoa uid # us)) (store (full_key aid) (RHash [(''like'', itoa 1)]) ?rB))"
    using su assms(4) incB incF
    by (simp add: add_likes_cache_def bump_likes_def sismember_srv_def use_like_sort_def sadd_srv_def set_of_def key_simps)
  with r0 show ?thesis
    by (simp add: hash_like_def in_int64_def get_article_cache_def hgetall_srv_def hash_of_def
        key_simps atoi_itoa parse_rfc3339_def)
qed

theorem like_after_full_expiry_witness:
  "like_inv 1 demo_cache \<and> full_key 1 \<in> volatile demo_cache
   \<and> get_article_cache True 1 (snd (add_likes_cache (\<lambda>_. True) 1 5 1 (expire_key (full_key 1) demo_cache))) = Inl ErrParse"
proof -
  have h1: "like_inv 1 demo_cache" by code_simp
  have h2: "full_key 1 \<in> volatile demo_cache" by code_simp
  have h3: "likers demo_cache 1 = Some []" by code_simp
  have h4: "itoa 5 \<notin> set []" by simp
  have h5: "in_int64 (int (length ([] :: string list)) + 1)" by code_simp
  show ?thesis using like_after_full_expiry [OF h1 h2 h3 h4 h5] h1 h2 by simp
qed

end
