(* ===== verification/Durable_Store.thy ===== *)
theory Durable_Store
  imports Models
begin

text \<open>
  The Durable Store Adapter: the MySQL tables the core reads and writes through
  gorm (\<open>internal/article/article_repository/article_repository.go\<close>,
  \<open>internal/user/user_repository/user_repository.go\<close>).  A table keyed by
  primary key is an association list; \<open>user_item\<close> and \<open>user_follow\<close> rows are
  lists, and the \<open>likes\<close> column of the \<open>user\<close> table is an association list
  from user id to count (the statements of \<open>UserRepository\<close> the follow graph
  and the like ranking use).  Every
  statement can fail with a connection error (its \<open>ok\<close> flag); a transaction
  of the services is all-or-nothing: on rollback the state before \<open>Begin\<close> is
  kept.  \<open>UPDATE\<close> reports the number of rows it changed, as go-sql-driver/mysql
  does without \<open>clientFoundRows\<close> (the DSN of \<open>configs/config.go\<close> does not set it).
\<close>

record mysql =
  article_rows :: "(go_int \<times> article) list"
  article_next :: go_int
  item_rows :: "(go_int \<times> community_item) list"
  user_item_rows :: "user_item list"
  user_item_next :: go_int
  user_rows :: "(go_int \<times> user) list"
  user_next :: go_int
  follow_rows :: "user_follow list"
  item_next :: go_int
  score_rows :: "score_record list"
  score_next :: go_int
  phone_rows :: "phone_record list"
  phone_next :: go_int

datatype dberr = DbConn | DbDuplicate | DbNotFound | DbNoRowsAffected

type_synonym 'a dres = "(dberr + 'a) \<times> mysql"

text \<open>A rolled-back transaction leaves the tables as they were at \<open>Begin\<close>; InnoDB's
  auto-increment counters are not transactional and keep their advance.\<close>

definition tx_rollback :: "mysql \<Rightarrow> mysql \<Rightarrow> mysql" where
  "tx_rollback db0 db1 =
     db0\<lparr>article_next := article_next db1, user_item_next := user_item_next db1, user_next := user_next db1\<rparr>"

text \<open>The empty database, every auto-increment counter at 1.\<close>

definition empty_db :: mysql where
  "empty_db = \<lparr>article_rows = [], article_next = 1, item_rows = [], user_item_rows = [], user_item_next = 1,
               user_rows = [], user_next = 1, follow_rows = [], item_next = 1, score_rows = [], score_next = 1,
               phone_rows = [], phone_next = 1\<rparr>"

text \<open>The \<open>likes\<close> column of a user.\<close>

definition user_likes_of :: "mysql \<Rightarrow> go_int \<Rightarrow> go_int option" where
  "user_likes_of db uid = map_option us_likes (map_of (user_rows db) uid)"

subsection \<open>Articles\<close>

text \<open>\<open>ArticleRepository.AddArticle\<close>: \<open>tx.Create\<close>; a zero id is assigned by
  auto-increment, an existing id is a duplicate key.\<close>

definition db_add_article :: "bool \<Rightarrow> article \<Rightarrow> mysql \<Rightarrow> article dres" where
  "db_add_article ok a db =
     (if \<not> ok then (Inl DbConn, db)
      else let a' = (if art_id a = 0 then a\<lparr>art_id := article_next db\<rparr> else a) in
        if map_of (article_rows db) (art_id a') \<noteq> None then (Inl DbDuplicate, db)
        else (Inr a', db\<lparr>article_rows := AList.update (art_id a') a' (article_rows db),
                        article_next := max (article_next db) (art_id a' + 1)\<rparr>))"

text \<open>\<open>ArticleRepository.GetArticleByID\<close>: \<open>First\<close>; a missing row is \<open>nil\<close>, not an
  error.\<close>

definition db_get_article :: "bool \<Rightarrow> go_int \<Rightarrow> mysql \<Rightarrow> dberr + article_no_like option" where
  "db_get_article ok aid db =
     (if \<not> ok then Inl DbConn
      else case map_of (article_rows db) aid of
             None \<Rightarrow> Inr None
           | Some a \<Rightarrow> Inr (Some \<lparr>anl_id = art_id a, anl_title = art_title a, anl_content = art_content a,
                                anl_manager = art_manager a, anl_create = art_create a, anl_kind = art_kind a\<rparr>))"

text \<open>\<open>ArticleRepository.WriteLikesToMySQL\<close>: \<open>UPDATE article SET like = ? WHERE id = ?\<close>;
  no row is no error.\<close>

definition db_write_likes :: "bool \<Rightarrow> go_int \<times> go_int \<Rightarrow> mysql \<Rightarrow> unit dres" where
  "db_write_likes ok p db =
     (if \<not> ok then (Inl DbConn, db)
      else let (aid, lk) = p in
        (Inr (), case map_of (article_rows db) aid of
                   None \<Rightarrow> db
                 | Some a \<Rightarrow> db\<lparr>article_rows := AList.update aid (a\<lparr>art_like := lk\<rparr>) (article_rows db)\<rparr>))"

text \<open>\<open>ArticleRepository.UpdateArticle\<close>: \<open>Updates\<close> of title, content and like (no
  transaction); zero changed rows is the error "no article to update"; then the
  row is read back with \<open>First\<close>.\<close>

definition db_update_article :: "bool \<Rightarrow> bool \<Rightarrow> article \<Rightarrow> mysql \<Rightarrow> article dres" where
  "db_update_article ok1 ok2 a db =
     (if \<not> ok1 then (Inl DbConn, db)
      else case map_of (article_rows db) (art_id a) of
             None \<Rightarrow> (Inl DbNoRowsAffected, db)
           | Some row \<Rightarrow>
               (let row' = row\<lparr>art_title := art_title a, art_content := art_content a, art_like := art_like a\<rparr>
                in if row' = row then (Inl DbNoRowsAffected, db)
                   else (let db' = db\<lparr>article_rows := AList.update (art_id a) row' (article_rows db)\<rparr>
                         in if \<not> ok2 then (Inl DbConn, db') else (Inr row', db'))))"

subsection \<open>Items and reservations\<close>

text \<open>\<open>UserRepository.ChooseItem\<close>: \<open>tx.Create(userItem)\<close>, an auto-increment row.\<close>

definition db_insert_user_item :: "bool \<Rightarrow> user_item \<Rightarrow> mysql \<Rightarrow> unit dres" where
  "db_insert_user_item ok ui db =
     (if \<not> ok then (Inl DbConn, db)
      else (Inr (), db\<lparr>user_item_rows := user_item_rows db @ [ui\<lparr>ui_id := user_item_next db\<rparr>],
                      user_item_next := user_item_next db + 1\<rparr>))"

text \<open>\<open>UserRepository.UpdateItemInfo\<close>: \<open>UPDATE community_item SET remain = remain-1
  WHERE id = ?\<close>, with no check of the stock.\<close>

definition db_update_item_info :: "bool \<Rightarrow> go_int \<Rightarrow> mysql \<Rightarrow> unit dres" where
  "db_update_item_info ok iid db =
     (if \<not> ok then (Inl DbConn, db)
      else (Inr (), case map_of (item_rows db) iid of
                      None \<Rightarrow> db
                    | Some it \<Rightarrow> db\<lparr>item_rows := AList.update iid (it\<lparr>item_remain := item_remain it - 1\<rparr>) (item_rows db)\<rparr>))"

subsection \<open>Users and follows\<close>

text \<open>\<open>UserRepository.AddFollows\<close>: \<open>tx.Create(&follow)\<close>.\<close>

definition db_add_follow :: "bool \<Rightarrow> user_follow \<Rightarrow> mysql \<Rightarrow> unit dres" where
  "db_add_follow ok f db =
     (if \<not> ok then (Inl DbConn, db) else (Inr (), db\<lparr>follow_rows := follow_rows db @ [f]\<rparr>))"

text \<open>\<open>UserRepository.RemoveFollows\<close>: \<open>DELETE FROM user_follow WHERE user_id = ? AND
  follow_id = ?\<close>.\<close>

definition db_remove_follows :: "bool \<Rightarrow> go_int \<Rightarrow> go_int \<Rightarrow> mysql \<Rightarrow> unit dres" where
  "db_remove_follows ok u f db =
     (if \<not> ok then (Inl DbConn, db)
      else (Inr (), db\<lparr>follow_rows := filter (\<lambda>r. \<not> (uf_user r = u \<and> uf_follow r = f)) (follow_rows db)\<rparr>))"

text \<open>\<open>UserRepository.AddLikes\<close>: \<open>UPDATE user SET likes = likes + 1 WHERE id = ?\<close>; no
  row is no error.\<close>

definition db_add_user_likes :: "bool \<Rightarrow> go_int \<Rightarrow> mysql \<Rightarrow> unit dres" where
  "db_add_user_likes ok uid db =
     (if \<not> ok then (Inl DbConn, db)
      else (Inr (), case map_of (user_rows db) uid of
                      None \<Rightarrow> db
                    | Some u \<Rightarrow> db\<lparr>user_rows := AList.update uid (u\<lparr>us_likes := us_likes u + 1\<rparr>) (user_rows db)\<rparr>))"

subsection \<open>Well-formed article table\<close>

text \<open>Rows are stored under their own id, and the \<open>BIGINT\<close> columns read back
  into Go's \<open>int\<close>.\<close>

definition article_rows_ok :: "mysql \<Rightarrow> bool" where
  "article_rows_ok db =
     list_all (\<lambda>(k, a). art_id a = k \<and> in_int64 (art_manager a) \<and> in_int64 (art_like a)) (article_rows db)"

subsection \<open>Basic facts\<close>

lemma db_write_likes_rows:
  "snd (db_write_likes True (aid, lk) db) =
     (case map_of (article_rows db) aid of None \<Rightarrow> db
      | Some a \<Rightarrow> db\<lparr>article_rows := AList.update aid (a\<lparr>art_like := lk\<rparr>) (article_rows db)\<rparr>)"
  by (simp add: db_write_likes_def)

lemma db_write_likes_like:
  "map_of (article_rows (snd (db_write_likes ok (aid, lk) db))) aid' =
     (if ok \<and> aid' = aid then map_option (\<lambda>a. a\<lparr>art_like := lk\<rparr>) (map_of (article_rows db) aid)
      else map_of (article_rows db) aid')"
  by (auto simp: db_write_likes_def update_conv' split: option.splits)

lemma article_rows_okD:
  "article_rows_ok db \<Longrightarrow> map_of (article_rows db) k = Some a \<Longrightarrow>
     art_id a = k \<and> in_int64 (art_manager a) \<and> in_int64 (art_like a)"
  by (auto simp: article_rows_ok_def list_all_iff dest!: map_of_SomeD)

lemma db_update_article_ok:
  assumes "db_update_article ok1 ok2 a db = (Inr na, db')"
  obtains row where "map_of (article_rows db) (art_id a) = Some row"
    "na = row\<lparr>art_title := art_title a, art_content := art_content a, art_like := art_like a\<rparr>"
    "db' = db\<lparr>article_rows := AList.update (art_id a) na (article_rows db)\<rparr>"
  using assms by (auto simp: db_update_article_def Let_def split: if_splits option.splits)

lemma tx_rollback_same [simp]: "tx_rollback db db = db"
  by (simp add: tx_rollback_def)

lemma tx_rollback_rows [simp]:
  "article_rows (tx_rollback db0 db1) = article_rows db0"
  "follow_rows (tx_rollback db0 db1) = follow_rows db0"
  "user_rows (tx_rollback db0 db1) = user_rows db0"
  "user_item_rows (tx_rollback db0 db1) = user_item_rows db0"
  by (simp_all add: tx_rollback_def)

end
