(* ===== verification/Article_Service.thy ===== *)
theory Article_Service
  imports Like_Cache Durable_Store
begin

text \<open>
  The article service (\<open>internal/article/article_service/article_service.go\<close>):
  the two-tier handlers that combine the Counter Cache Engine's repository
  (\<open>Like_Cache\<close>) with the MySQL statements (\<open>Durable_Store\<close>).  The system state
  is the pair of stores plus the background goroutines a handler spawned and that
  have not run yet (\<open>sys_bg\<close>); a pending goroutine runs at any later moment
  (\<open>run_bg\<close>).  The handlers: \<open>AddArticle\<close> (a MySQL transaction around the insert
  and the basic cache write, the full cache filled in the background),
  \<open>GetArticle\<close> (cache first, then MySQL plus the basic hash's count, the full hash
  refilled in the background), \<open>UpdateArticle\<close> (the double delete around the MySQL
  update, the basic hash refilled in the background), and the reconciliation
  tick of \<open>PeriodicUpdateLikes\<close> with \<open>updateLikesInTransaction\<close>.
\<close>

datatype bg_task = BgAddArticle article | BgAddBasicWithoutList article

record sys =
  sys_db :: mysql
  sys_cache :: redis
  sys_bg :: "bg_task list"

datatype svc_err = SvcCache art_err | SvcDb dberr | SvcNotFound | SvcNilDeref

type_synonym 'a sres = "(svc_err + 'a) \<times> sys"

subsection \<open>\<open>AddArticle\<close>\<close>

text \<open>Requests in program order: \<open>Begin\<close> (0), the insert (1), the basic hash and the
  kind list (2, 3), \<open>Commit\<close> (4).  The goroutine that writes the full hash is
  spawned before the commit.\<close>

definition svc_add_article :: "(nat \<Rightarrow> bool) \<Rightarrow> article \<Rightarrow> go_int \<Rightarrow> go_time \<Rightarrow> sys \<Rightarrow> unit sres" where
  "svc_add_article net a mid now s =
     (let a0 = a\<lparr>art_manager := mid, art_create := now, art_like := 0\<rparr>; db0 = sys_db s in
      if \<not> net 0 then (Inl (SvcDb DbConn), s)
      else case db_add_article (net 1) a0 db0 of
        (Inl e, db1) \<Rightarrow> (Inl (SvcDb e), s\<lparr>sys_db := tx_rollback db0 db1\<rparr>)
      | (Inr a1, db1) \<Rightarrow>
          (let ba = \<lparr>ba_id = art_id a1, ba_title = art_title a1, ba_content = substring (art_content a1) 5,
                     ba_kind = art_kind a1, ba_like = 0, ba_manager = mid\<rparr> in
           case add_basic_article (\<lambda>k. net (k + 2)) ba (sys_cache s) of
             (Inl e, r) \<Rightarrow> (Inl (SvcCache e), s\<lparr>sys_db := tx_rollback db0 db1, sys_cache := r\<rparr>)
           | (Inr _, r) \<Rightarrow>
               (let s1 = s\<lparr>sys_cache := r, sys_bg := sys_bg s @ [BgAddArticle a1]\<rparr> in
                if \<not> net 4 then (Inl (SvcDb DbConn), s1\<lparr>sys_db := tx_rollback db0 db1\<rparr>)
                else (Inr (), s1\<lparr>sys_db := db1\<rparr>))))"

subsection \<open>\<open>GetArticle\<close>\<close>

text \<open>Requests: the full hash (0), the MySQL row (1), the basic hash (2).\<close>

definition svc_get_article :: "(nat \<Rightarrow> bool) \<Rightarrow> go_int \<Rightarrow> sys \<Rightarrow> article sres" where
  "svc_get_article net aid s =
     (case get_article_cache (net 0) aid (sys_cache s) of
        Inl e \<Rightarrow> (Inl (SvcCache e), s)
      | Inr (Some a) \<Rightarrow> (Inr a, s)
      | Inr None \<Rightarrow>
          (case db_get_article (net 1) aid (sys_db s) of
             Inl e \<Rightarrow> (Inl (SvcDb e), s)
           | Inr None \<Rightarrow> (Inl SvcNotFound, s)
           | Inr (Some n) \<Rightarrow>
               (case get_basic_article (net 2) aid (sys_cache s) of
                  Inl e \<Rightarrow> (Inl (SvcCache e), s)
                | Inr b \<Rightarrow>
                    (let a = \<lparr>art_id = anl_id n, art_title = anl_title n, art_content = anl_content n,
                              art_manager = anl_manager n, art_create = anl_create n,
                              art_kind = anl_kind n, art_like = ba_like b\<rparr>
                     in (Inr a, s\<lparr>sys_bg := sys_bg s @ [BgAddArticle a]\<rparr>)))))"

subsection \<open>\<open>UpdateArticle\<close>\<close>

text \<open>Requests: the full hash (0), the first double delete (1, 2), the MySQL update
  and read-back (3, 4), the second delete (5, 6).  A cache miss leaves \<open>like\<close> a
  nil pointer: \<open>like.Like\<close> panics and gin's recovery middleware answers the
  request with an error, the stores untouched.\<close>

definition svc_update_article :: "(nat \<Rightarrow> bool) \<Rightarrow> article \<Rightarrow> sys \<Rightarrow> unit sres" where
  "svc_update_article net a s =
     (case get_article_cache (net 0) (art_id a) (sys_cache s) of
        Inl e \<Rightarrow> (Inl (SvcCache e), s)
      | Inr None \<Rightarrow> (Inl SvcNilDeref, s)
      | Inr (Some c) \<Rightarrow>
          (let a1 = a\<lparr>art_like := art_like c\<rparr> in
           case delete_article_for_update (\<lambda>k. net (k + 1)) (art_id a) (sys_cache s) of
             (Inl e, r) \<Rightarrow> (Inl (SvcCache e), s\<lparr>sys_cache := r\<rparr>)
           | (Inr _, r) \<Rightarrow>
               (case db_update_article (net 3) (net 4) a1 (sys_db s) of
                  (Inl e, db) \<Rightarrow> (Inl (SvcDb e), s\<lparr>sys_db := db, sys_cache := r\<rparr>)
                | (Inr na, db) \<Rightarrow>
                    (case delete_article_for_update (\<lambda>k. net (k + 5)) (art_id a) r of
                       (Inl e, r') \<Rightarrow> (Inl (SvcCache e), s\<lparr>sys_db := db, sys_cache := r'\<rparr>)
                     | (Inr _, r') \<Rightarrow>
                         (Inr (), \<lparr>sys_db = db, sys_cache = r',
                                  sys_bg = sys_bg s @ [BgAddBasicWithoutList na]\<rparr>)))))"

subsection \<open>Likes\<close>

definition svc_add_likes :: "(nat \<Rightarrow> bool) \<Rightarrow> go_int \<Rightarrow> go_int \<Rightarrow> sys \<Rightarrow> unit sres" where
  "svc_add_likes net aid uid s =
     (case add_likes_cache net aid uid 1 (sys_cache s) of
        (Inl e, r) \<Rightarrow> (Inl (SvcCache e), s\<lparr>sys_cache := r\<rparr>)
      | (Inr u, r) \<Rightarrow> (Inr u, s\<lparr>sys_cache := r\<rparr>))"

definition svc_remove_likes :: "(nat \<Rightarrow> bool) \<Rightarrow> go_int \<Rightarrow> go_int \<Rightarrow> sys \<Rightarrow> unit sres" where
  "svc_remove_likes net aid uid s =
     (case remove_likes_cache net aid uid (-1) (sys_cache s) of
        (Inl e, r) \<Rightarrow> (Inl (SvcCache e), s\<lparr>sys_cache := r\<rparr>)
      | (Inr u, r) \<Rightarrow> (Inr u, s\<lparr>sys_cache := r\<rparr>))"

subsection \<open>Reconciliation\<close>

text \<open>The statements of the batch, numbered from 1 (0 is \<open>Begin\<close>).\<close>

fun write_likes_all :: "(nat \<Rightarrow> bool) \<Rightarrow> nat \<Rightarrow> (go_int \<times> go_int) list \<Rightarrow> mysql \<Rightarrow> (dberr + unit) \<times> mysql" where
  "write_likes_all net j [] db = (Inr (), db)"
| "write_likes_all net j (p # ps) db =
     (case db_write_likes (net j) p db of
        (Inl e, db') \<Rightarrow> (Inl e, db')
      | (Inr _, db') \<Rightarrow> write_likes_all net (Suc j) ps db')"

text \<open>\<open>updateLikesInTransaction\<close>: \<open>Begin\<close>, one \<open>UPDATE\<close> per pair, \<open>Commit\<close>
  (request \<open>length res + 1\<close>); any failure rolls the batch back.\<close>

definition update_likes_in_transaction :: "(nat \<Rightarrow> bool) \<Rightarrow> (go_int \<times> go_int) list \<Rightarrow> mysql \<Rightarrow> (dberr + unit) \<times> mysql" where
  "update_likes_in_transaction net res db =
     (if \<not> net 0 then (Inl DbConn, db)
      else case write_likes_all net 1 res db of
        (Inl e, db') \<Rightarrow> (Inl e, tx_rollback db db')
      | (Inr _, db') \<Rightarrow>
          if \<not> net (Suc (length res)) then (Inl DbConn, tx_rollback db db') else (Inr (), db'))"

text \<open>One tick of \<open>PeriodicUpdateLikes\<close>: scan the basic hashes (cache requests
  \<open>cnet\<close>), skip on error or an empty result, else write the batch (database
  requests \<open>dnet\<close>).  Errors are only logged.\<close>

definition periodic_tick :: "(nat \<Rightarrow> bool) \<Rightarrow> (nat \<Rightarrow> bool) \<Rightarrow> sys \<Rightarrow> sys" where
  "periodic_tick cnet dnet s =
     (case get_all_articles_from_hash cnet (sys_cache s) of
        Inl _ \<Rightarrow> s
      | Inr [] \<Rightarrow> s
      | Inr res \<Rightarrow> s\<lparr>sys_db := snd (update_likes_in_transaction dnet res (sys_db s))\<rparr>)"

text \<open>The loop never ends; its first ticks, each with its requests' outcomes.\<close>

fun periodic_update_likes :: "((nat \<Rightarrow> bool) \<times> (nat \<Rightarrow> bool)) list \<Rightarrow> sys \<Rightarrow> sys" where
  "periodic_update_likes [] s = s"
| "periodic_update_likes ((cnet, dnet) # ts) s = periodic_update_likes ts (periodic_tick cnet dnet s)"

text \<open>The batch as a plain fold, every statement succeeding.\<close>

definition write_likes_ref :: "(go_int \<times> go_int) list \<Rightarrow> mysql \<Rightarrow> mysql" where
  "write_likes_ref res db = fold (\<lambda>p db. snd (db_write_likes True p db)) res db"

subsection \<open>Background goroutines\<close>

definition run_bg_task :: "(nat \<Rightarrow> bool) \<Rightarrow> bg_task \<Rightarrow> redis \<Rightarrow> redis" where
  "run_bg_task net t r =
     (case t of
        BgAddArticle a \<Rightarrow> snd (add_article_cache net a r)
      | BgAddBasicWithoutList a \<Rightarrow> snd (add_basic_article_without_list (net 0) a r))"

definition run_bg :: "(nat \<Rightarrow> bool) \<Rightarrow> nat \<Rightarrow> sys \<Rightarrow> sys" where
  "run_bg net i s =
     (if i < length (sys_bg s)
      then s\<lparr>sys_cache := run_bg_task net (sys_bg s ! i) (sys_cache s),
             sys_bg := take i (sys_bg s) @ drop (Suc i) (sys_bg s)\<rparr>
      else s)"

subsection \<open>A fixture\<close>

text \<open>The article of \<open>Like_Cache\<close> stored in MySQL and cached, and an edit of its
  title.\<close>

definition demo_db :: mysql where
  "demo_db = empty_db\<lparr>article_rows := [(1, demo_article)], article_next := 2\<rparr>"

definition demo_sys :: sys where
  "demo_sys = \<lparr>sys_db = demo_db, sys_cache = demo_cache, sys_bg = []\<rparr>"

definition demo_update :: article where
  "demo_update = demo_article\<lparr>art_title := ''Free clinic (moved)''\<rparr>"

definition demo_new :: article where
  "demo_new = \<lparr>art_id = 0, art_title = ''Book swap'', art_content = ''Bring two books'',
               art_manager = 0, art_create = 0, art_kind = ''culture'', art_like = 0\<rparr>"

subsection \<open>The update path\<close>

lemma svc_update_article_ok:
  assumes "svc_update_article net a s = (Inr u, s')"
  obtains c na where "get_article_cache (net 0) (art_id a) (sys_cache s) = Inr (Some c)"
    "db_update_article (net 3) (net 4) (a\<lparr>art_like := art_like c\<rparr>) (sys_db s) = (Inr na, sys_db s')"
    "sys_cache s' = remove_key (basic_map_key (art_id a)) (remove_key (full_key (art_id a))
                      (remove_key (basic_map_key (art_id a)) (remove_key (full_key (art_id a)) (sys_cache s))))"
    "sys_bg s' = sys_bg s @ [BgAddBasicWithoutList na]"
  using assms
  by (auto simp: svc_update_article_def Let_def split: sum.splits option.splits prod.splits
           dest!: delete_article_for_update_ok)

lemma run_bg_last:
  "sys_bg s = bs @ [t] \<Longrightarrow>
     run_bg net (length bs) s = s\<lparr>sys_cache := run_bg_task net t (sys_cache s), sys_bg := bs\<rparr>"
  by (simp add: run_bg_def)

lemma run_bg_basic_frame:
  "k \<noteq> basic_map_key (art_id b) \<Longrightarrow>
     lookup (run_bg_task net (BgAddBasicWithoutList b) r) k = lookup r k"
  by (simp add: run_bg_task_def add_basic_article_without_list_frame)

subsection \<open>The reconciliation batch\<close>

lemma write_likes_all_Inr:
  "write_likes_all net j res db = (Inr u, db') \<Longrightarrow> db' = write_likes_ref res db"
proof (induction res arbitrary: j db)
  case Nil then show ?case by (simp add: write_likes_ref_def)
next
  case (Cons p ps)
  then show ?case
    by (cases p) (auto simp: write_likes_ref_def db_write_likes_def split: if_splits prod.splits sum.splits)
qed

lemma write_likes_all_next:
  "article_next (snd (write_likes_all net j res db)) = article_next db
   \<and> user_item_next (snd (write_likes_all net j res db)) = user_item_next db
   \<and> user_next (snd (write_likes_all net j res db)) = user_next db"
  by (induction res arbitrary: j db)
     (auto simp: db_write_likes_def split: prod.splits sum.splits option.splits)

lemma tx_rollback_write_likes: "tx_rollback db (snd (write_likes_all net j res db)) = db"
  by (simp add: tx_rollback_def write_likes_all_next)

lemma write_likes_all_True: "write_likes_all (\<lambda>_. True) j res db = (Inr (), write_likes_ref res db)"
  by (induction res arbitrary: j db) (auto simp: write_likes_ref_def db_write_likes_def split: prod.splits)

lemma write_likes_ref_other:
  "aid \<notin> fst ` set res \<Longrightarrow> map_of (article_rows (write_likes_ref res db)) aid = map_of (article_rows db) aid"
  by (induction res arbitrary: db) (auto simp: write_likes_ref_def db_write_likes_like)

lemma write_likes_ref_at:
  "distinct (map fst res) \<Longrightarrow> (aid, n) \<in> set res \<Longrightarrow> map_of (article_rows db) aid = Some row \<Longrightarrow>
     map_of (article_rows (write_likes_ref res db)) aid = Some (row\<lparr>art_like := n\<rparr>)"
proof (induction res arbitrary: db)
  case Nil then show ?case by simp
next
  case (Cons p ps)
  obtain a v where p: "p = (a, v)" by (cases p)
  show ?case
  proof (cases "a = aid")
    case True
    with Cons.prems p have "v = n" "aid \<notin> fst ` set ps" by force+
    with Cons.prems p True show ?thesis
      using write_likes_ref_other [of aid ps]
      by (simp add: write_likes_ref_def db_write_likes_like)
  next
    case False
    with Cons.prems p have "(aid, n) \<in> set ps" "distinct (map fst ps)" by auto
    with Cons.IH Cons.prems p False show ?thesis
      by (simp add: write_likes_ref_def db_write_likes_like)
  qed
qed

subsection \<open>Properties\<close>

text \<open>C12 (safety).  \<open>UpdateArticle\<close> deletes the full hash twice and refills only
  the basic one: after a successful update, even once its own background refill
  has run, the next update of the same article finds no full hash, dereferences
  the nil article and panics.  An article cannot be updated twice in a row until
  a read has refilled its full hash.\<close>

theorem update_twice_panics:
  assumes "svc_update_article net a s = (Inr (), s')" "art_id a' = art_id a" "net' 0"
  shows "svc_update_article net' a' (run_bg bnet (length (sys_bg s)) s')
         = (Inl SvcNilDeref, run_bg bnet (length (sys_bg s)) s')"
proof -
  obtain c na where u: "get_article_cache (net 0) (art_id a) (sys_cache s) = Inr (Some c)"
    "db_update_article (net 3) (net 4) (a\<lparr>art_like := art_like c\<rparr>) (sys_db s) = (Inr na, sys_db s')"
    "sys_cache s' = remove_key (basic_map_key (art_id a)) (remove_key (full_key (art_id a))
                      (remove_key (basic_map_key (art_id a)) (remove_key (full_key (art_id a)) (sys_cache s))))"
    "sys_bg s' = sys_bg s @ [BgAddBasicWithoutList na]"
    by (rule svc_update_article_ok [OF assms(1)])
  then have "lookup (sys_cache (run_bg bnet (length (sys_bg s)) s')) (full_key (art_id a)) = None"
    by (simp add: run_bg_last run_bg_basic_frame key_simps)
  then show ?thesis
    using assms(2,3) by (simp add: svc_update_article_def get_article_cache_absent)
qed

theorem update_twice_panics_witness:
  "svc_update_article (\<lambda>_. True) demo_update (run_bg (\<lambda>_. True) 0 (snd (svc_update_article (\<lambda>_. True) demo_update demo_sys)))
   = (Inl SvcNilDeref, run_bg (\<lambda>_. True) 0 (snd (svc_update_article (\<lambda>_. True) demo_update demo_sys)))"
proof -
  have h: "svc_update_article (\<lambda>_. True) demo_update demo_sys
           = (Inr (), snd (svc_update_article (\<lambda>_. True) demo_update demo_sys))"
    by code_simp
  have "sys_bg demo_sys = []" by (simp add: demo_sys_def)
  then show ?thesis using update_twice_panics [OF h, of demo_update "\<lambda>_. True" "\<lambda>_. True"] by simp
qed


text \<open>Right after a successful \<open>UpdateArticle\<close>, before its background
  refill runs, a read of the article with every request succeeding fails: the full
  hash is gone, MySQL has the row, but \<open>GetArticle\<close> takes the count from the basic
  hash, which the update deleted too.  The read does not fall back to the durable
  store as the specification's cache-aside read does.\<close>

theorem get_after_update_misses:
  assumes "svc_update_article net a s = (Inr (), s')"
  shows "svc_get_article (\<lambda>_. True) (art_id a) s' = (Inl (SvcCache ErrBasicMissing), s')"
proof -
  obtain c na where u: "get_article_cache (net 0) (art_id a) (sys_cache s) = Inr (Some c)"
    "db_update_article (net 3) (net 4) (a\<lparr>art_like := art_like c\<rparr>) (sys_db s) = (Inr na, sys_db s')"
    "sys_cache s' = remove_key (basic_map_key (art_id a)) (remove_key (full_key (art_id a))
                      (remove_key (basic_map_key (art_id a)) (remove_key (full_key (art_id a)) (sys_cache s))))"
    "sys_bg s' = sys_bg s @ [BgAddBasicWithoutList na]"
    by (rule svc_update_article_ok [OF assms])
  obtain row where row: "map_of (article_rows (sys_db s)) (art_id a) = Some row"
    "na = row\<lparr>art_title := art_title a, art_content := art_content a, art_like := art_like c\<rparr>"
    "sys_db s' = sys_db s\<lparr>article_rows := AList.update (art_id a) na (article_rows (sys_db s))\<rparr>"
    by (rule db_update_article_ok [OF u(2)]) simp
  have "map_of (article_rows (sys_db s')) (art_id a) = Some na"
    using row(3) by (simp add: update_conv')
  moreover have "lookup (sys_cache s') (full_key (art_id a)) = None"
    "lookup (sys_cache s') (basic_map_key (art_id a)) = None"
    using u(3) by simp_all
  ultimately show ?thesis
    by (simp add: svc_get_article_def get_article_cache_absent get_basic_article_absent db_get_article_def)
qed

theorem get_after_update_misses_witness:
  "svc_get_article (\<lambda>_. True) (art_id demo_update) (snd (svc_update_article (\<lambda>_. True) demo_update demo_sys))
   = (Inl (SvcCache ErrBasicMissing), snd (svc_update_article (\<lambda>_. True) demo_update demo_sys))"
proof -
  have h: "svc_update_article (\<lambda>_. True) demo_update demo_sys
           = (Inr (), snd (svc_update_article (\<lambda>_. True) demo_update demo_sys))"
    by code_simp
  show ?thesis by (rule get_after_update_misses [OF h])
qed

text \<open>C14 (functional).  Once the update's background refill has run, a read
  returns exactly the row MySQL holds after the update, with the new title and
  content and the count carried over from the cache: the repopulated cache matches
  the durable store.\<close>

theorem get_after_update_matches_db:
  assumes "svc_update_article net a s = (Inr (), s')" "article_rows_ok (sys_db s)"
  shows "\<exists>row. map_of (article_rows (sys_db s')) (art_id a) = Some row
           \<and> art_title row = art_title a \<and> art_content row = art_content a
           \<and> fst (svc_get_article (\<lambda>_. True) (art_id a) (run_bg (\<lambda>_. True) (length (sys_bg s)) s')) = Inr row"
proof -
  obtain c na where u: "get_article_cache (net 0) (art_id a) (sys_cache s) = Inr (Some c)"
    "db_update_article (net 3) (net 4) (a\<lparr>art_like := art_like c\<rparr>) (sys_db s) = (Inr na, sys_db s')"
    "sys_cache s' = remove_key (basic_map_key (art_id a)) (remove_key (full_key (art_id a))
                      (remove_key (basic_map_key (art_id a)) (remove_key (full_key (art_id a)) (sys_cache s))))"
    "sys_bg s' = sys_bg s @ [BgAddBasicWithoutList na]"
    by (rule svc_update_article_ok [OF assms(1)])
  obtain row where row: "map_of (article_rows (sys_db s)) (art_id a) = Some row"
    "na = row\<lparr>art_title := art_title a, art_content := art_content a, art_like := art_like c\<rparr>"
    "sys_db s' = sys_db s\<lparr>article_rows := AList.update (art_id a) na (article_rows (sys_db s))\<rparr>"
    by (rule db_update_article_ok [OF u(2)]) simp
  have c: "in_int64 (art_like c)"
    using get_article_cache_Some [OF u(1)] by simp
  have r: "art_id row = art_id a" "in_int64 (art_manager row)"
    using article_rows_okD [OF assms(2) row(1)] by simp_all
  let ?s2 = "run_bg (\<lambda>_. True) (length (sys_bg s)) s'"
  have db2: "map_of (article_rows (sys_db ?s2)) (art_id a) = Some na"
    using row(3) by (simp add: run_bg_last [OF u(4)] update_conv')
  have full2: "lookup (sys_cache ?s2) (full_key (art_id a)) = None"
    using u(3,4) by (simp add: run_bg_last run_bg_basic_frame key_simps)
  have basic2: "get_basic_article True (art_id a) (sys_cache ?s2)
         = Inr \<lparr>ba_id = art_id na, ba_title = art_title na, ba_content = substring (art_content na) 5,
                ba_kind = art_kind na, ba_like = art_like na, ba_manager = art_manager na\<rparr>"
    using get_basic_article_without_list [of "sys_cache s'" na] u(3) row(2) r c
    by (simp add: run_bg_last [OF u(4)] run_bg_task_def key_simps)
  have "fst (svc_get_article (\<lambda>_. True) (art_id a) ?s2) = Inr na"
    using db2 full2 basic2 row(2) r
    by (cases row) (simp add: svc_get_article_def get_article_cache_absent db_get_article_def Let_def)
  then show ?thesis by (intro exI [of _ na]) (simp add: row(2,3) update_conv')
qed

theorem get_after_update_matches_db_witness:
  "\<exists>row. map_of (article_rows (sys_db (snd (svc_update_article (\<lambda>_. True) demo_update demo_sys)))) (art_id demo_update) = Some row
     \<and> art_title row = art_title demo_update \<and> art_content row = art_content demo_update
     \<and> fst (svc_get_article (\<lambda>_. True) (art_id demo_update)
             (run_bg (\<lambda>_. True) (length (sys_bg demo_sys)) (snd (svc_update_article (\<lambda>_. True) demo_update demo_sys))))
       = Inr row"
proof -
  have h: "svc_update_article (\<lambda>_. True) demo_update demo_sys
           = (Inr (), snd (svc_update_article (\<lambda>_. True) demo_update demo_sys))"
    by code_simp
  have ok: "article_rows_ok (sys_db demo_sys)" by code_simp
  show ?thesis by (rule get_after_update_matches_db [OF h ok])
qed


text \<open>C15 (error).  The reconciliation batch is all-or-nothing: it either succeeds
  and leaves MySQL as if every pair had been written in order, or it fails and
  leaves MySQL exactly as before \<open>Begin\<close>, whichever statement failed.\<close>

theorem update_likes_all_or_nothing:
  assumes "update_likes_in_transaction net res db = (x, db')"
  shows "(x = Inr () \<and> db' = write_likes_ref res db) \<or> (x \<noteq> Inr () \<and> db' = db)"
  using assms tx_rollback_write_likes [of db net 1 res]
  by (auto simp: update_likes_in_transaction_def dest: write_likes_all_Inr
           split: if_splits prod.splits sum.splits)

theorem update_likes_all_or_nothing_witness:
  "snd (update_likes_in_transaction (\<lambda>k. k \<noteq> 2) [(1, 3), (2, 5)] demo_db) = demo_db"
proof -
  have "fst (update_likes_in_transaction (\<lambda>k. k \<noteq> 2) [(1, 3), (2, 5)] demo_db) \<noteq> Inr ()"
    by code_simp
  then show ?thesis
    using update_likes_all_or_nothing [OF prod.collapse [symmetric]] by blast
qed

text \<open>C16 (refinement).  A reconciliation tick whose requests all succeed copies the
  cached count of every article into its MySQL row: for an article whose basic
  hash holds the canonical count \<open>n\<close> and that has a row, the row's \<open>like\<close> becomes
  \<open>n\<close> and nothing else of the row changes.\<close>

theorem tick_reconciles:
  assumes "wf_redis (sys_cache s)" "basic_keys_canonical (sys_cache s)" "in_int64 aid"
    "hash_like (sys_cache s) (basic_map_key aid) = Some n" "map_of (article_rows (sys_db s)) aid = Some row"
  shows "map_of (article_rows (sys_db (periodic_tick (\<lambda>_. True) (\<lambda>_. True) s))) aid = Some (row\<lparr>art_like := n\<rparr>)"
proof -
  let ?r = "sys_cache s"
  let ?ks = "filter (glob_prefix basic_scan_prefix) (map fst (data ?r))"
  let ?res = "List.map_filter (scan_entry True ?r) ?ks"
  have "lookup ?r (basic_map_key aid) \<noteq> None"
    using assms(4) by (auto simp: hash_like_def split: option.splits)
  then have "basic_map_key aid \<in> set ?ks"
    by (simp add: lookup_None_keys glob_prefix_basic)
  then have mem: "(aid, n) \<in> set ?res"
    using scan_entry_basic [OF assms(3,4)] by (force simp: set_map_filter)
  have "distinct ?ks" using assms(1) by (simp add: wf_redis_def)
  moreover have "\<And>k e. k \<in> set ?ks \<Longrightarrow> scan_entry True ?r k = Some e \<Longrightarrow> k = basic_map_key (fst e)"
    using assms(2) by (auto simp: basic_keys_canonical_def list_all_iff intro: scan_entry_key)
  ultimately have dist: "distinct (map fst ?res)" by (rule distinct_map_filter_fst)
  obtain p ps where res: "?res = p # ps" using mem by (cases ?res) auto
  have "sys_db (periodic_tick (\<lambda>_. True) (\<lambda>_. True) s) = write_likes_ref ?res (sys_db s)"
    by (simp add: periodic_tick_def get_all_articles_ok res update_likes_in_transaction_def write_likes_all_True
        del: filter.simps)
  then show ?thesis using write_likes_ref_at [OF dist mem assms(5)] by simp
qed

theorem tick_reconciles_witness:
  "map_of (article_rows (sys_db (periodic_tick (\<lambda>_. True) (\<lambda>_. True)
      (demo_sys\<lparr>sys_cache := snd (add_likes_cache (\<lambda>_. True) 1 5 1 demo_cache)\<rparr>)))) 1
   = Some (demo_article\<lparr>art_like := 1\<rparr>)"
proof -
  let ?s = "demo_sys\<lparr>sys_cache := snd (add_likes_cache (\<lambda>_. True) 1 5 1 demo_cache)\<rparr>"
  have h1: "wf_redis (sys_cache ?s)" by code_simp
  have h2: "basic_keys_canonical (sys_cache ?s)" by code_simp
  have h3: "in_int64 1" by (simp add: in_int64_def)
  have h4: "hash_like (sys_cache ?s) (basic_map_key 1) = Some 1" by code_simp
  have h5: "map_of (article_rows (sys_db ?s)) 1 = Some demo_article" by code_simp
  show ?thesis by (rule tick_reconciles [OF h1 h2 h3 h4 h5])
qed

text \<open>The MySQL transaction of \<open>AddArticle\<close> does not cover the cache:
  when the commit fails after the basic hash and the kind list were written, the
  handler reports the failure and MySQL has no new row, yet the cache lists the
  article under its kind with count 0 and a goroutine is pending that will write
  its full hash.  The article exists in the cache tier only.\<close>

theorem add_article_commit_failure:
  assumes "net 0" "net 1" "net 2" "net 3" "\<not> net 4" "art_id a = 0"
    "map_of (article_rows (sys_db s)) (article_next (sys_db s)) = None"
    "lookup (sys_cache s) (basic_map_key (article_next (sys_db s))) = None"
    "list_of (sys_cache s) (basic_list_key (art_kind a)) = Inr l"
    "svc_add_article net a mid now s = (x, s')"
  shows "x = Inl (SvcDb DbConn) \<and> article_rows (sys_db s') = article_rows (sys_db s)
       \<and> hash_like (sys_cache s') (basic_map_key (article_next (sys_db s))) = Some 0
       \<and> list_of (sys_cache s') (basic_list_key (art_kind a)) = Inr (itoa (article_next (sys_db s)) # l)
       \<and> (\<exists>a'. art_id a' = article_next (sys_db s) \<and> sys_bg s' = sys_bg s @ [BgAddArticle a'])"
  using assms
  by (auto simp: svc_add_article_def db_add_article_def add_basic_article_def hset_srv_def hash_of_def
      lpush_srv_def tx_rollback_def hash_like_def key_simps view_defs Let_def eval_nat_numeral in_int64_def)

theorem add_article_commit_failure_witness:
  "fst (svc_add_article (\<lambda>k. k \<noteq> 4) demo_new 9 0 demo_sys) = Inl (SvcDb DbConn)
   \<and> hash_like (sys_cache (snd (svc_add_article (\<lambda>k. k \<noteq> 4) demo_new 9 0 demo_sys))) (basic_map_key 2) = Some 0"
proof -
  have h: "map_of (article_rows (sys_db demo_sys)) (article_next (sys_db demo_sys)) = None"
    "lookup (sys_cache demo_sys) (basic_map_key (article_next (sys_db demo_sys))) = None"
    "list_of (sys_cache demo_sys) (basic_list_key (art_kind demo_new)) = Inr []"
    "article_next (sys_db demo_sys) = 2"
    by code_simp+
  show ?thesis
    using add_article_commit_failure [where net = "\<lambda>k. k \<noteq> 4", OF _ _ _ _ _ _ h(1,2,3) prod.collapse [symmetric]] h(4)
    by (simp add: demo_new_def)
qed
end
