(* ===== verification/Inventory.thy ===== *)
theory Inventory
  imports Redis_Store Models
begin

text \<open>
  The Inventory Reservation Engine on the cache side
  (\<open>src/internal/user/user_repository/user_cache_repository.go\<close>): the item
  record written by \<open>AddItem\<close>, the Lua script of \<open>ChooseItem\<close> that checks
  membership, checks and decrements \<open>remain\<close> and records the user in one atomic
  step, and the mapping of the script's reply to Go errors.  Redis runs scripts
  one at a time, so concurrent reservations are a sequence of script runs
  (\<open>choose_run\<close>); the lemmas show that the stock never goes negative, that
  stock plus reservations stays equal to the capacity, and that no user is
  counted twice, whatever the order of the calls.
\<close>

definition user_cache_prefix :: string where
  "user_cache_prefix = ''hcl:user''"

definition item_users_key :: "go_int \<Rightarrow> string" where
  "item_users_key iid = user_cache_prefix @ '':item:'' @ itoa iid @ '':users''"

definition item_info_key :: "go_int \<Rightarrow> string" where
  "item_info_key iid = user_cache_prefix @ '':item:'' @ itoa iid @ '':info''"

subsection \<open>\<open>AddItem\<close>\<close>

definition add_item_cache :: "bool \<Rightarrow> community_item \<Rightarrow> redis \<Rightarrow> (rerr + unit) \<times> redis" where
  "add_item_cache ok it r =
     call ok (hset_srv (item_info_key (item_id it))
       [(''id'', itoa (item_id it)), (''name'', item_name it), (''price'', itoa (item_price it)),
        (''capacity'', itoa (item_capacity it)), (''remain'', itoa (item_remain it)),
        (''begin'', rfc3339 (item_begin it))]) r"

subsection \<open>The reservation script\<close>

text \<open>Lua's \<open>tonumber\<close> on the stored field; only integer numerals occur there
  (the field is written by \<open>HSET\<close> of an \<open>int\<close> and by \<open>HINCRBY\<close>).  A missing
  field reads as \<open>false\<close> and converts to \<open>nil\<close>.\<close>

definition lua_tonumber :: "string \<Rightarrow> int option" where
  "lua_tonumber s = parse_decimal s"

text \<open>The script with \<open>KEYS[1]\<close> the users set, \<open>KEYS[2]\<close> the item hash and
  \<open>ARGV[1]\<close> the user id.  A \<open>nil\<close> return is a nil reply, which go-redis reports as
  the error \<open>redis.Nil\<close>.\<close>

definition choose_item_script :: "string \<Rightarrow> string \<Rightarrow> string \<Rightarrow> redis \<Rightarrow> int rres" where
  "choose_item_script k_users k_info uid r =
     (case sismember_srv k_users uid r of
        (Inl e, r) \<Rightarrow> (Inl e, r)
      | (Inr True, r) \<Rightarrow> (Inr 0, r)
      | (Inr False, r) \<Rightarrow>
          (let remain = (case hget_srv k_info ''remain'' r of
                           (Inl ErrNil, _) \<Rightarrow> Inr None
                         | (Inl e, _) \<Rightarrow> Inl e
                         | (Inr s, _) \<Rightarrow> Inr (lua_tonumber s))
           in case remain of
                Inl e \<Rightarrow> (Inl e, r)
              | Inr None \<Rightarrow> (Inl ErrNil, r)
              | Inr (Some n) \<Rightarrow>
                  if n \<le> 0 then (Inr n, r)
                  else (case hincrby_srv k_info ''remain'' (-1) r of
                          (Inl e, r1) \<Rightarrow> (Inl e, r1)
                        | (Inr _, r1) \<Rightarrow>
                            (case sadd_srv k_users uid r1 of
                               (Inl e, r2) \<Rightarrow> (Inl e, r2)
                             | (Inr _, r2) \<Rightarrow> (Inr 1, r2)))))"

datatype choose_err =
    ChooseScriptErr rerr
  | ChooseAlreadyChosen
  | ChooseNoStock
  | ChooseUnknown int

text \<open>The reply mapping of \<open>ChooseItem\<close>'s \<open>switch\<close> for a script reply.\<close>

definition choose_reply :: "int \<Rightarrow> choose_err + unit" where
  "choose_reply n = (if n = 1 then Inr () else if n = 0 then Inl ChooseAlreadyChosen
     else if n = -1 then Inl ChooseNoStock else Inl (ChooseUnknown n))"

text \<open>\<open>UserCacheRepository.ChooseItem\<close>: run the script and map its reply.  The
  type assertion \<open>result.(int64)\<close> always succeeds, as the script returns integers
  or \<open>nil\<close>.\<close>

definition choose_item_cache :: "bool \<Rightarrow> go_int \<Rightarrow> go_int \<Rightarrow> redis \<Rightarrow> (choose_err + unit) \<times> redis" where
  "choose_item_cache ok uid iid r =
     (case call ok (choose_item_script (item_users_key iid) (item_info_key iid) (itoa uid)) r of
        (Inl e, r') \<Rightarrow> (Inl (ChooseScriptErr e), r')
      | (Inr res, r') \<Rightarrow> (choose_reply res, r'))"

text \<open>Concurrent callers: Redis executes one script at a time, so any
  interleaving of \<open>ChooseItem\<close> calls is a sequence of calls, each with its
  connection flag, user and item.\<close>

fun choose_run :: "(bool \<times> go_int \<times> go_int) list \<Rightarrow> redis \<Rightarrow> (choose_err + unit) list \<times> redis" where
  "choose_run [] r = ([], r)"
| "choose_run ((ok, uid, iid) # cs) r =
     (let (res, r1) = choose_item_cache ok uid iid r;
          (ress, r2) = choose_run cs r1
      in (res # ress, r2))"

text \<open>The users whose call on item \<open>iid\<close> succeeded, in call order.\<close>

definition choose_successes :: "go_int \<Rightarrow> (bool \<times> go_int \<times> go_int) list \<Rightarrow> (choose_err + unit) list \<Rightarrow> go_int list" where
  "choose_successes iid cs res = [uid. ((ok, uid, i), x) \<leftarrow> zip cs res, i = iid \<and> x = Inr ()]"

subsection \<open>Views of an item in the cache\<close>

definition item_stock :: "redis \<Rightarrow> go_int \<Rightarrow> int option" where
  "item_stock r iid =
     (case hash_of r (item_info_key iid) of
        Inl _ \<Rightarrow> None
      | Inr h \<Rightarrow> (case map_of h ''remain'' of None \<Rightarrow> None | Some s \<Rightarrow> redis_int s))"

definition item_members :: "redis \<Rightarrow> go_int \<Rightarrow> string list option" where
  "item_members r iid = (case set_of r (item_users_key iid) of Inl _ \<Rightarrow> None | Inr s \<Rightarrow> Some s)"

text \<open>The stock invariant of one item: a canonical, non-negative \<open>remain\<close>, a
  users set, and \<open>remain + |users| = capacity\<close>.\<close>

definition item_inv :: "go_int \<Rightarrow> go_int \<Rightarrow> redis \<Rightarrow> bool" where
  "item_inv cap iid r =
     (case (item_stock r iid, item_members r iid) of
        (Some v, Some us) \<Rightarrow> 0 \<le> v \<and> v + int (length us) = cap \<and> distinct us
      | _ \<Rightarrow> False)"

subsection \<open>Abstract reservation\<close>

text \<open>What a reservation does to the pair (stock, users) of one item: the contract
  the cache implementation refines.  A failed connection or a member changes
  nothing; otherwise the stock is checked and, when positive, decremented while the
  user joins the set.  The reply to a non-positive stock is the code's own
  mapping of the stock value.\<close>

definition item_view :: "redis \<Rightarrow> go_int \<Rightarrow> (int \<times> string list) option" where
  "item_view r iid =
     (case (item_stock r iid, item_members r iid) of (Some v, Some us) \<Rightarrow> Some (v, us) | _ \<Rightarrow> None)"

definition reserve_abs :: "bool \<Rightarrow> string \<Rightarrow> int \<times> string list \<Rightarrow> (choose_err + unit) \<times> int \<times> string list" where
  "reserve_abs ok u s =
     (let (v, us) = s in
      if \<not> ok then (Inl (ChooseScriptErr ErrConn), v, us)
      else if u \<in> set us then (Inl ChooseAlreadyChosen, v, us)
      else if v \<le> 0 then (choose_reply v, v, us)
      else (Inr (), v - 1, u # us))"

subsection \<open>A fixture\<close>

definition demo_item :: community_item where
  "demo_item = \<lparr>item_id = 7, item_name = ''yoga class'', item_capacity = 2, item_remain = 2,
                item_price = 10, item_begin = 0\<rparr>"

definition demo_calls :: "(bool \<times> go_int \<times> go_int) list" where
  "demo_calls = [(True, 1, 7), (True, 2, 7), (True, 3, 7)]"

subsection \<open>Keys\<close>

lemma item_keys_distinct [key_simps]:
  "item_users_key a \<noteq> item_info_key b"
  "item_info_key a \<noteq> item_users_key b"
  by (simp_all add: item_users_key_def item_info_key_def key_simps)

lemma item_keys_eq_iff [key_simps]:
  "item_users_key a = item_users_key b \<longleftrightarrow> a = b"
  "item_info_key a = item_info_key b \<longleftrightarrow> a = b"
  by (simp_all add: item_users_key_def item_info_key_def key_simps)

lemma choose_item_script_frame:
  "k \<noteq> ku \<Longrightarrow> k \<noteq> ki \<Longrightarrow> lookup (snd (choose_item_script ku ki u r)) k = lookup r k"
  by (auto simp: choose_item_script_def sismember_srv_def hget_srv_def hincrby_srv_def sadd_srv_def
      Let_def split: prod.splits sum.splits bool.splits option.splits rerr.splits if_splits)

lemma item_stock_cong:
  "lookup r' (item_info_key iid) = lookup r (item_info_key iid) \<Longrightarrow> item_stock r' iid = item_stock r iid"
  by (simp add: item_stock_def hash_of_def)

lemma item_members_cong:
  "lookup r' (item_users_key iid) = lookup r (item_users_key iid) \<Longrightarrow> item_members r' iid = item_members r iid"
  by (simp add: item_members_def set_of_def)

lemma choose_item_cache_state:
  "snd (choose_item_cache ok uid iid r) = snd (call ok (choose_item_script (item_users_key iid) (item_info_key iid) (itoa uid)) r)"
  by (simp add: choose_item_cache_def split: prod.splits sum.splits)

lemma choose_item_cache_other_item:
  assumes "iid' \<noteq> iid"
  shows "item_stock (snd (choose_item_cache ok uid iid' r)) iid = item_stock r iid"
    and "item_members (snd (choose_item_cache ok uid iid' r)) iid = item_members r iid"
  using assms
  by (auto simp: choose_item_cache_state call_def key_simps
      intro!: item_stock_cong item_members_cong choose_item_script_frame)

lemma item_views:
  assumes "item_stock r iid = Some v" "item_members r iid = Some us"
  obtains h where "lookup r (item_info_key iid) = Some (RHash h)"
    "map_of h ''remain'' = Some (itoa v)" "in_int64 v"
    "set_of r (item_users_key iid) = Inr us"
  using assms
  by (auto simp: item_stock_def item_members_def hash_of_def split: option.splits rval.splits sum.splits
      dest!: redis_int_Some)

lemma choose_item_cache_same_eq:
  assumes "item_stock r iid = Some v" "item_members r iid = Some us"
  obtains h where
    "choose_item_cache ok uid iid r =
       (if \<not> ok then (Inl (ChooseScriptErr ErrConn), r)
        else if itoa uid \<in> set us then (Inl ChooseAlreadyChosen, r)
        else if v \<le> 0 then (choose_reply v, r)
        else (Inr (), store (item_users_key iid) (RSet (itoa uid # us))
                        (store (item_info_key iid) (RHash (AList.update ''remain'' (itoa (v - 1)) h)) r)))"
    "lookup r (item_info_key iid) = Some (RHash h)"
proof -
  obtain h where h: "lookup r (item_info_key iid) = Some (RHash h)"
    "map_of h ''remain'' = Some (itoa v)" "in_int64 v" "set_of r (item_users_key iid) = Inr us"
    using assms by (rule item_views)
  have dec: "0 < v \<Longrightarrow> in_int64 (v + -1)" using h(3) by (simp add: in_int64_def)
  have "choose_item_cache ok uid iid r =
       (if \<not> ok then (Inl (ChooseScriptErr ErrConn), r)
        else if itoa uid \<in> set us then (Inl ChooseAlreadyChosen, r)
        else if v \<le> 0 then (choose_reply v, r)
        else (Inr (), store (item_users_key iid) (RSet (itoa uid # us))
                        (store (item_info_key iid) (RHash (AList.update ''remain'' (itoa (v - 1)) h)) r)))"
  proof (cases ok)
    case False
    then show ?thesis by (simp add: choose_item_cache_def)
  next
    case True
    note defs = choose_item_cache_def choose_item_script_def choose_reply_def
        sismember_srv_def hget_srv_def hincrby_srv_def sadd_srv_def hash_of_def lua_tonumber_def
    show ?thesis
    proof (cases "itoa uid \<in> set us")
      case True
      with \<open>ok\<close> h show ?thesis by (simp add: defs)
    next
      case False
      have su: "set_of (store (item_info_key iid) x r) (item_users_key iid) = Inr us" for x
        using h(4) by (simp add: set_of_def key_simps)
      show ?thesis
      proof (cases "v \<le> 0")
        case True
        with \<open>ok\<close> False h show ?thesis by (simp add: defs)
      next
        case nonpos: False
        with \<open>ok\<close> False h dec su show ?thesis by (simp add: defs)
      qed
    qed
  qed
  from this h(1) show ?thesis by (rule that)
qed

lemma choose_item_cache_same:
  assumes "item_stock r iid = Some v" "item_members r iid = Some us"
  shows "fst (choose_item_cache ok uid iid r) =
           (if \<not> ok then Inl (ChooseScriptErr ErrConn)
            else if itoa uid \<in> set us then Inl ChooseAlreadyChosen
            else if v \<le> 0 then choose_reply v else Inr ())"
    and "item_stock (snd (choose_item_cache ok uid iid r)) iid =
           Some (if ok \<and> itoa uid \<notin> set us \<and> 0 < v then v - 1 else v)"
    and "item_members (snd (choose_item_cache ok uid iid r)) iid =
           Some (if ok \<and> itoa uid \<notin> set us \<and> 0 < v then itoa uid # us else us)"
proof -
  obtain h where eq: "choose_item_cache ok uid iid r =
       (if \<not> ok then (Inl (ChooseScriptErr ErrConn), r)
        else if itoa uid \<in> set us then (Inl ChooseAlreadyChosen, r)
        else if v \<le> 0 then (choose_reply v, r)
        else (Inr (), store (item_users_key iid) (RSet (itoa uid # us))
                        (store (item_info_key iid) (RHash (AList.update ''remain'' (itoa (v - 1)) h)) r)))"
    and h: "lookup r (item_info_key iid) = Some (RHash h)"
    using assms by (rule choose_item_cache_same_eq)
  have rng: "0 < v \<Longrightarrow> in_int64 (v - 1)"
    using assms(1) by (auto simp: item_stock_def in_int64_def dest!: redis_int_Some split: sum.splits option.splits)
  show "fst (choose_item_cache ok uid iid r) =
           (if \<not> ok then Inl (ChooseScriptErr ErrConn)
            else if itoa uid \<in> set us then Inl ChooseAlreadyChosen
            else if v \<le> 0 then choose_reply v else Inr ())"
    by (simp add: eq)
  show "item_stock (snd (choose_item_cache ok uid iid r)) iid =
           Some (if ok \<and> itoa uid \<notin> set us \<and> 0 < v then v - 1 else v)"
    using assms(1) rng by (simp add: eq item_stock_def hash_of_def key_simps)
  show "item_members (snd (choose_item_cache ok uid iid r)) iid =
           Some (if ok \<and> itoa uid \<notin> set us \<and> 0 < v then itoa uid # us else us)"
    using assms(2) by (simp add: eq item_members_def set_of_def key_simps)
qed

lemma choose_successes_Nil [simp]: "choose_successes iid [] res = []"
  by (simp add: choose_successes_def)

lemma choose_successes_Cons [simp]:
  "choose_successes iid ((ok, uid, i) # cs) (x # res) =
     (if i = iid \<and> x = Inr () then uid # choose_successes iid cs res else choose_successes iid cs res)"
  by (simp add: choose_successes_def)

lemma item_inv_view:
  "item_inv cap iid r \<longleftrightarrow>
     (\<exists>v us. item_stock r iid = Some v \<and> item_members r iid = Some us \<and>
             0 \<le> v \<and> v + int (length us) = cap \<and> distinct us)"
  by (simp add: item_inv_def split: option.splits)

lemma choose_run_item:
  assumes "item_inv cap iid r" "item_stock r iid = Some v" "item_members r iid = Some us"
    "choose_run cs r = (res, r')"
  shows "item_inv cap iid r' \<and>
         item_stock r' iid = Some (v - int (length (choose_successes iid cs res))) \<and>
         item_members r' iid = Some (rev (map itoa (choose_successes iid cs res)) @ us)"
  using assms
proof (induction cs arbitrary: r v us res r')
  case Nil
  then show ?case by simp
next
  case (Cons c cs)
  obtain ok uid i where c: "c = (ok, uid, i)" by (cases c) auto
  obtain x r1 where s1: "choose_item_cache ok uid i r = (x, r1)" by fastforce
  obtain res1 where s2: "choose_run cs r1 = (res1, r')" and res: "res = x # res1"
    using Cons.prems(4) s1 c by (auto split: prod.splits)
  show ?case
  proof (cases "i = iid")
    case False
    then have "item_stock r1 iid = Some v" "item_members r1 iid = Some us"
      using choose_item_cache_other_item [of i iid ok uid r] s1 Cons.prems(2,3) by simp_all
    moreover from this have "item_inv cap iid r1"
      using Cons.prems(1-3) by (simp add: item_inv_def)
    ultimately show ?thesis
      using Cons.IH [OF _ _ _ s2] c res False by simp
  next
    case True
    let ?succ = "ok \<and> itoa uid \<notin> set us \<and> 0 < v"
    have x: "x = (if \<not> ok then Inl (ChooseScriptErr ErrConn)
            else if itoa uid \<in> set us then Inl ChooseAlreadyChosen
            else if v \<le> 0 then choose_reply v else Inr ())"
      and st: "item_stock r1 iid = Some (if ?succ then v - 1 else v)"
      and mb: "item_members r1 iid = Some (if ?succ then itoa uid # us else us)"
      using choose_item_cache_same [OF Cons.prems(2,3), of ok uid] s1 True by simp_all
    have xs: "x = Inr () \<longleftrightarrow> ?succ"
      by (auto simp: x choose_reply_def)
    have "item_inv cap iid r1"
      using Cons.prems(1-3) st mb by (auto simp: item_inv_def)
    with Cons.IH [OF _ st mb s2] show ?thesis
      using c res True xs by auto
  qed
qed


lemma item_inv_step:
  assumes "item_inv cap iid r"
  shows "item_inv cap iid (snd (choose_item_cache ok uid iid' r))"
proof (cases "iid' = iid")
  case False
  with assms show ?thesis by (simp add: item_inv_def choose_item_cache_other_item)
next
  case True
  from assms obtain v us where vu: "item_stock r iid = Some v" "item_members r iid = Some us"
    "0 \<le> v" "v + int (length us) = cap" "distinct us"
    by (auto simp: item_inv_view)
  with True show ?thesis
    by (auto simp: item_inv_def choose_item_cache_same [OF vu(1,2)])
qed

subsection \<open>Properties\<close>

text \<open>C1 (safety).  Whatever the order in which concurrent callers reach the
  script, starting from an item with stock \<open>n\<close> and no reservations: at most \<open>n\<close>
  calls succeed, no user succeeds twice, the stock left is \<open>n\<close> minus the number of
  successes, and the users set holds exactly the successful users.\<close>

theorem choose_run_never_oversells:
  assumes "item_stock r iid = Some n" "item_members r iid = Some []" "0 \<le> n"
    and "choose_run cs r = (res, r')"
  shows "int (length (choose_successes iid cs res)) \<le> n
       \<and> distinct (choose_successes iid cs res)
       \<and> item_stock r' iid = Some (n - int (length (choose_successes iid cs res)))
       \<and> item_members r' iid = Some (rev (map itoa (choose_successes iid cs res)))"
proof -
  have "item_inv n iid r" using assms(1-3) by (simp add: item_inv_def)
  from choose_run_item [OF this assms(1,2,4)]
  have inv: "item_inv n iid r'"
    and st: "item_stock r' iid = Some (n - int (length (choose_successes iid cs res)))"
    and mb: "item_members r' iid = Some (rev (map itoa (choose_successes iid cs res)))"
    by simp_all
  from inv st mb have "0 \<le> n - int (length (choose_successes iid cs res))"
    and "distinct (map itoa (choose_successes iid cs res))"
    by (simp_all add: item_inv_def)
  then show ?thesis using st mb by (simp add: distinct_map)
qed

theorem choose_run_never_oversells_witness:
  "item_stock (snd (add_item_cache True demo_item empty_redis)) 7 = Some 2
   \<and> item_members (snd (add_item_cache True demo_item empty_redis)) 7 = Some []
   \<and> int (length (choose_successes 7 demo_calls
         (fst (choose_run demo_calls (snd (add_item_cache True demo_item empty_redis)))))) \<le> 2"
proof -
  have h1: "item_stock (snd (add_item_cache True demo_item empty_redis)) 7 = Some 2"
    by code_simp
  have h2: "item_members (snd (add_item_cache True demo_item empty_redis)) 7 = Some []"
    by code_simp
  show ?thesis
    using choose_run_never_oversells [OF h1 h2 _ prod.collapse [symmetric]] h1 h2 by simp
qed

text \<open>C2 (refinement).  On the (stock, users) view of an item, one
  \<open>ChooseItem\<close> call behaves as the abstract reservation \<open>reserve_abs\<close>: the
  atomic script implements check-member, check-stock, decrement and record as one
  step.\<close>

theorem choose_item_cache_refines:
  assumes "item_view r iid = Some s"
  shows "map_prod id (\<lambda>r'. item_view r' iid) (choose_item_cache ok uid iid r)
         = map_prod id Some (reserve_abs ok (itoa uid) s)"
proof -
  obtain v us where s: "s = (v, us)" "item_stock r iid = Some v" "item_members r iid = Some us"
    using assms by (auto simp: item_view_def split: option.splits)
  show ?thesis
    using choose_item_cache_same [OF s(2,3), of ok uid]
    by (cases "choose_item_cache ok uid iid r")
       (auto simp: s(1) item_view_def reserve_abs_def)
qed

theorem choose_item_cache_refines_witness:
  "item_view (snd (add_item_cache True demo_item empty_redis)) 7 = Some (2, [])
   \<and> map_prod id (\<lambda>r'. item_view r' 7) (choose_item_cache True 1 7 (snd (add_item_cache True demo_item empty_redis)))
     = map_prod id Some (reserve_abs True (itoa 1) (2, []))"
proof -
  have h: "item_view (snd (add_item_cache True demo_item empty_redis)) 7 = Some (2, [])"
    by code_simp
  show ?thesis using choose_item_cache_refines [OF h] h by simp
qed

text \<open>C3 (invariant).  Every \<open>ChooseItem\<close> call, on this item or on any other,
  with or without a working connection, keeps the stock invariant of an item:
  non-negative stock, a duplicate-free users set, and stock plus users equal to the
  capacity.\<close>

theorem item_inv_preserved:
  "item_inv cap iid r \<Longrightarrow> item_inv cap iid (snd (choose_item_cache ok uid iid' r))"
  by (rule item_inv_step)

theorem item_inv_preserved_witness:
  "item_inv 2 7 (snd (add_item_cache True demo_item empty_redis))
   \<and> item_inv 2 7 (snd (choose_item_cache True 1 7 (snd (add_item_cache True demo_item empty_redis))))"
proof -
  have h: "item_inv 2 7 (snd (add_item_cache True demo_item empty_redis))" by code_simp
  show ?thesis using item_inv_preserved [OF h] h by simp
qed

text \<open>C4 (error).  When the stock is exactly 0 and the user has not reserved, the
  script returns the stock value 0 itself, and the Go code maps reply 0 to
  "already chosen": an exhausted item is reported as a duplicate reservation, and
  the out-of-stock branch (reply -1) is never reached from a non-negative stock.\<close>

theorem choose_item_cache_zero_stock:
  assumes "item_stock r iid = Some 0" "item_members r iid = Some us" "itoa uid \<notin> set us"
  shows "choose_item_cache True uid iid r = (Inl ChooseAlreadyChosen, r)"
proof -
  obtain h where "choose_item_cache True uid iid r =
       (if \<not> True then (Inl (ChooseScriptErr ErrConn), r)
        else if itoa uid \<in> set us then (Inl ChooseAlreadyChosen, r)
        else if (0::int) \<le> 0 then (choose_reply 0, r)
        else (Inr (), store (item_users_key iid) (RSet (itoa uid # us))
                        (store (item_info_key iid) (RHash (AList.update ''remain'' (itoa (0 - 1)) h)) r)))"
    using choose_item_cache_same_eq [OF assms(1,2)] by blast
  with assms(3) show ?thesis by (simp add: choose_reply_def)
qed

theorem choose_item_cache_zero_stock_witness:
  "item_stock (snd (choose_run [(True, 1, 7), (True, 2, 7)] (snd (add_item_cache True demo_item empty_redis)))) 7 = Some 0
   \<and> item_members (snd (choose_run [(True, 1, 7), (True, 2, 7)] (snd (add_item_cache True demo_item empty_redis)))) 7 = Some [''2'', ''1'']
   \<and> choose_item_cache True 3 7 (snd (choose_run [(True, 1, 7), (True, 2, 7)] (snd (add_item_cache True demo_item empty_redis))))
     = (Inl ChooseAlreadyChosen, snd (choose_run [(True, 1, 7), (True, 2, 7)] (snd (add_item_cache True demo_item empty_redis))))"
proof -
  have h1: "item_stock (snd (choose_run [(True, 1, 7), (True, 2, 7)] (snd (add_item_cache True demo_item empty_redis)))) 7 = Some 0"
    by code_simp
  have h2: "item_members (snd (choose_run [(True, 1, 7), (True, 2, 7)] (snd (add_item_cache True demo_item empty_redis)))) 7 = Some [''2'', ''1'']"
    by code_simp
  have h3: "itoa 3 \<notin> set [''2'', ''1'']" by code_simp
  show ?thesis using choose_item_cache_zero_stock [OF h1 h2 h3] h1 h2 by simp
qed

text \<open>The scenario of the specification: an item of capacity 2
  and three users calling in turn.  Exactly the first two reservations succeed, the
  third fails (with the "already chosen" error of C4), and the stock ends at 0.\<close>

theorem capacity_two_scenario:
  "fst (choose_run demo_calls (snd (add_item_cache True demo_item empty_redis)))
     = [Inr (), Inr (), Inl ChooseAlreadyChosen]
   \<and> item_stock (snd (choose_run demo_calls (snd (add_item_cache True demo_item empty_redis)))) 7 = Some 0"
  by code_simp

end
