(* ===== verification/Reservation.thy ===== *)
theory Reservation
  imports Inventory Durable_Store
begin

text \<open>
  The queue-mediated half of the reservation protocol
  (\<open>internal/user/user_service/user_service.go\<close>): \<open>ChooseItemPublisher\<close> runs the
  cache reservation of \<open>Inventory\<close> and publishes \<open>"uid,iid"\<close> to the RabbitMQ
  queue \<open>hcl_user_choose_item\<close>; \<open>AddChooseItemConsumer\<close> validates a window and
  spawns a consumer that, from \<open>begin\<close> to \<open>end\<close>, drains the queue with automatic
  acknowledgement and applies each message as the MySQL transaction
  \<open>ChooseItem\<close>.  The whole system is a step relation over a wall clock, the two
  stores, the broker queue and the consumers: a consumer's deliveries sit in its
  client-side buffer once the broker has handed them over (and forgotten them,
  auto-ack); the consumer processes them one at a time and, at \<open>end\<close>, stops and
  drops what its buffer still holds.
\<close>

subsection \<open>Messages\<close>

text \<open>The body \<open>fmt.Sprintf("%d,%d", userID, itemID)\<close>.\<close>

definition msg_body :: "go_int \<Rightarrow> go_int \<Rightarrow> string" where
  "msg_body uid iid = itoa uid @ '','' @ itoa iid"

text \<open>The consumer's parse: \<open>strings.Split\<close> on commas, fewer than two parts is
  malformed, then \<open>strconv.Atoi\<close> of the first two parts (further parts are
  ignored).\<close>

definition parse_msg :: "string \<Rightarrow> (go_int \<times> go_int) option" where
  "parse_msg b =
     (let ps = split_on (CHR '','') b in
      if length ps < 2 then None
      else case (atoi (ps ! 0), atoi (ps ! 1)) of
             (Some u, Some i) \<Rightarrow> Some (u, i)
           | _ \<Rightarrow> None)"

subsection \<open>The durable reservation\<close>

text \<open>\<open>UserService.ChooseItem\<close>: \<open>Begin\<close> (0), the \<open>user_item\<close> insert (1), the
  \<open>remain\<close> decrement (2), \<open>Commit\<close> (3); any failure rolls back.\<close>

definition svc_choose_item :: "(nat \<Rightarrow> bool) \<Rightarrow> go_int \<Rightarrow> go_int \<Rightarrow> go_time \<Rightarrow> mysql \<Rightarrow> (dberr + unit) \<times> mysql" where
  "svc_choose_item net uid iid now db =
     (if \<not> net 0 then (Inl DbConn, db)
      else case db_insert_user_item (net 1) \<lparr>ui_id = 0, ui_user = uid, ui_item = iid, ui_create = now\<rparr> db of
        (Inl e, db1) \<Rightarrow> (Inl e, tx_rollback db db1)
      | (Inr _, db1) \<Rightarrow>
          (case db_update_item_info (net 2) iid db1 of
             (Inl e, db2) \<Rightarrow> (Inl e, tx_rollback db db2)
           | (Inr _, db2) \<Rightarrow> if \<not> net 3 then (Inl DbConn, tx_rollback db db2) else (Inr (), db2)))"

subsection \<open>The publisher\<close>

datatype pub_err = PubChoose choose_err | PubBroker

text \<open>\<open>ChooseItemPublisher\<close>: the cache reservation (request 0), then \<open>Dial\<close>,
  \<open>Channel\<close>, \<open>QueueDeclare\<close> and \<open>Publish\<close> (1 to 4).  A broker failure after a
  successful reservation is reported but the reservation stays.\<close>

definition choose_item_publisher ::
  "(nat \<Rightarrow> bool) \<Rightarrow> go_int \<Rightarrow> go_int \<Rightarrow> redis \<Rightarrow> string list \<Rightarrow> (pub_err + unit) \<times> redis \<times> string list" where
  "choose_item_publisher net uid iid r q =
     (case choose_item_cache (net 0) uid iid r of
        (Inl e, r') \<Rightarrow> (Inl (PubChoose e), r', q)
      | (Inr _, r') \<Rightarrow>
          if net 1 \<and> net 2 \<and> net 3 \<and> net 4 then (Inr (), r', q @ [msg_body uid iid])
          else (Inl PubBroker, r', q))"

subsection \<open>The consumer\<close>

datatype phase = Waiting | Listening | Stopped

record consumer =
  c_begin :: go_time
  c_end :: go_time
  c_phase :: phase
  c_buf :: "string list"

datatype window_err = WindowOver | WindowEmpty

text \<open>\<open>AddChooseItemConsumer\<close>'s checks: \<open>time.Now().After(end)\<close>, then
  \<open>begin == end\<close>; otherwise a consumer is spawned, waiting for \<open>begin\<close>.\<close>

definition add_choose_item_consumer :: "go_time \<Rightarrow> go_time \<Rightarrow> go_time \<Rightarrow> window_err + consumer" where
  "add_choose_item_consumer now b e =
     (if now > e then Inl WindowOver
      else if b = e then Inl WindowEmpty
      else Inr \<lparr>c_begin = b, c_end = e, c_phase = Waiting, c_buf = []\<rparr>)"

text \<open>One message of the receive loop: a malformed message is logged and dropped;
  a failed transaction is logged.\<close>

definition consume_msg :: "(nat \<Rightarrow> bool) \<Rightarrow> go_time \<Rightarrow> string \<Rightarrow> mysql \<Rightarrow> mysql" where
  "consume_msg net now b db =
     (case parse_msg b of None \<Rightarrow> db | Some (u, i) \<Rightarrow> snd (svc_choose_item net u i now db))"

record rsys =
  rs_now :: go_time
  rs_cache :: redis
  rs_db :: mysql
  rs_queue :: "string list"
  rs_consumers :: "consumer list"
  rs_crashed :: bool

text \<open>The steps of the system.  The clock may not pass the end of a listening
  consumer: the consumer's goroutine sleeps exactly until \<open>end\<close> and then closes
  its stop channel.  Until its stop step the receive loop may still take messages
  (Go's \<open>select\<close> chooses at random between a ready delivery and the closed stop
  channel).  A consumer whose \<open>Dial\<close> fails dereferences the nil connection and
  the panic ends the process.\<close>

inductive rstep :: "rsys \<Rightarrow> rsys \<Rightarrow> bool" where
  tick: "\<not> rs_crashed s \<Longrightarrow> rs_now s \<le> t \<Longrightarrow>
    (\<forall>c\<in>set (rs_consumers s). c_phase c = Listening \<longrightarrow> t \<le> c_end c) \<Longrightarrow>
    rstep s (s\<lparr>rs_now := t\<rparr>)"
| publish: "\<not> rs_crashed s \<Longrightarrow> choose_item_publisher net uid iid (rs_cache s) (rs_queue s) = (x, r', q') \<Longrightarrow>
    rstep s (s\<lparr>rs_cache := r', rs_queue := q'\<rparr>)"
| schedule: "\<not> rs_crashed s \<Longrightarrow> add_choose_item_consumer (rs_now s) b e = Inr c \<Longrightarrow>
    rstep s (s\<lparr>rs_consumers := rs_consumers s @ [c]\<rparr>)"
| start: "\<not> rs_crashed s \<Longrightarrow> i < length (rs_consumers s) \<Longrightarrow> c_phase (rs_consumers s ! i) = Waiting \<Longrightarrow>
    c_begin (rs_consumers s ! i) \<le> rs_now s \<Longrightarrow>
    rstep s (s\<lparr>rs_consumers := (rs_consumers s)[i := (rs_consumers s ! i)\<lparr>c_phase := Listening\<rparr>]\<rparr>)"
| start_fail: "\<not> rs_crashed s \<Longrightarrow> i < length (rs_consumers s) \<Longrightarrow> c_phase (rs_consumers s ! i) = Waiting \<Longrightarrow>
    c_begin (rs_consumers s ! i) \<le> rs_now s \<Longrightarrow> rstep s (s\<lparr>rs_crashed := True\<rparr>)"
| deliver: "\<not> rs_crashed s \<Longrightarrow> i < length (rs_consumers s) \<Longrightarrow> c_phase (rs_consumers s ! i) = Listening \<Longrightarrow>
    rs_queue s = m # q \<Longrightarrow>
    rstep s (s\<lparr>rs_queue := q,
               rs_consumers := (rs_consumers s)[i := (rs_consumers s ! i)\<lparr>c_buf := c_buf (rs_consumers s ! i) @ [m]\<rparr>]\<rparr>)"
| process: "\<not> rs_crashed s \<Longrightarrow> i < length (rs_consumers s) \<Longrightarrow> c_phase (rs_consumers s ! i) = Listening \<Longrightarrow>
    c_buf (rs_consumers s ! i) = m # ms \<Longrightarrow>
    rstep s (s\<lparr>rs_db := consume_msg net (rs_now s) m (rs_db s),
               rs_consumers := (rs_consumers s)[i := (rs_consumers s ! i)\<lparr>c_buf := ms\<rparr>]\<rparr>)"
| stop: "\<not> rs_crashed s \<Longrightarrow> i < length (rs_consumers s) \<Longrightarrow> c_phase (rs_consumers s ! i) = Listening \<Longrightarrow>
    c_end (rs_consumers s ! i) \<le> rs_now s \<Longrightarrow>
    rstep s (s\<lparr>rs_consumers := (rs_consumers s)[i := (rs_consumers s ! i)\<lparr>c_phase := Stopped, c_buf := []\<rparr>]\<rparr>)"


subsection \<open>An executable scheduler\<close>

text \<open>The steps of \<open>rstep\<close> as events with their arguments; \<open>run_event\<close> takes a
  step when its guard holds, so that a schedule can be evaluated.\<close>

datatype event =
    ETick go_time
  | EPublish "nat \<Rightarrow> bool" go_int go_int
  | ESchedule go_time go_time
  | EStart nat
  | EStartFail nat
  | EDeliver nat
  | EProcess "nat \<Rightarrow> bool" nat
  | EStop nat

definition run_event :: "event \<Rightarrow> rsys \<Rightarrow> rsys option" where
  "run_event ev s =
     (let cs = rs_consumers s in
      if rs_crashed s then None
      else case ev of
        ETick t \<Rightarrow>
          if rs_now s \<le> t \<and> list_all (\<lambda>c. c_phase c = Listening \<longrightarrow> t \<le> c_end c) cs
          then Some (s\<lparr>rs_now := t\<rparr>) else None
      | EPublish net uid iid \<Rightarrow>
          (case choose_item_publisher net uid iid (rs_cache s) (rs_queue s) of
             (_, r', q') \<Rightarrow> Some (s\<lparr>rs_cache := r', rs_queue := q'\<rparr>))
      | ESchedule b e \<Rightarrow>
          (case add_choose_item_consumer (rs_now s) b e of
             Inl _ \<Rightarrow> None
           | Inr c \<Rightarrow> Some (s\<lparr>rs_consumers := cs @ [c]\<rparr>))
      | EStart i \<Rightarrow>
          if i < length cs \<and> c_phase (cs ! i) = Waiting \<and> c_begin (cs ! i) \<le> rs_now s
          then Some (s\<lparr>rs_consumers := cs[i := (cs ! i)\<lparr>c_phase := Listening\<rparr>]\<rparr>) else None
      | EStartFail i \<Rightarrow>
          if i < length cs \<and> c_phase (cs ! i) = Waiting \<and> c_begin (cs ! i) \<le> rs_now s
          then Some (s\<lparr>rs_crashed := True\<rparr>) else None
      | EDeliver i \<Rightarrow>
          if i < length cs \<and> c_phase (cs ! i) = Listening
          then (case rs_queue s of
                  [] \<Rightarrow> None
                | m # q \<Rightarrow> Some (s\<lparr>rs_queue := q, rs_consumers := cs[i := (cs ! i)\<lparr>c_buf := c_buf (cs ! i) @ [m]\<rparr>]\<rparr>))
          else None
      | EProcess net i \<Rightarrow>
          if i < length cs \<and> c_phase (cs ! i) = Listening
          then (case c_buf (cs ! i) of
                  [] \<Rightarrow> None
                | m # ms \<Rightarrow> Some (s\<lparr>rs_db := consume_msg net (rs_now s) m (rs_db s),
                                    rs_consumers := cs[i := (cs ! i)\<lparr>c_buf := ms\<rparr>]\<rparr>))
          else None
      | EStop i \<Rightarrow>
          if i < length cs \<and> c_phase (cs ! i) = Listening \<and> c_end (cs ! i) \<le> rs_now s
          then Some (s\<lparr>rs_consumers := cs[i := (cs ! i)\<lparr>c_phase := Stopped, c_buf := []\<rparr>]\<rparr>) else None)"

fun run_events :: "event list \<Rightarrow> rsys \<Rightarrow> rsys option" where
  "run_events [] s = Some s"
| "run_events (ev # evs) s = (case run_event ev s of None \<Rightarrow> None | Some s' \<Rightarrow> run_events evs s')"

subsection \<open>Observations of the system\<close>

text \<open>Every consumer that has started began before the current time, and every
  \<open>user_item\<close> row was written at a time no earlier than the begin of a started
  consumer.\<close>

definition resv_inv :: "rsys \<Rightarrow> bool" where
  "resv_inv s \<longleftrightarrow>
     (\<forall>c\<in>set (rs_consumers s). c_phase c \<noteq> Waiting \<longrightarrow> c_begin c \<le> rs_now s)
     \<and> (\<forall>ui\<in>set (user_item_rows (rs_db s)).
          \<exists>c\<in>set (rs_consumers s). c_phase c \<noteq> Waiting \<and> c_begin c \<le> ui_create ui)"

text \<open>User \<open>uid\<close> holds item \<open>iid\<close> in the cache; a message for the pair waits in the
  queue or in a consumer's buffer; MySQL has a row for the pair.\<close>

definition reserved :: "go_int \<Rightarrow> go_int \<Rightarrow> rsys \<Rightarrow> bool" where
  "reserved uid iid s = (case item_members (rs_cache s) iid of Some us \<Rightarrow> itoa uid \<in> set us | None \<Rightarrow> False)"

definition pending :: "go_int \<Rightarrow> go_int \<Rightarrow> rsys \<Rightarrow> bool" where
  "pending uid iid s =
     (list_ex (\<lambda>m. parse_msg m = Some (uid, iid)) (rs_queue s)
      \<or> list_ex (\<lambda>c. list_ex (\<lambda>m. parse_msg m = Some (uid, iid)) (c_buf c)) (rs_consumers s))"

definition persisted :: "go_int \<Rightarrow> go_int \<Rightarrow> rsys \<Rightarrow> bool" where
  "persisted uid iid s = list_ex (\<lambda>ui. ui_user ui = uid \<and> ui_item ui = iid) (user_item_rows (rs_db s))"

text \<open>A reservation is lost when the cache holds it, no message for it is left and
  MySQL has no row for it.\<close>

definition lost :: "go_int \<Rightarrow> go_int \<Rightarrow> rsys \<Rightarrow> bool" where
  "lost uid iid s = (reserved uid iid s \<and> \<not> pending uid iid s \<and> \<not> persisted uid iid s)"

subsection \<open>Fixtures\<close>

text \<open>The item of \<open>Inventory\<close> in the cache and in MySQL, an empty queue, no
  consumer, at time 0.\<close>

definition demo_rs :: rsys where
  "demo_rs = \<lparr>rs_now = 0, rs_cache = snd (add_item_cache True demo_item empty_redis),
              rs_db = empty_db\<lparr>item_rows := [(7, demo_item)]\<rparr>,
              rs_queue = [], rs_consumers = [], rs_crashed = False\<rparr>"

text \<open>A window from 1 to 3; user 1 reserves item 7 at time 2; the broker hands the
  message to the consumer, and the window ends before the consumer takes it.\<close>

definition lost_events :: "event list" where
  "lost_events = [ESchedule 1 3, ETick 1, EStart 0, ETick 2, EPublish (\<lambda>_. True) 1 7,
                  EDeliver 0, ETick 3, EStop 0]"

text \<open>A window whose \<open>begin\<close> (5) lies after its \<open>end\<close> (3): accepted at time 0, it
  starts at 5 and takes a message before its stop step.\<close>

definition late_events :: "event list" where
  "late_events = [ESchedule 5 3, EPublish (\<lambda>_. True) 1 7, ETick 5, EStart 0, EDeliver 0,
                  EProcess (\<lambda>_. True) 0]"


subsection \<open>Messages, transactions and the cache\<close>

lemma parse_msg_msg_body_eq: "parse_msg (msg_body u i) = Some p \<Longrightarrow> p = (u, i)"
  by (auto simp: parse_msg_def msg_body_def split_on_two dest: atoi_itoa_Some split: option.splits)

lemma consume_msg_rows:
  "ui \<in> set (user_item_rows (consume_msg net now m db)) \<Longrightarrow> ui \<in> set (user_item_rows db) \<or> ui_create ui = now"
  by (auto simp: consume_msg_def svc_choose_item_def tx_rollback_def db_insert_user_item_def db_update_item_info_def
      split: if_splits prod.splits sum.splits option.splits)

lemma consume_msg_rows_parse:
  "ui \<in> set (user_item_rows (consume_msg net now m db)) \<Longrightarrow>
     ui \<in> set (user_item_rows db) \<or> parse_msg m = Some (ui_user ui, ui_item ui)"
  by (auto simp: consume_msg_def svc_choose_item_def tx_rollback_def db_insert_user_item_def db_update_item_info_def
      split: if_splits prod.splits sum.splits option.splits)

lemma choose_item_script_users:
  "set_of r ku = Inr us \<Longrightarrow> ku \<noteq> ki \<Longrightarrow>
     \<exists>us'. set_of (snd (choose_item_script ku ki u r)) ku = Inr us' \<and> set us \<subseteq> set us'"
  by (auto simp: choose_item_script_def sismember_srv_def hget_srv_def hincrby_srv_def sadd_srv_def set_of_def
      Let_def split: prod.splits sum.splits bool.splits option.splits rerr.splits if_splits rval.splits)

lemma choose_item_cache_members:
  assumes "item_members r iid = Some us"
  shows "\<exists>us'. item_members (snd (choose_item_cache ok u i r)) iid = Some us' \<and> set us \<subseteq> set us'"
proof (cases "i = iid \<and> ok")
  case True
  have "set_of r (item_users_key iid) = Inr us"
    using assms by (simp add: item_members_def split: sum.splits)
  from choose_item_script_users [OF this, of "item_info_key iid" "itoa u"] True show ?thesis
    by (auto simp: choose_item_cache_state item_members_def key_simps)
next
  case False
  then show ?thesis
    using assms choose_item_cache_other_item(2) [of i iid ok u r]
    by (cases ok) (auto simp: choose_item_cache_state)
qed

lemma choose_item_cache_member_fails:
  "item_members r iid = Some us \<Longrightarrow> itoa uid \<in> set us \<Longrightarrow> fst (choose_item_cache ok uid iid r) \<noteq> Inr ()"
  by (auto simp: choose_item_cache_def choose_item_script_def sismember_srv_def item_members_def call_def
      choose_reply_def split: sum.splits prod.splits if_splits)

subsection \<open>The scheduler and the step relation\<close>

lemma run_event_rstep: "run_event ev s = Some s' \<Longrightarrow> rstep s s'"
  by (cases ev)
     (auto simp: run_event_def Let_def list_all_iff intro: rstep.intros
           split: if_splits prod.splits sum.splits list.splits)

lemma rstep_run_event: "rstep s s' \<Longrightarrow> \<exists>ev. run_event ev s = Some s'"
proof (induction rule: rstep.cases)
  case (tick s t) then show ?case by (intro exI [of _ "ETick t"]) (simp add: run_event_def Let_def list_all_iff)
next
  case (publish s net uid iid x r' q') then show ?case by (intro exI [of _ "EPublish net uid iid"]) (simp add: run_event_def Let_def)
next
  case (schedule s b e c) then show ?case by (intro exI [of _ "ESchedule b e"]) (simp add: run_event_def Let_def)
next
  case (start s i) then show ?case by (intro exI [of _ "EStart i"]) (simp add: run_event_def Let_def)
next
  case (start_fail s i) then show ?case by (intro exI [of _ "EStartFail i"]) (simp add: run_event_def Let_def)
next
  case (deliver s i m q) then show ?case by (intro exI [of _ "EDeliver i"]) (simp add: run_event_def Let_def)
next
  case (process s i m ms net) then show ?case by (intro exI [of _ "EProcess net i"]) (simp add: run_event_def Let_def)
next
  case (stop s i) then show ?case by (intro exI [of _ "EStop i"]) (simp add: run_event_def Let_def)
qed

lemma run_events_rstep: "run_events evs s = Some s' \<Longrightarrow> rstep\<^sup>*\<^sup>* s s'"
  by (induction evs arbitrary: s)
     (auto split: option.splits intro: converse_rtranclp_into_rtranclp run_event_rstep)

subsection \<open>The window invariant\<close>

lemma resv_inv_upd:
  assumes "resv_inv s" "i < length (rs_consumers s)" "c_begin c' = c_begin (rs_consumers s ! i)"
    "c_phase c' \<noteq> Waiting \<Longrightarrow> c_begin c' \<le> rs_now s"
    "c_phase (rs_consumers s ! i) \<noteq> Waiting \<Longrightarrow> c_phase c' \<noteq> Waiting"
  shows "resv_inv (s\<lparr>rs_consumers := (rs_consumers s)[i := c']\<rparr>)"
proof -
  let ?cs = "rs_consumers s"
  have 1: "\<forall>c\<in>set (?cs[i := c']). c_phase c \<noteq> Waiting \<longrightarrow> c_begin c \<le> rs_now s"
    apply (rule ball_set_update)
    using assms by (auto simp: resv_inv_def)
  have 2: "\<exists>c\<in>set (?cs[i := c']). c_phase c \<noteq> Waiting \<and> c_begin c \<le> ui_create ui"
    if "ui \<in> set (user_item_rows (rs_db s))" for ui
    apply (rule bex_set_update)
    using assms that by (auto simp: resv_inv_def)
  show ?thesis using 1 2 by (simp add: resv_inv_def)
qed

lemma resv_inv_db:
  assumes "resv_inv s" "\<exists>c\<in>set (rs_consumers s). c_phase c \<noteq> Waiting"
    "\<And>ui. ui \<in> set (user_item_rows db) \<Longrightarrow> ui \<in> set (user_item_rows (rs_db s)) \<or> ui_create ui = rs_now s"
  shows "resv_inv (s\<lparr>rs_db := db\<rparr>)"
  using assms unfolding resv_inv_def by (metis rsys.select_convs rsys.surjective rsys.update_convs)

lemma resv_inv_started:
  "resv_inv s \<Longrightarrow> i < length (rs_consumers s) \<Longrightarrow> c_phase (rs_consumers s ! i) \<noteq> Waiting \<Longrightarrow>
     c_begin (rs_consumers s ! i) \<le> rs_now s"
  by (simp add: resv_inv_def)

lemma resv_inv_step:
  assumes "rstep s s'" "resv_inv s"
  shows "resv_inv s'"
  using assms(1)
proof cases
  case (tick t)
  with assms(2) show ?thesis unfolding resv_inv_def by (auto intro: order_trans)
next
  case (publish net uid iid x r' q')
  with assms(2) show ?thesis by (simp add: resv_inv_def)
next
  case (schedule b e c)
  with assms(2) show ?thesis by (auto simp: resv_inv_def add_choose_item_consumer_def split: if_splits)
next
  case (start i)
  with assms(2) show ?thesis by (simp add: resv_inv_upd resv_inv_started)
next
  case (start_fail i)
  with assms(2) show ?thesis by (simp add: resv_inv_def)
next
  case (deliver i m q)
  then have "resv_inv (s\<lparr>rs_consumers := (rs_consumers s)[i := (rs_consumers s ! i)\<lparr>c_buf := c_buf (rs_consumers s ! i) @ [m]\<rparr>]\<rparr>)"
    using assms(2) by (simp add: resv_inv_upd resv_inv_started)
  then show ?thesis using deliver(1) by (simp add: resv_inv_def)
next
  case (process i m ms net)
  let ?c = "(rs_consumers s ! i)\<lparr>c_buf := ms\<rparr>"
  let ?s1 = "s\<lparr>rs_consumers := (rs_consumers s)[i := ?c]\<rparr>"
  have "resv_inv ?s1" using process assms(2) by (simp add: resv_inv_upd resv_inv_started)
  moreover have "\<exists>c\<in>set (rs_consumers ?s1). c_phase c \<noteq> Waiting"
    using process(3,4) by (auto intro!: bexI [of _ ?c] simp: set_update_memI)
  ultimately have "resv_inv (?s1\<lparr>rs_db := consume_msg net (rs_now s) m (rs_db s)\<rparr>)"
    by (rule resv_inv_db) (auto dest: consume_msg_rows)
  moreover have "s' = ?s1\<lparr>rs_db := consume_msg net (rs_now s) m (rs_db s)\<rparr>"
    using process(1) by (cases s) simp
  ultimately show ?thesis by simp
next
  case (stop i)
  with assms(2) show ?thesis by (simp add: resv_inv_upd resv_inv_started)
qed

lemma resv_inv_reach: "rstep\<^sup>*\<^sup>* s s' \<Longrightarrow> resv_inv s \<Longrightarrow> resv_inv s'"
  by (induction rule: rtranclp_induct) (auto intro: resv_inv_step)

subsection \<open>Lost reservations\<close>

lemma no_pending_upd:
  assumes "\<not> list_ex P q" "\<not> list_ex (\<lambda>c. list_ex P (c_buf c)) cs" "i < length cs"
    "set (c_buf c') \<subseteq> set (c_buf (cs ! i)) \<union> set q" "set q' \<subseteq> set q"
  shows "\<not> list_ex P q' \<and> \<not> list_ex (\<lambda>c. list_ex P (c_buf c)) (cs[i := c'])"
proof -
  have "\<not> list_ex P (c_buf c')"
    using assms(1,2,4) nth_mem [OF assms(3)] by (force simp: list_ex_iff)
  then show ?thesis
    using assms(1,2,5) set_update_subset_insert [of cs i c'] by (force simp: list_ex_iff)
qed

lemma lost_upd:
  assumes "lost uid iid s" "i < length (rs_consumers s)"
    "set (c_buf c') \<subseteq> set (c_buf (rs_consumers s ! i)) \<union> set (rs_queue s)" "set q' \<subseteq> set (rs_queue s)"
  shows "lost uid iid (s\<lparr>rs_queue := q', rs_consumers := (rs_consumers s)[i := c']\<rparr>)"
  using assms no_pending_upd [of "\<lambda>m. parse_msg m = Some (uid, iid)" "rs_queue s" "rs_consumers s" i c' q']
  by (simp add: lost_def reserved_def pending_def persisted_def)

lemma lost_step:
  assumes "rstep s s'" "lost uid iid s"
  shows "lost uid iid s'"
  using assms(1)
proof cases
  case (tick t)
  with assms(2) show ?thesis by (simp add: lost_def reserved_def pending_def persisted_def)
next
  case (publish net u i x r' q')
  obtain us where us: "item_members (rs_cache s) iid = Some us" "itoa uid \<in> set us"
    using assms(2) by (auto simp: lost_def reserved_def split: option.splits)
  have r': "r' = snd (choose_item_cache (net 0) u i (rs_cache s))"
    using publish(3) by (auto simp: choose_item_publisher_def split: prod.splits sum.splits if_splits)
  have "reserved uid iid s'"
    using choose_item_cache_members [OF us(1), of "net 0" u i] us(2) publish(1) r'
    by (auto simp: reserved_def)
  moreover have "\<not> pending uid iid s'"
  proof
    assume "pending uid iid s'"
    moreover have "q' = rs_queue s \<or> (q' = rs_queue s @ [msg_body u i] \<and> fst (choose_item_cache (net 0) u i (rs_cache s)) = Inr ())"
      using publish(3) by (auto simp: choose_item_publisher_def split: prod.splits sum.splits if_splits)
    ultimately show False
      using assms(2) publish(1) choose_item_cache_member_fails [OF us, of "net 0"]
      by (auto simp: lost_def pending_def dest: parse_msg_msg_body_eq)
  qed
  ultimately show ?thesis using assms(2) publish(1) by (simp add: lost_def persisted_def)
next
  case (schedule b e c)
  with assms(2) show ?thesis
    by (auto simp: lost_def reserved_def pending_def persisted_def add_choose_item_consumer_def split: if_splits)
next
  case (start i)
  then show ?thesis
    using lost_upd [OF assms(2) start(3), of "(rs_consumers s ! i)\<lparr>c_phase := Listening\<rparr>" "rs_queue s"] by simp
next
  case (start_fail i)
  with assms(2) show ?thesis by (simp add: lost_def reserved_def pending_def persisted_def)
next
  case (deliver i m q)
  then show ?thesis
    using lost_upd [OF assms(2) deliver(3), of "(rs_consumers s ! i)\<lparr>c_buf := c_buf (rs_consumers s ! i) @ [m]\<rparr>" q]
    by auto
next
  case (process i m ms net)
  let ?s1 = "s\<lparr>rs_queue := rs_queue s, rs_consumers := (rs_consumers s)[i := (rs_consumers s ! i)\<lparr>c_buf := ms\<rparr>]\<rparr>"
  have l1: "lost uid iid ?s1"
    using lost_upd [OF assms(2) process(3), of "(rs_consumers s ! i)\<lparr>c_buf := ms\<rparr>" "rs_queue s"] process(5)
    by auto
  have m: "parse_msg m \<noteq> Some (uid, iid)"
    using assms(2) process(5) nth_mem [OF process(3)]
    by (force simp: lost_def pending_def list_ex_iff)
  have "\<not> persisted uid iid s'"
    using assms(2) m process(1) by (auto simp: lost_def persisted_def list_ex_iff dest!: consume_msg_rows_parse)
  with l1 process(1) show ?thesis by (simp add: lost_def reserved_def pending_def persisted_def)
next
  case (stop i)
  then show ?thesis
    using lost_upd [OF assms(2) stop(3), of "(rs_consumers s ! i)\<lparr>c_phase := Stopped, c_buf := []\<rparr>" "rs_queue s"]
    by simp
qed


subsection \<open>Properties\<close>

text \<open>C18 (roundtrip).  The consumer parses the publisher's message back into the
  user and the item: \<open>parse_msg (msg_body uid iid) = Some (uid, iid)\<close> for every
  pair of Go ints.\<close>

theorem parse_msg_msg_body:
  "in_int64 uid \<Longrightarrow> in_int64 iid \<Longrightarrow> parse_msg (msg_body uid iid) = Some (uid, iid)"
  by (simp add: parse_msg_def msg_body_def split_on_two atoi_itoa)

theorem parse_msg_msg_body_witness: "parse_msg (msg_body 42 7) = Some (42, 7)"
  using parse_msg_msg_body [of 42 7] by (simp add: in_int64_def)

text \<open>C19 (invariant).  No durable reservation is written before its window: in
  every state reachable from a state without reservation rows and without started
  consumers, each \<open>user_item\<close> row was created at a time no earlier than the
  \<open>begin\<close> of a consumer that has started.  (The scenario of the specification: a
  message published before \<open>begin\<close> is not drained before \<open>begin\<close>.)\<close>

theorem reservations_inside_windows:
  assumes "rstep\<^sup>*\<^sup>* s0 s" "user_item_rows (rs_db s0) = []" "\<forall>c\<in>set (rs_consumers s0). c_phase c = Waiting"
  shows "\<forall>ui\<in>set (user_item_rows (rs_db s)). \<exists>c\<in>set (rs_consumers s). c_phase c \<noteq> Waiting \<and> c_begin c \<le> ui_create ui"
proof -
  have "resv_inv s0" using assms(2,3) by (simp add: resv_inv_def)
  with assms(1) have "resv_inv s" by (rule resv_inv_reach)
  then show ?thesis by (simp add: resv_inv_def)
qed

theorem reservations_inside_windows_witness:
  "list_all (\<lambda>ui. list_ex (\<lambda>c. c_phase c \<noteq> Waiting \<and> c_begin c \<le> ui_create ui)
                       (rs_consumers (the (run_events late_events demo_rs))))
     (user_item_rows (rs_db (the (run_events late_events demo_rs))))"
proof -
  have "run_events late_events demo_rs \<noteq> None" by code_simp
  then have "rstep\<^sup>*\<^sup>* demo_rs (the (run_events late_events demo_rs))" by (auto intro: run_events_rstep)
  moreover have "user_item_rows (rs_db demo_rs) = []" "\<forall>c\<in>set (rs_consumers demo_rs). c_phase c = Waiting"
    by (simp_all add: demo_rs_def empty_db_def)
  ultimately show ?thesis
    using reservations_inside_windows by (simp add: list_all_iff list_ex_iff)
qed

text \<open>C20 (safety).  A lost reservation stays lost: once the cache holds user
  \<open>uid\<close>'s reservation of item \<open>iid\<close>, no message for it is left in the queue or in
  a consumer's buffer, and MySQL has no row for it, then in every later state the
  cache still holds the reservation and MySQL never gets the row (a retry is
  refused by the cache as "already chosen").\<close>

theorem reservation_never_persisted:
  assumes "rstep\<^sup>*\<^sup>* s s'" "lost uid iid s"
  shows "reserved uid iid s' \<and> \<not> persisted uid iid s'"
proof -
  from assms have "lost uid iid s'"
    by (induction rule: rtranclp_induct) (auto intro: lost_step)
  then show ?thesis by (simp add: lost_def)
qed

theorem reservation_never_persisted_witness:
  "reserved 1 7 (the (run_events lost_events demo_rs)) \<and> \<not> persisted 1 7 (the (run_events lost_events demo_rs))"
proof -
  have "lost 1 7 (the (run_events lost_events demo_rs))" by code_simp
  then show ?thesis by (rule reservation_never_persisted [OF rtranclp.rtrancl_refl])
qed

text \<open>Reservations are lost in normal operation: with automatic
  acknowledgement, a message the broker has handed to a consumer is gone from the
  queue, and when the window ends before the consumer takes it, the stop drops it.
  From the fixture (item 7 with stock 2, no consumer), a window from 1 to 3, a
  reservation by user 1 at time 2 and its delivery lead to a state where the
  reservation is lost (C20).  The specification's "in-flight messages at that
  instant are still completed" does not cover delivered, unprocessed messages.\<close>

theorem lost_reservation_reachable: "\<exists>s. rstep\<^sup>*\<^sup>* demo_rs s \<and> lost 1 7 s"
proof -
  have "run_events lost_events demo_rs \<noteq> None" by code_simp
  then obtain s where s: "run_events lost_events demo_rs = Some s" by blast
  have "lost 1 7 (the (run_events lost_events demo_rs))" by code_simp
  with s show ?thesis by (auto dest: run_events_rstep)
qed

theorem lost_reservation_reachable_witness:
  "\<exists>s. rstep\<^sup>*\<^sup>* demo_rs s \<and> reserved 1 7 s \<and> \<not> persisted 1 7 s"
  using lost_reservation_reachable by (auto simp: lost_def)



text \<open>The window check uses \<open>time.Now().After(end)\<close>: a window whose
  end is the current instant is accepted (the specification requires \<open>end\<close>
  strictly after the current time).\<close>

theorem add_consumer_at_end:
  "b \<noteq> e \<Longrightarrow> add_choose_item_consumer e b e = Inr \<lparr>c_begin = b, c_end = e, c_phase = Waiting, c_buf = []\<rparr>"
  by (simp add: add_choose_item_consumer_def)

theorem add_consumer_at_end_witness:
  "add_choose_item_consumer 10 5 10 = Inr \<lparr>c_begin = 5, c_end = 10, c_phase = Waiting, c_buf = []\<rparr>"
  by (rule add_consumer_at_end) simp

text \<open>The durable \<open>ChooseItem\<close> is all-or-nothing: it either inserts
  the \<open>user_item\<close> row and decrements the item's \<open>remain\<close> (with no check of the
  stock or of the item's existence), or it fails and leaves every table as before
  \<open>Begin\<close> (only the auto-increment counter may have moved).\<close>

theorem consumer_tx_all_or_nothing:
  assumes "svc_choose_item net uid iid now db = (x, db')"
  shows "(x = Inr () \<and> db' = snd (db_update_item_info True iid
                (snd (db_insert_user_item True \<lparr>ui_id = 0, ui_user = uid, ui_item = iid, ui_create = now\<rparr> db))))
       \<or> (x \<noteq> Inr () \<and> db' = db\<lparr>user_item_next := user_item_next db'\<rparr>)"
  using assms
  by (auto simp: svc_choose_item_def tx_rollback_def db_insert_user_item_def db_update_item_info_def
      split: if_splits prod.splits sum.splits option.splits)

theorem consumer_tx_all_or_nothing_witness:
  "snd (svc_choose_item (\<lambda>k. k \<noteq> 3) 1 7 2 (rs_db demo_rs)) = (rs_db demo_rs)\<lparr>user_item_next := 2\<rparr>"
proof -
  have "fst (svc_choose_item (\<lambda>k. k \<noteq> 3) 1 7 2 (rs_db demo_rs)) \<noteq> Inr ()" by code_simp
  moreover have "user_item_next (snd (svc_choose_item (\<lambda>k. k \<noteq> 3) 1 7 2 (rs_db demo_rs))) = 2" by code_simp
  ultimately show ?thesis
    using consumer_tx_all_or_nothing [where net = "\<lambda>k. k \<noteq> 3" and uid = 1 and iid = 7 and now = 2
            and db = "rs_db demo_rs", OF prod.collapse [symmetric]]
    by auto
qed

end
