(* ===== verification/Rank.thy ===== *)
theory Rank
  imports Inventory Durable_Store
begin

text \<open>
  The Rank Engine and the follow graph (\<open>internal/user/user_repository/user_cache_repository.go\<close>,
  \<open>internal/user/user_service/user_service.go\<close>): a global sorted set
  \<open>hcl:user:likes\<close> of user like counts, per-user sets of follows and fans, and
  \<open>GetLikesRank\<close>, which intersects the counts with the user's follow set into
  \<open>hcl:user:likesRank:<uid>\<close>, adds the user's own count, reads the result in
  descending order and numbers it from 1.  The service handlers \<open>AddFollows\<close>,
  \<open>RemoveFollows\<close> and \<open>AddLikes\<close> write MySQL inside a transaction and the cache
  outside it.
\<close>

subsection \<open>Keys\<close>

definition follows_key :: "go_int \<Rightarrow> string" where
  "follows_key uid = user_cache_prefix @ '':follows:'' @ itoa uid"

definition fans_key :: "go_int \<Rightarrow> string" where
  "fans_key uid = user_cache_prefix @ '':fans:'' @ itoa uid"

definition likes_key :: string where
  "likes_key = user_cache_prefix @ '':likes''"

definition likes_rank_key :: "go_int \<Rightarrow> string" where
  "likes_rank_key uid = user_cache_prefix @ '':likesRank:'' @ itoa uid"

subsection \<open>The cache repository\<close>

definition add_follows_cache :: "bool \<Rightarrow> user_follow \<Rightarrow> redis \<Rightarrow> unit rres" where
  "add_follows_cache ok f r = call ok (sadd_srv (follows_key (uf_user f)) (itoa (uf_follow f))) r"

definition add_fans_cache :: "bool \<Rightarrow> user_follow \<Rightarrow> redis \<Rightarrow> unit rres" where
  "add_fans_cache ok f r = call ok (sadd_srv (fans_key (uf_follow f)) (itoa (uf_user f))) r"

definition remove_follows_cache :: "bool \<Rightarrow> go_int \<Rightarrow> go_int \<Rightarrow> redis \<Rightarrow> unit rres" where
  "remove_follows_cache ok u f r = call ok (srem_srv (follows_key u) (itoa f)) r"

definition remove_fans_cache :: "bool \<Rightarrow> go_int \<Rightarrow> go_int \<Rightarrow> redis \<Rightarrow> unit rres" where
  "remove_fans_cache ok u f r = call ok (srem_srv (fans_key f) (itoa u)) r"

text \<open>\<open>GetCommonFollows\<close>: \<open>SINTER\<close> of the user's follows and the other user's fans,
  each member converted with \<open>strconv.Atoi\<close> (the first failure is the error).\<close>

definition atoi_all :: "string list \<Rightarrow> go_int list option" where
  "atoi_all ms = those (map atoi ms)"

definition get_common_follows :: "bool \<Rightarrow> go_int \<Rightarrow> go_int \<Rightarrow> redis \<Rightarrow> rerr + go_int list option" where
  "get_common_follows ok u ou r =
     (case fst (call ok (sinter_srv (follows_key u) (fans_key ou)) r) of
        Inl e \<Rightarrow> Inl e
      | Inr ms \<Rightarrow> Inr (atoi_all ms))"

text \<open>\<open>UserCacheRepository.AddLikes\<close>: \<open>ZINCRBY hcl:user:likes score id\<close>.\<close>

definition add_user_likes_cache :: "bool \<Rightarrow> go_int \<Rightarrow> int \<Rightarrow> redis \<Rightarrow> int rres" where
  "add_user_likes_cache ok uid score r = call ok (zincrby_srv likes_key score (itoa uid)) r"

text \<open>\<open>UserLikeRank\<close>, as \<open>GetLikesRank\<close> fills it (the type itself is not part of the
  source tree).\<close>

record user_like_rank =
  ulr_user :: go_int
  ulr_likes :: int
  ulr_rank :: nat

datatype rank_err = RankRedis rerr | RankParse

text \<open>The loop over the descending result: the members are numbered from \<open>r\<close> on.\<close>

fun number_ranks :: "nat \<Rightarrow> (string \<times> int) list \<Rightarrow> rank_err + user_like_rank list" where
  "number_ranks r [] = Inr []"
| "number_ranks r ((m, s) # ms) =
     (case atoi m of
        None \<Rightarrow> Inl RankParse
      | Some u \<Rightarrow> (case number_ranks (Suc r) ms of
                    Inl e \<Rightarrow> Inl e
                  | Inr rs \<Rightarrow> Inr (\<lparr>ulr_user = u, ulr_likes = s, ulr_rank = r\<rparr> # rs)))"

text \<open>\<open>GetLikesRank\<close>.  Requests: \<open>ZSCORE\<close> of the user (0), whose error is ignored
  (\<open>userLikeCount.Val()\<close> is 0 then), \<open>ZINTERSTORE\<close> with weights 1 and 0 (1), \<open>ZADD\<close>
  of the user's own count (2), \<open>ZREVRANGE WITHSCORES\<close> (3).\<close>

definition get_likes_rank :: "(nat \<Rightarrow> bool) \<Rightarrow> go_int \<Rightarrow> redis \<Rightarrow> (rank_err + user_like_rank list) \<times> redis" where
  "get_likes_rank net uid r =
     (let own = (case fst (call (net 0) (zscore_srv likes_key (itoa uid)) r) of Inl _ \<Rightarrow> 0 | Inr v \<Rightarrow> v) in
      case call (net 1) (zinterstore_srv (likes_rank_key uid) likes_key (follows_key uid) 1 0) r of
        (Inl e, r1) \<Rightarrow> (Inl (RankRedis e), r1)
      | (Inr _, r1) \<Rightarrow>
          (case call (net 2) (zadd_srv (likes_rank_key uid) own (itoa uid)) r1 of
             (Inl e, r2) \<Rightarrow> (Inl (RankRedis e), r2)
           | (Inr _, r2) \<Rightarrow>
               (case fst (call (net 3) (zrevrange_srv (likes_rank_key uid)) r2) of
                  Inl e \<Rightarrow> (Inl (RankRedis e), r2)
                | Inr desc \<Rightarrow> (number_ranks 1 desc, r2))))"

text \<open>What \<open>GetLikesRank\<close> promises, as a set of (user, likes) pairs: the user with
  the count the global set holds for them (0 when absent), and every followed user
  present in the global set with their count.\<close>

definition rank_abs :: "(string \<times> int) list \<Rightarrow> string list \<Rightarrow> go_int \<Rightarrow> (go_int \<times> int) set" where
  "rank_abs zl fs uid =
     insert (uid, case map_of zl (itoa uid) of None \<Rightarrow> 0 | Some v \<Rightarrow> v)
       ((\<lambda>(m, s). (the (atoi m), s)) ` {(m, s) \<in> set zl. m \<in> set fs \<and> m \<noteq> itoa uid})"

subsection \<open>The service handlers\<close>

datatype user_err = UserDb dberr | UserCache rerr

type_synonym 'a ures = "(user_err + 'a) \<times> mysql \<times> redis"

text \<open>\<open>UserService.AddFollows\<close>: \<open>Begin\<close> (0), the follow row (1), the follows set
  (2), the fans set (3), \<open>Commit\<close> (4).  A cache write is not undone when a later
  step fails.\<close>

definition svc_add_follows :: "(nat \<Rightarrow> bool) \<Rightarrow> user_follow \<Rightarrow> mysql \<Rightarrow> redis \<Rightarrow> unit ures" where
  "svc_add_follows net f db r =
     (if \<not> net 0 then (Inl (UserDb DbConn), db, r)
      else case db_add_follow (net 1) f db of
        (Inl e, db1) \<Rightarrow> (Inl (UserDb e), tx_rollback db db1, r)
      | (Inr _, db1) \<Rightarrow>
          (case add_follows_cache (net 2) f r of
             (Inl e, r1) \<Rightarrow> (Inl (UserCache e), tx_rollback db db1, r1)
           | (Inr _, r1) \<Rightarrow>
               (case add_fans_cache (net 3) f r1 of
                  (Inl e, r2) \<Rightarrow> (Inl (UserCache e), tx_rollback db db1, r2)
                | (Inr _, r2) \<Rightarrow>
                    if \<not> net 4 then (Inl (UserDb DbConn), tx_rollback db db1, r2) else (Inr (), db1, r2))))"

text \<open>\<open>UserService.RemoveFollows\<close>, with the same structure.\<close>

definition svc_remove_follows :: "(nat \<Rightarrow> bool) \<Rightarrow> go_int \<Rightarrow> go_int \<Rightarrow> mysql \<Rightarrow> redis \<Rightarrow> unit ures" where
  "svc_remove_follows net u f db r =
     (if \<not> net 0 then (Inl (UserDb DbConn), db, r)
      else case db_remove_follows (net 1) u f db of
        (Inl e, db1) \<Rightarrow> (Inl (UserDb e), tx_rollback db db1, r)
      | (Inr _, db1) \<Rightarrow>
          (case remove_follows_cache (net 2) u f r of
             (Inl e, r1) \<Rightarrow> (Inl (UserCache e), tx_rollback db db1, r1)
           | (Inr _, r1) \<Rightarrow>
               (case remove_fans_cache (net 3) u f r1 of
                  (Inl e, r2) \<Rightarrow> (Inl (UserCache e), tx_rollback db db1, r2)
                | (Inr _, r2) \<Rightarrow>
                    if \<not> net 4 then (Inl (UserDb DbConn), tx_rollback db db1, r2) else (Inr (), db1, r2))))"

text \<open>\<open>UserService.AddLikes\<close>: \<open>Begin\<close> (0), \<open>ZINCRBY\<close> by 1 (1), the \<open>likes\<close> column
  (2), \<open>Commit\<close> (3).\<close>

definition svc_add_user_likes :: "(nat \<Rightarrow> bool) \<Rightarrow> go_int \<Rightarrow> mysql \<Rightarrow> redis \<Rightarrow> unit ures" where
  "svc_add_user_likes net uid db r =
     (if \<not> net 0 then (Inl (UserDb DbConn), db, r)
      else case add_user_likes_cache (net 1) uid 1 r of
        (Inl e, r1) \<Rightarrow> (Inl (UserCache e), db, r1)
      | (Inr _, r1) \<Rightarrow>
          (case db_add_user_likes (net 2) uid db of
             (Inl e, db2) \<Rightarrow> (Inl (UserDb e), tx_rollback db db2, r1)
           | (Inr _, db2) \<Rightarrow>
               if \<not> net 3 then (Inl (UserDb DbConn), tx_rollback db db2, r1) else (Inr (), db2, r1)))"

subsection \<open>Fixture\<close>

text \<open>User 1 follows users 2 and 3; the global counts are 5, 9, 2 and 7 for users
  1 to 4.\<close>

definition demo_user :: "go_int \<Rightarrow> go_int \<Rightarrow> user" where
  "demo_user i n = \<lparr>us_id = i, us_name = ''user'' @ itoa i, us_phone = ''1380000000'' @ itoa i, us_manager = 0,
                     us_created = 0, us_avatar = [], us_bio = [], us_likes = n\<rparr>"

definition rank_db :: mysql where
  "rank_db = empty_db\<lparr>user_rows := [(1, demo_user 1 5), (2, demo_user 2 9)], user_next := 3\<rparr>"

definition demo_follow :: user_follow where
  "demo_follow = \<lparr>uf_id = 1, uf_user = 1, uf_follow = 4, uf_create = 0\<rparr>"

definition rank_demo :: redis where
  "rank_demo = \<lparr>data = [(likes_key, RZSet [(''1'', 5), (''2'', 9), (''3'', 2), (''4'', 7)]),
                        (follows_key 1, RSet [''2'', ''3''])], volatile = {}\<rparr>"

subsection \<open>Ranking\<close>

lemma number_ranks_shape:
  "number_ranks r ms = Inr rs \<Longrightarrow> map ulr_rank rs = [r..<r + length ms] \<and> map ulr_likes rs = map snd ms"
proof (induction r ms arbitrary: rs rule: number_ranks.induct)
  case (1 r) then show ?case by simp
next
  case (2 r m s ms)
  have "[r..<r + length ((m, s) # ms)] = r # [Suc r..<Suc r + length ms]"
    by (subst upt_conv_Cons) auto
  with 2 show ?case by (auto split: option.splits sum.splits)
qed

lemma number_ranks_mem:
  "number_ranks r ms = Inr rs \<Longrightarrow> (m, s) \<in> set ms \<Longrightarrow>
     \<exists>x\<in>set rs. atoi m = Some (ulr_user x) \<and> ulr_likes x = s"
  by (induction r ms arbitrary: rs rule: number_ranks.induct)
     (fastforce split: option.splits sum.splits)+

lemma number_ranks_set:
  "number_ranks r ms = Inr rs \<Longrightarrow>
     set (map (\<lambda>x. (ulr_user x, ulr_likes x)) rs) = (\<lambda>(m, s). (the (atoi m), s)) ` set ms"
proof (induction r ms arbitrary: rs rule: number_ranks.induct)
  case (1 r) then show ?case by simp
next
  case (2 r m s ms)
  then obtain u rs' where "atoi m = Some u" "number_ranks (Suc r) ms = Inr rs'"
    "rs = \<lparr>ulr_user = u, ulr_likes = s, ulr_rank = r\<rparr> # rs'"
    by (auto split: option.splits sum.splits)
  with 2(1) show ?case by simp
qed

lemma number_ranks_total:
  "list_all (\<lambda>(m, s). atoi m \<noteq> None) ms \<Longrightarrow> \<exists>rs. number_ranks r ms = Inr rs"
  by (induction r ms rule: number_ranks.induct) (auto split: option.splits sum.splits)

text \<open>A successful \<open>GetLikesRank\<close> numbered the descending read of a sorted set that
  holds the user with the count the \<open>ZSCORE\<close> step produced.\<close>

lemma get_likes_rank_Inr:
  assumes "get_likes_rank net uid r = (Inr ranks, r')"
  shows "\<exists>z. lookup r' (likes_rank_key uid) = Some (RZSet z) \<and> map_of z (itoa uid) =
               Some (case fst (call (net 0) (zscore_srv likes_key (itoa uid)) r) of Inl _ \<Rightarrow> 0 | Inr v \<Rightarrow> v)
             \<and> number_ranks 1 (rev (sort_key (\<lambda>(m, s). (s, m)) z)) = Inr ranks"
  using assms
  by (auto simp: get_likes_rank_def call_def zadd_srv_def zrevrange_srv_def zset_of_def Let_def update_conv'
      split: if_splits prod.splits sum.splits option.splits rval.splits)

lemma get_likes_rank_own:
  assumes "get_likes_rank net uid r = (Inr ranks, r')"
  shows "\<exists>x\<in>set ranks. ulr_user x = uid \<and>
           ulr_likes x = (case fst (call (net 0) (zscore_srv likes_key (itoa uid)) r) of Inl _ \<Rightarrow> 0 | Inr v \<Rightarrow> v)"
proof -
  obtain z where z: "lookup r' (likes_rank_key uid) = Some (RZSet z)" "map_of z (itoa uid) =
      Some (case fst (call (net 0) (zscore_srv likes_key (itoa uid)) r) of Inl _ \<Rightarrow> 0 | Inr v \<Rightarrow> v)"
    "number_ranks 1 (rev (sort_key (\<lambda>(m, s). (s, m)) z)) = Inr ranks"
    using get_likes_rank_Inr [OF assms] by blast
  from z(2) have "(itoa uid, case fst (call (net 0) (zscore_srv likes_key (itoa uid)) r) of Inl _ \<Rightarrow> 0 | Inr v \<Rightarrow> v)
      \<in> set (rev (sort_key (\<lambda>(m, s). (s, m)) z))"
    by (simp add: map_of_SomeD)
  from number_ranks_mem [OF z(3) this] show ?thesis
    by (auto dest: atoi_itoa_Some)
qed

lemma zinterstore_rank:
  "[(m, 1 * s1 + 0 * the (map_of (map (\<lambda>m. (m, 1::int)) fs) m)). (m, s1) \<leftarrow> zl, m \<in> fst ` set (map (\<lambda>m. (m, 1)) fs)]
   = filter (\<lambda>(m, s). m \<in> set fs) zl"
  by (induction zl) (auto simp: image_image)

text \<open>With every request answered, \<open>GetLikesRank\<close> numbers the descending read of
  the followed part of the global set, with the user's own count added.\<close>

lemma get_likes_rank_ok:
  assumes "lookup r likes_key = Some (RZSet zl)" "lookup r (follows_key uid) = Some (RSet fs)"
  shows "fst (get_likes_rank (\<lambda>_. True) uid r) =
     number_ranks 1 (rev (sort_key (\<lambda>(m, s). (s, m))
       (AList.update (itoa uid) (case map_of zl (itoa uid) of None \<Rightarrow> 0 | Some v \<Rightarrow> v)
          (filter (\<lambda>(m, s). m \<in> set fs) zl))))"
proof -
  let ?z = "filter (\<lambda>(m, s). m \<in> set fs) zl"
  let ?k = "likes_rank_key uid"
  let ?own = "case map_of zl (itoa uid) of None \<Rightarrow> 0 | Some v \<Rightarrow> v"
  define r1 where "r1 = (if ?z = [] then remove_key ?k r else store ?k (RZSet ?z) (remove_key ?k r))"
  have i: "zinterstore_srv ?k likes_key (follows_key uid) 1 0 r = (Inr (length ?z), r1)"
  proof -
    have "zsource_of r likes_key = Inr zl" "zsource_of r (follows_key uid) = Inr (map (\<lambda>m. (m, 1)) fs)"
      using assms by (simp_all add: zsource_of_def)
    then show ?thesis
      by (simp only: zinterstore_srv_def sum.case Let_def zinterstore_rank) (simp add: r1_def)
  qed
  have z1: "zset_of r1 ?k = Inr ?z" by (simp add: r1_def zset_of_def)
  have own: "(case fst (call True (zscore_srv likes_key (itoa uid)) r) of Inl _ \<Rightarrow> 0 | Inr v \<Rightarrow> v) = ?own"
    using assms(1) by (simp add: call_def zscore_srv_def zset_of_def split: option.splits)
  show ?thesis
    using i z1 own by (simp add: get_likes_rank_def call_def zadd_srv_def zrevrange_srv_def zset_of_def Let_def)
qed

subsection \<open>Properties of the Rank Engine\<close>

text \<open>C25 (safety).  Whatever the store holds and whichever requests fail, a rank
  list that \<open>GetLikesRank\<close> returns contains the requesting user.\<close>

theorem rank_includes_self:
  assumes "get_likes_rank net uid r = (Inr ranks, r')"
  shows "uid \<in> set (map ulr_user ranks)"
  using get_likes_rank_own [OF assms] by auto

theorem rank_includes_self_witness:
  "get_likes_rank (\<lambda>_. True) 1 rank_demo =
     (Inr [\<lparr>ulr_user = 2, ulr_likes = 9, ulr_rank = 1\<rparr>, \<lparr>ulr_user = 1, ulr_likes = 5, ulr_rank = 2\<rparr>,
           \<lparr>ulr_user = 3, ulr_likes = 2, ulr_rank = 3\<rparr>], snd (get_likes_rank (\<lambda>_. True) 1 rank_demo))
   \<and> (1::go_int) \<in> set (map ulr_user [\<lparr>ulr_user = 2, ulr_likes = 9, ulr_rank = 1\<rparr>,
        \<lparr>ulr_user = 1, ulr_likes = 5, ulr_rank = 2\<rparr>, \<lparr>ulr_user = 3, ulr_likes = 2, ulr_rank = 3\<rparr>])"
proof -
  have h: "get_likes_rank (\<lambda>_. True) 1 rank_demo =
     (Inr [\<lparr>ulr_user = 2, ulr_likes = 9, ulr_rank = 1\<rparr>, \<lparr>ulr_user = 1, ulr_likes = 5, ulr_rank = 2\<rparr>,
           \<lparr>ulr_user = 3, ulr_likes = 2, ulr_rank = 3\<rparr>], snd (get_likes_rank (\<lambda>_. True) 1 rank_demo))"
    by code_simp
  show ?thesis using h rank_includes_self [OF h] by blast
qed

text \<open>C26 (refinement).  When every request is answered, the global set holds
  distinct, numeric members and the user's follow set is a set, \<open>GetLikesRank\<close>
  returns a list whose (user, likes) pairs are exactly \<open>rank_abs\<close>: the user with
  their global count, and every followed user that has a count.\<close>

theorem rank_refines:
  assumes "lookup r likes_key = Some (RZSet zl)" "distinct (map fst zl)"
    "list_all (\<lambda>(m, s). atoi m \<noteq> None) zl"
    "lookup r (follows_key uid) = Some (RSet fs)" "in_int64 uid"
  shows "\<exists>ranks. fst (get_likes_rank (\<lambda>_. True) uid r) = Inr ranks
           \<and> set (map (\<lambda>x. (ulr_user x, ulr_likes x)) ranks) = rank_abs zl fs uid"
proof -
  let ?own = "case map_of zl (itoa uid) of None \<Rightarrow> 0 | Some v \<Rightarrow> v"
  let ?z = "filter (\<lambda>(m, s). m \<in> set fs) zl"
  let ?z' = "AList.update (itoa uid) ?own ?z"
  have d: "distinct (map fst ?z)" using assms(2) by (simp add: distinct_map_filter)
  have parse: "list_all (\<lambda>(m, s). atoi m \<noteq> None) (rev (sort_key (\<lambda>(m, s). (s, m)) ?z'))"
    using assms(3,5) set_update_distinct_keys [OF d, of "itoa uid" ?own]
    by (auto simp: list_all_iff atoi_itoa)
  obtain ranks where rk: "number_ranks 1 (rev (sort_key (\<lambda>(m, s). (s, m)) ?z')) = Inr ranks"
    using number_ranks_total [OF parse] by blast
  have "set (map (\<lambda>x. (ulr_user x, ulr_likes x)) ranks) = (\<lambda>(m, s). (the (atoi m), s)) ` set ?z'"
    using number_ranks_set [OF rk] by simp
  also have "\<dots> = rank_abs zl fs uid"
    using set_update_distinct_keys [OF d, of "itoa uid" ?own] assms(5)
    by (auto simp: rank_abs_def atoi_itoa image_iff)
  finally show ?thesis using get_likes_rank_ok [OF assms(1,4)] rk by auto
qed

theorem rank_refines_witness:
  "\<exists>ranks. fst (get_likes_rank (\<lambda>_. True) 1 rank_demo) = Inr ranks
     \<and> set (map (\<lambda>x. (ulr_user x, ulr_likes x)) ranks)
       = rank_abs [(''1'', 5), (''2'', 9), (''3'', 2), (''4'', 7)] [''2'', ''3''] 1"
  by (rule rank_refines) code_simp+

text \<open>C27 (functional).  A returned rank list is numbered densely from 1 in list
  order, and its like counts are in descending order.\<close>

theorem rank_dense_descending:
  assumes "get_likes_rank net uid r = (Inr ranks, r')"
  shows "map ulr_rank ranks = [1..<Suc (length ranks)] \<and> sorted_wrt (\<ge>) (map ulr_likes ranks)"
proof -
  obtain z where z: "number_ranks 1 (rev (sort_key (\<lambda>(m, s). (s, m)) z)) = Inr ranks"
    using get_likes_rank_Inr [OF assms] by blast
  from number_ranks_shape [OF z] have
    "map ulr_rank ranks = [1..<1 + length (rev (sort_key (\<lambda>(m, s). (s, m)) z))]"
    "map ulr_likes ranks = map snd (rev (sort_key (\<lambda>(m, s). (s, m)) z))" by auto
  moreover from this(1) have "length ranks = length (rev (sort_key (\<lambda>(m, s). (s, m)) z))"
    by (metis length_map length_upt add_diff_cancel_left')
  ultimately show ?thesis using zrevrange_desc [of z] by simp
qed

theorem rank_dense_descending_witness:
  "get_likes_rank (\<lambda>_. True) 1 rank_demo =
     (Inr [\<lparr>ulr_user = 2, ulr_likes = 9, ulr_rank = 1\<rparr>, \<lparr>ulr_user = 1, ulr_likes = 5, ulr_rank = 2\<rparr>,
           \<lparr>ulr_user = 3, ulr_likes = 2, ulr_rank = 3\<rparr>], snd (get_likes_rank (\<lambda>_. True) 1 rank_demo))
   \<and> map ulr_rank [\<lparr>ulr_user = 2, ulr_likes = 9, ulr_rank = 1\<rparr>, \<lparr>ulr_user = 1, ulr_likes = 5, ulr_rank = 2\<rparr>,
           \<lparr>ulr_user = 3, ulr_likes = (2::int), ulr_rank = 3\<rparr>]
       = [1..<Suc (length [\<lparr>ulr_user = 2, ulr_likes = 9, ulr_rank = 1\<rparr>,
           \<lparr>ulr_user = 1, ulr_likes = 5, ulr_rank = 2\<rparr>, \<lparr>ulr_user = 3, ulr_likes = (2::int), ulr_rank = 3\<rparr>])]
   \<and> sorted_wrt (\<ge>) (map ulr_likes [\<lparr>ulr_user = 2, ulr_likes = 9, ulr_rank = 1\<rparr>,
           \<lparr>ulr_user = 1, ulr_likes = 5, ulr_rank = 2\<rparr>, \<lparr>ulr_user = 3, ulr_likes = (2::int), ulr_rank = 3\<rparr>])"
proof -
  have h: "get_likes_rank (\<lambda>_. True) 1 rank_demo =
     (Inr [\<lparr>ulr_user = 2, ulr_likes = 9, ulr_rank = 1\<rparr>, \<lparr>ulr_user = 1, ulr_likes = 5, ulr_rank = 2\<rparr>,
           \<lparr>ulr_user = 3, ulr_likes = 2, ulr_rank = 3\<rparr>], snd (get_likes_rank (\<lambda>_. True) 1 rank_demo))"
    by code_simp
  show ?thesis using h rank_dense_descending [OF h] by blast
qed

text \<open>When the \<open>ZSCORE\<close> of the user fails, \<open>GetLikesRank\<close> does not
  return the error: it goes on with \<open>userLikeCount.Val() = 0\<close>, so a successful
  result lists the user with 0 likes, whatever the global set holds.\<close>

theorem rank_self_zero_on_zscore_failure:
  assumes "\<not> net 0" "get_likes_rank net uid r = (Inr ranks, r')"
  shows "(uid, 0) \<in> set (map (\<lambda>x. (ulr_user x, ulr_likes x)) ranks)"
  using get_likes_rank_own [OF assms(2)] assms(1) by (force simp: call_def)

theorem rank_self_zero_on_zscore_failure_witness:
  "fst (zscore_srv likes_key (itoa 1) rank_demo) = Inr 5
   \<and> get_likes_rank (\<lambda>n. n \<noteq> 0) 1 rank_demo =
     (Inr [\<lparr>ulr_user = 2, ulr_likes = 9, ulr_rank = 1\<rparr>, \<lparr>ulr_user = 3, ulr_likes = 2, ulr_rank = 2\<rparr>,
           \<lparr>ulr_user = 1, ulr_likes = 0, ulr_rank = 3\<rparr>], snd (get_likes_rank (\<lambda>n. n \<noteq> 0) 1 rank_demo))
   \<and> ((1::go_int), (0::int)) \<in> set (map (\<lambda>x. (ulr_user x, ulr_likes x))
        [\<lparr>ulr_user = 2, ulr_likes = 9, ulr_rank = 1\<rparr>, \<lparr>ulr_user = 3, ulr_likes = 2, ulr_rank = 2\<rparr>,
         \<lparr>ulr_user = 1, ulr_likes = 0, ulr_rank = 3\<rparr>])"
proof -
  have z: "fst (zscore_srv likes_key (itoa 1) rank_demo) = Inr 5" by code_simp
  have h: "get_likes_rank (\<lambda>n. n \<noteq> 0) 1 rank_demo =
     (Inr [\<lparr>ulr_user = 2, ulr_likes = 9, ulr_rank = 1\<rparr>, \<lparr>ulr_user = 3, ulr_likes = 2, ulr_rank = 2\<rparr>,
           \<lparr>ulr_user = 1, ulr_likes = 0, ulr_rank = 3\<rparr>], snd (get_likes_rank (\<lambda>n. n \<noteq> 0) 1 rank_demo))"
    by code_simp
  have "\<not> (0::nat) \<noteq> 0" by simp
  from rank_self_zero_on_zscore_failure [OF this h] z h show ?thesis by blast
qed

subsection \<open>The follow and like handlers\<close>

lemma follows_fans_key_neq [simp]: "follows_key u \<noteq> fans_key v" "fans_key v \<noteq> follows_key u"
  by (simp_all add: follows_key_def fans_key_def)

lemma svc_add_user_likes_db_fails:
  assumes "svc_add_user_likes net uid db r = (res, db', r')" "net 0" "net 1" "\<not> net 2"
    "zset_of r likes_key = Inr z"
  shows "res = Inl (UserDb DbConn) \<and> db' = db
     \<and> r' = store likes_key (RZSet (AList.update (itoa uid) (case map_of z (itoa uid) of None \<Rightarrow> 1 | Some s \<Rightarrow> s + 1) z)) r"
  using assms by (auto simp: svc_add_user_likes_def add_user_likes_cache_def call_def zincrby_srv_def
      db_add_user_likes_def Let_def)

lemma svc_add_user_likes_ok:
  assumes "net 0" "net 1" "net 2" "net 3" "zset_of r likes_key = Inr z" "map_of (user_rows db) uid = Some u"
  shows "svc_add_user_likes net uid db r =
     (Inr (), db\<lparr>user_rows := AList.update uid (u\<lparr>us_likes := us_likes u + 1\<rparr>) (user_rows db)\<rparr>,
      store likes_key (RZSet (AList.update (itoa uid) (case map_of z (itoa uid) of None \<Rightarrow> 1 | Some s \<Rightarrow> s + 1) z)) r)"
  using assms by (simp add: svc_add_user_likes_def add_user_likes_cache_def call_def zincrby_srv_def
      db_add_user_likes_def Let_def)

lemma zscore_store_update:
  "fst (zscore_srv k m (store k (RZSet (AList.update m v z)) r)) = Inr v"
  by (simp add: zscore_srv_def zset_of_def update_conv')

lemma zset_of_store_same: "zset_of (store k (RZSet z) r) k = Inr z"
  by (simp add: zset_of_def)

subsection \<open>Properties of the follow and like handlers\<close>

text \<open>Retrying a failed \<open>AddLikes\<close> makes the two stores disagree for
  good: after a call whose MySQL write fails and a retry that succeeds, MySQL counts
  one like more and the ranking set two more.\<close>

theorem add_likes_retry_double_counts:
  assumes "svc_add_user_likes net1 uid db r = (res1, db1, r1)" "net1 0" "net1 1" "\<not> net1 2"
    "svc_add_user_likes net2 uid db1 r1 = (res2, db2, r2)" "net2 0" "net2 1" "net2 2" "net2 3"
    "zset_of r likes_key = Inr z" "map_of z (itoa uid) = Some m" "user_likes_of db uid = Some n"
  shows "res1 \<noteq> Inr () \<and> res2 = Inr () \<and> user_likes_of db2 uid = Some (n + 1)
     \<and> fst (zscore_srv likes_key (itoa uid) r2) = Inr (m + 2)"
proof -
  have s1: "res1 = Inl (UserDb DbConn)" "db1 = db"
    "r1 = store likes_key (RZSet (AList.update (itoa uid) (m + 1) z)) r"
    using svc_add_user_likes_db_fails [OF assms(1-4,10)] assms(11) by simp_all
  obtain u where u: "map_of (user_rows db) uid = Some u" "us_likes u = n"
    using assms(12) by (auto simp: user_likes_of_def)
  have "svc_add_user_likes net2 uid db1 r1 =
     (Inr (), db\<lparr>user_rows := AList.update uid (u\<lparr>us_likes := n + 1\<rparr>) (user_rows db)\<rparr>,
      store likes_key (RZSet (AList.update (itoa uid) (m + 1 + 1) (AList.update (itoa uid) (m + 1) z))) r1)"
    using svc_add_user_likes_ok [OF assms(6-9) _ u(1), where z = "AList.update (itoa uid) (m + 1) z"] s1 u(2)
    by (simp add: zset_of_store_same update_conv')
  with assms(5) have "res2 = Inr ()" "db2 = db\<lparr>user_rows := AList.update uid (u\<lparr>us_likes := n + 1\<rparr>) (user_rows db)\<rparr>"
    "r2 = store likes_key (RZSet (AList.update (itoa uid) (m + 2) (AList.update (itoa uid) (m + 1) z))) r1"
    by (simp_all add: add.assoc)
  then show ?thesis using s1(1) by (simp add: zscore_store_update update_conv' user_likes_of_def)
qed

theorem add_likes_retry_double_counts_witness:
  "fst (svc_add_user_likes (\<lambda>n. n \<noteq> 2) 1 rank_db rank_demo) \<noteq> Inr ()
   \<and> fst (svc_add_user_likes (\<lambda>_. True) 1 (fst (snd (svc_add_user_likes (\<lambda>n. n \<noteq> 2) 1 rank_db rank_demo)))
          (snd (snd (svc_add_user_likes (\<lambda>n. n \<noteq> 2) 1 rank_db rank_demo)))) = Inr ()
   \<and> user_likes_of (fst (snd (svc_add_user_likes (\<lambda>_. True) 1 (fst (snd (svc_add_user_likes (\<lambda>n. n \<noteq> 2) 1 rank_db rank_demo)))
          (snd (snd (svc_add_user_likes (\<lambda>n. n \<noteq> 2) 1 rank_db rank_demo)))))) 1 = Some (5 + 1)
   \<and> fst (zscore_srv likes_key (itoa 1) (snd (snd (svc_add_user_likes (\<lambda>_. True) 1
          (fst (snd (svc_add_user_likes (\<lambda>n. n \<noteq> 2) 1 rank_db rank_demo)))
          (snd (snd (svc_add_user_likes (\<lambda>n. n \<noteq> 2) 1 rank_db rank_demo))))))) = Inr (5 + 2)"
proof -
  have z: "zset_of rank_demo likes_key = Inr [(''1'', 5), (''2'', 9), (''3'', 2), (''4'', 7)]" by code_simp
  have m: "map_of [(''1'', 5), (''2'', 9), (''3'', 2), (''4'', (7::int))] (itoa 1) = Some 5" by code_simp
  have n: "user_likes_of rank_db 1 = Some 5" by (simp add: rank_db_def user_likes_of_def demo_user_def empty_db_def)
  have f: "(\<lambda>n::nat. n \<noteq> 2) 0" "(\<lambda>n::nat. n \<noteq> 2) 1" "\<not> (\<lambda>n::nat. n \<noteq> 2) 2" by simp_all
  have t: "(\<lambda>_::nat. True) 0" "(\<lambda>_::nat. True) 1" "(\<lambda>_::nat. True) 2" "(\<lambda>_::nat. True) 3" by simp_all
  show ?thesis
    using add_likes_retry_double_counts [OF prod_collapse3 f prod_collapse3 t z m n]
    by simp
qed

text \<open>\<open>AddFollows\<close> writes both Redis sets before it commits.  When
  the commit fails the follow row is gone with the transaction, but the follow and
  fan set entries stay, so the cache reports a follow MySQL does not hold.\<close>

theorem add_follows_commit_failure_keeps_cache:
  assumes "svc_add_follows net f db r = (res, db', r')" "net 0" "net 1" "net 2" "net 3" "\<not> net 4"
    "set_of r (follows_key (uf_user f)) = Inr s1" "set_of r (fans_key (uf_follow f)) = Inr s2"
  shows "res = Inl (UserDb DbConn) \<and> follow_rows db' = follow_rows db
     \<and> fst (sismember_srv (follows_key (uf_user f)) (itoa (uf_follow f)) r') = Inr True
     \<and> fst (sismember_srv (fans_key (uf_follow f)) (itoa (uf_user f)) r') = Inr True"
  using assms
  by (auto simp: svc_add_follows_def db_add_follow_def add_follows_cache_def add_fans_cache_def call_def
      sadd_srv_def sismember_srv_def set_of_def)

theorem add_follows_commit_failure_keeps_cache_witness:
  "fst (svc_add_follows (\<lambda>n. n \<noteq> 4) demo_follow rank_db rank_demo) = Inl (UserDb DbConn)
   \<and> follow_rows (fst (snd (svc_add_follows (\<lambda>n. n \<noteq> 4) demo_follow rank_db rank_demo))) = follow_rows rank_db
   \<and> fst (sismember_srv (follows_key (uf_user demo_follow)) (itoa (uf_follow demo_follow))
         (snd (snd (svc_add_follows (\<lambda>n. n \<noteq> 4) demo_follow rank_db rank_demo)))) = Inr True
   \<and> fst (sismember_srv (fans_key (uf_follow demo_follow)) (itoa (uf_user demo_follow))
         (snd (snd (svc_add_follows (\<lambda>n. n \<noteq> 4) demo_follow rank_db rank_demo)))) = Inr True"
proof -
  have s: "set_of rank_demo (follows_key (uf_user demo_follow)) = Inr [''2'', ''3'']"
    "set_of rank_demo (fans_key (uf_follow demo_follow)) = Inr []" by code_simp+
  have f: "(\<lambda>n::nat. n \<noteq> 4) 0" "(\<lambda>n::nat. n \<noteq> 4) 1" "(\<lambda>n::nat. n \<noteq> 4) 2" "(\<lambda>n::nat. n \<noteq> 4) 3"
    "\<not> (\<lambda>n::nat. n \<noteq> 4) 4" by simp_all
  show ?thesis by (rule add_follows_commit_failure_keeps_cache [OF prod_collapse3 f s])
qed

end
