(* ===== verification/Code_Store.thy ===== *)
theory Code_Store
  imports Go_Prelude
begin

text \<open>
  The verification-code store (\<open>internal/user/user_repository/user_memorydb_repository.go\<close>):
  two Go maps, \<open>codeMap\<close> from a phone number to its \<open>UserCode\<close> and \<open>timerMap\<close>
  from a phone number to the \<open>time.Timer\<close> that deletes it.  \<open>AddCode\<close> stops the
  previous timer of the number (when \<open>Stop\<close> reports it was still pending), stores
  the code and arms a new \<open>time.AfterFunc\<close> whose callback deletes both entries of
  the number; \<open>ValidateCode\<close> compares and, on a match, deletes both entries
  without stopping the timer.

  The Go runtime's timers are part of the state: a list indexed by timer id, each
  with the phone its callback captured, its deadline and whether it is armed,
  expired (its callback started in its own goroutine but has not run yet), ran, or
  stopped.  The events of the system are the two requests, the passing of time,
  a timer expiring, and an expired timer's callback running; \<open>creach\<close> is the set of
  states reachable from the empty store.  Each event is atomic, as if the
  commented-out per-number lock were in place.
\<close>

subsection \<open>State\<close>

text \<open>\<open>UserCode\<close>, as \<open>SendCode\<close> and \<open>Login\<close> fill it (the type itself is not part of
  the source tree).\<close>

record user_code =
  uc_code :: string
  uc_phone :: string

datatype timer_state = Armed | Expired | Ran | Stopped

record timer =
  tm_phone :: string
  tm_deadline :: int
  tm_state :: timer_state

record code_store =
  code_map :: "string \<rightharpoonup> user_code"
  timer_map :: "string \<rightharpoonup> nat"
  timers :: "timer list"
  clock :: int

definition empty_code_store :: code_store where
  "empty_code_store = \<lparr>code_map = Map.empty, timer_map = Map.empty, timers = [], clock = 0\<rparr>"

datatype code_err = ErrWrongCode | ErrNoCode

subsection \<open>The repository\<close>

text \<open>\<open>Timer.Stop\<close>: true, and the timer is stopped, when it has not expired yet.\<close>

definition timer_stop :: "nat \<Rightarrow> code_store \<Rightarrow> bool \<times> code_store" where
  "timer_stop t s =
     (if t < length (timers s) \<and> tm_state (timers s ! t) = Armed
      then (True, s\<lparr>timers := (timers s)[t := (timers s ! t)\<lparr>tm_state := Stopped\<rparr>]\<rparr>)
      else (False, s))"

text \<open>\<open>UserMemoryDBRepository.AddCode\<close>; it never returns an error.\<close>

definition add_code :: "user_code \<Rightarrow> int \<Rightarrow> code_store \<Rightarrow> code_store" where
  "add_code uc interval s =
     (let p = uc_phone uc;
          s1 = (case timer_map s p of
                  None \<Rightarrow> s
                | Some t \<Rightarrow> (case timer_stop t s of
                              (True, s') \<Rightarrow> s'\<lparr>timer_map := (timer_map s')(p := None)\<rparr>
                            | (False, s') \<Rightarrow> s'));
          s2 = s1\<lparr>code_map := (code_map s1)(p \<mapsto> uc)\<rparr>;
          t = length (timers s2)
      in s2\<lparr>timers := timers s2 @ [\<lparr>tm_phone = p, tm_deadline = clock s2 + interval, tm_state = Armed\<rparr>],
            timer_map := (timer_map s2)(p \<mapsto> t)\<rparr>)"

text \<open>\<open>UserMemoryDBRepository.ValidateCode\<close>.\<close>

definition validate_code :: "string \<Rightarrow> string \<Rightarrow> code_store \<Rightarrow> (code_err + unit) \<times> code_store" where
  "validate_code code p s =
     (case code_map s p of
        Some uc \<Rightarrow>
          if uc_code uc = code
          then (Inr (), s\<lparr>code_map := (code_map s)(p := None), timer_map := (timer_map s)(p := None)\<rparr>)
          else (Inl ErrWrongCode, s)
      | None \<Rightarrow> (Inl ErrNoCode, s))"

text \<open>The callback of the \<open>time.AfterFunc\<close> created by \<open>AddCode\<close>: it deletes the
  entries of the number it captured, whatever they hold by then.\<close>

definition timer_callback :: "string \<Rightarrow> code_store \<Rightarrow> code_store" where
  "timer_callback p s = s\<lparr>code_map := (code_map s)(p := None), timer_map := (timer_map s)(p := None)\<rparr>"

subsection \<open>Events\<close>

datatype code_event =
    SendCode user_code int
  | Validate string string
  | Advance int
  | Fire nat
  | RunCallback nat

text \<open>One event; \<open>None\<close> when it is not enabled (time runs forward, a timer expires
  at or after its deadline, only an expired timer's callback runs).\<close>

definition code_step :: "code_event \<Rightarrow> code_store \<Rightarrow> ((code_err + unit) \<times> code_store) option" where
  "code_step e s =
     (case e of
        SendCode uc interval \<Rightarrow> Some (Inr (), add_code uc interval s)
      | Validate code p \<Rightarrow> Some (validate_code code p s)
      | Advance d \<Rightarrow> if 0 \<le> d then Some (Inr (), s\<lparr>clock := clock s + d\<rparr>) else None
      | Fire t \<Rightarrow>
          if t < length (timers s) \<and> tm_state (timers s ! t) = Armed \<and> tm_deadline (timers s ! t) \<le> clock s
          then Some (Inr (), s\<lparr>timers := (timers s)[t := (timers s ! t)\<lparr>tm_state := Expired\<rparr>]\<rparr>)
          else None
      | RunCallback t \<Rightarrow>
          if t < length (timers s) \<and> tm_state (timers s ! t) = Expired
          then Some (Inr (), timer_callback (tm_phone (timers s ! t))
                               (s\<lparr>timers := (timers s)[t := (timers s ! t)\<lparr>tm_state := Ran\<rparr>]\<rparr>))
          else None)"

fun code_run :: "code_event list \<Rightarrow> code_store \<Rightarrow> ((code_err + unit) list \<times> code_store) option" where
  "code_run [] s = Some ([], s)"
| "code_run (e # es) s =
     (case code_step e s of
        None \<Rightarrow> None
      | Some (r, s') \<Rightarrow> (case code_run es s' of None \<Rightarrow> None | Some (rs, s'') \<Rightarrow> Some (r # rs, s'')))"

inductive creach :: "code_store \<Rightarrow> bool" where
  init: "creach empty_code_store"
| step: "creach s \<Longrightarrow> code_step e s = Some (r, s') \<Longrightarrow> creach s'"

text \<open>The invariant: \<open>timerMap\<close> points to a timer of the same number, and every
  stored code has a live (armed or expired) timer of its number.\<close>

definition live :: "timer_state \<Rightarrow> bool" where
  "live st \<longleftrightarrow> st = Armed \<or> st = Expired"

definition code_inv :: "code_store \<Rightarrow> bool" where
  "code_inv s \<longleftrightarrow>
     (\<forall>p t. timer_map s p = Some t \<longrightarrow> t < length (timers s) \<and> tm_phone (timers s ! t) = p)
   \<and> (\<forall>p. code_map s p \<noteq> None \<longrightarrow>
          (\<exists>t < length (timers s). tm_phone (timers s ! t) = p \<and> live (tm_state (timers s ! t))))"

subsection \<open>Fixture\<close>

definition demo_code :: user_code where
  "demo_code = \<lparr>uc_code = ''123456'', uc_phone = ''13800000000''\<rparr>"

definition demo_code2 :: user_code where
  "demo_code2 = \<lparr>uc_code = ''654321'', uc_phone = ''13800000000''\<rparr>"

subsection \<open>The invariant\<close>

lemma code_inv_empty: "code_inv empty_code_store"
  by (simp add: code_inv_def empty_code_store_def)

lemma add_code_simps:
  "code_map (add_code uc i s) = (code_map s)(uc_phone uc \<mapsto> uc)"
  "clock (add_code uc i s) = clock s"
  by (simp_all add: add_code_def Let_def timer_stop_def split: option.splits)

lemma add_code_timers:
  "\<exists>ts. timers (add_code uc i s) = ts @ [\<lparr>tm_phone = uc_phone uc, tm_deadline = clock s + i, tm_state = Armed\<rparr>]
      \<and> length ts = length (timers s)
      \<and> (\<forall>t < length ts. tm_phone (ts ! t) = tm_phone (timers s ! t)
           \<and> (tm_state (ts ! t) = tm_state (timers s ! t)
              \<or> (timer_map s (uc_phone uc) = Some t \<and> tm_state (ts ! t) = Stopped)))"
  by (auto simp: add_code_def Let_def timer_stop_def nth_list_update split: option.splits)

lemma add_code_timer_map:
  "timer_map (add_code uc i s) = (timer_map s)(uc_phone uc \<mapsto> length (timers s))"
  by (auto simp: add_code_def Let_def timer_stop_def split: option.splits)

lemma code_inv_add_code: "code_inv s \<Longrightarrow> code_inv (add_code uc i s)"
proof -
  assume inv: "code_inv s"
  obtain ts where ts: "timers (add_code uc i s) = ts @ [\<lparr>tm_phone = uc_phone uc, tm_deadline = clock s + i, tm_state = Armed\<rparr>]"
    "length ts = length (timers s)"
    "\<forall>t < length ts. tm_phone (ts ! t) = tm_phone (timers s ! t)
           \<and> (tm_state (ts ! t) = tm_state (timers s ! t)
              \<or> (timer_map s (uc_phone uc) = Some t \<and> tm_state (ts ! t) = Stopped))"
    using add_code_timers by blast
  show ?thesis
    unfolding code_inv_def
  proof (rule conjI; intro allI impI)
    fix p t assume "timer_map (add_code uc i s) p = Some t"
    then show "t < length (timers (add_code uc i s)) \<and> tm_phone (timers (add_code uc i s) ! t) = p"
      using inv ts by (auto simp: add_code_timer_map code_inv_def nth_append split: if_splits)
  next
    fix p assume c: "code_map (add_code uc i s) p \<noteq> None"
    show "\<exists>t < length (timers (add_code uc i s)). tm_phone (timers (add_code uc i s) ! t) = p
            \<and> live (tm_state (timers (add_code uc i s) ! t))"
    proof (cases "p = uc_phone uc")
      case True
      then show ?thesis using ts(1)
        by (intro exI [of _ "length ts"]) (simp add: live_def)
    next
      case False
      with c have "code_map s p \<noteq> None" by (simp add: add_code_simps)
      with inv obtain t where t: "t < length (timers s)" "tm_phone (timers s ! t) = p" "live (tm_state (timers s ! t))"
        by (auto simp: code_inv_def)
      have "tm_phone (ts ! t) = p" "tm_state (ts ! t) = tm_state (timers s ! t)"
        using ts(2,3) t False inv by (auto simp: code_inv_def live_def)
      with t ts(1,2) show ?thesis
        by (intro exI [of _ t]) (simp add: nth_append)
    qed
  qed
qed

lemma code_inv_validate: "code_inv s \<Longrightarrow> code_inv (snd (validate_code c p s))"
  by (auto simp: code_inv_def validate_code_def split: option.splits if_splits)

lemma code_inv_timer_update:
  assumes "code_inv s" "t < length (timers s)" "live st"
  shows "code_inv (s\<lparr>timers := (timers s)[t := (timers s ! t)\<lparr>tm_state := st\<rparr>]\<rparr>)"
  using assms unfolding code_inv_def
  by (fastforce simp: nth_list_update)

lemma code_inv_run_callback:
  assumes "code_inv s" "t < length (timers s)" "tm_state (timers s ! t) = Expired"
  shows "code_inv (timer_callback (tm_phone (timers s ! t))
                    (s\<lparr>timers := (timers s)[t := (timers s ! t)\<lparr>tm_state := Ran\<rparr>]\<rparr>))"
    (is "code_inv ?s")
proof -
  let ?q = "tm_phone (timers s ! t)"
  have f: "timer_map ?s = (timer_map s)(?q := None)" "code_map ?s = (code_map s)(?q := None)"
    "timers ?s = (timers s)[t := (timers s ! t)\<lparr>tm_state := Ran\<rparr>]"
    by (simp_all add: timer_callback_def)
  show ?thesis unfolding code_inv_def
  proof (rule conjI; intro allI impI)
    fix p u assume "timer_map ?s p = Some u"
    with assms(1,2) show "u < length (timers ?s) \<and> tm_phone (timers ?s ! u) = p"
      unfolding f by (auto simp: code_inv_def nth_list_update split: if_splits)
  next
    fix p assume "code_map ?s p \<noteq> None"
    then have q: "p \<noteq> ?q" "code_map s p \<noteq> None" unfolding f by (auto split: if_splits)
    with assms(1) obtain u where u: "u < length (timers s)" "tm_phone (timers s ! u) = p" "live (tm_state (timers s ! u))"
      by (auto simp: code_inv_def)
    with q(1) have "u \<noteq> t" by auto
    with u show "\<exists>u < length (timers ?s). tm_phone (timers ?s ! u) = p \<and> live (tm_state (timers ?s ! u))"
      unfolding f by (intro exI [of _ u]) simp
  qed
qed

lemma code_inv_step: "code_inv s \<Longrightarrow> code_step e s = Some (r, s') \<Longrightarrow> code_inv s'"
proof (cases e)
  case (SendCode uc i)
  then show "code_inv s \<Longrightarrow> code_step e s = Some (r, s') \<Longrightarrow> code_inv s'"
    by (auto simp: code_step_def intro: code_inv_add_code)
next
  case (Validate c p)
  then show "code_inv s \<Longrightarrow> code_step e s = Some (r, s') \<Longrightarrow> code_inv s'"
    using code_inv_validate [of s c p] by (auto simp: code_step_def)
next
  case (Advance d)
  then show "code_inv s \<Longrightarrow> code_step e s = Some (r, s') \<Longrightarrow> code_inv s'"
    by (auto simp: code_step_def code_inv_def split: if_splits)
next
  case (Fire t)
  then show "code_inv s \<Longrightarrow> code_step e s = Some (r, s') \<Longrightarrow> code_inv s'"
    by (auto simp: code_step_def live_def split: if_splits intro!: code_inv_timer_update)
next
  case (RunCallback t)
  then show "code_inv s \<Longrightarrow> code_step e s = Some (r, s') \<Longrightarrow> code_inv s'"
    by (auto simp: code_step_def split: if_splits intro!: code_inv_run_callback)
qed

lemma creach_code_inv: "creach s \<Longrightarrow> code_inv s"
  by (induction rule: creach.induct) (auto intro: code_inv_empty code_inv_step)

lemma code_run_creach: "code_run es s = Some (rs, s') \<Longrightarrow> creach s \<Longrightarrow> creach s'"
proof (induction es arbitrary: s rs)
  case Nil then show ?case by simp
next
  case (Cons e es)
  then obtain r s1 rs' where "code_step e s = Some (r, s1)" "code_run es s1 = Some (rs', s')"
    by (auto split: option.splits)
  moreover from this(1) have "creach s1" by (rule creach.step [OF Cons.prems(2)])
  ultimately show ?case using Cons.IH by blast
qed

subsection \<open>Properties of the code store\<close>

text \<open>C32 (invariant).  In every reachable state each stored code has a timer of
  its number that is still armed or whose callback is still to run: no code stays
  in \<open>codeMap\<close> with nothing left to delete it.\<close>

theorem stored_code_has_live_timer:
  assumes "creach s" "code_map s p = Some uc"
  shows "\<exists>t < length (timers s). tm_phone (timers s ! t) = p \<and> tm_state (timers s ! t) \<in> {Armed, Expired}"
  using creach_code_inv [OF assms(1)] assms(2) by (force simp: code_inv_def live_def)

theorem stored_code_has_live_timer_witness:
  "\<exists>t < length (timers (add_code demo_code 120 empty_code_store)).
     tm_phone (timers (add_code demo_code 120 empty_code_store) ! t) = ''13800000000''
     \<and> tm_state (timers (add_code demo_code 120 empty_code_store) ! t) \<in> {Armed, Expired}"
proof -
  have r: "creach (add_code demo_code 120 empty_code_store)"
    by (rule creach.step [OF creach.init, of "SendCode demo_code 120"]) (simp add: code_step_def)
  have c: "code_map (add_code demo_code 120 empty_code_store) ''13800000000'' = Some demo_code"
    by (simp add: add_code_simps demo_code_def)
  show ?thesis by (rule stored_code_has_live_timer [OF r c])
qed



text \<open>C34 (roundtrip).  A code stored by \<open>AddCode\<close> validates once: the first
  \<open>ValidateCode\<close> with it succeeds and deletes it, the second finds no code.\<close>

theorem code_single_use:
  "fst (validate_code (uc_code uc) (uc_phone uc) (add_code uc i s)) = Inr ()
   \<and> fst (validate_code (uc_code uc) (uc_phone uc) (snd (validate_code (uc_code uc) (uc_phone uc) (add_code uc i s))))
     = Inl ErrNoCode"
  by (simp add: validate_code_def add_code_simps)

text \<open>C35 (safety).  \<open>ValidateCode\<close> deletes the number's timer entry without
  stopping the timer.  When the number is sent a new code within the old code's
  lifetime, the old timer still fires and its callback deletes the new code: a
  code sent at time \<open>d\<close> with lifetime \<open>i\<close> is reported missing at time \<open>i\<close>, before
  its deadline \<open>d + i\<close>.\<close>

theorem resend_after_login_expires_early:
  assumes "uc_phone uc1 = p" "uc_phone uc2 = p" "0 < d" "d < i"
  shows "\<exists>rs s'. code_run [SendCode uc1 i, Validate (uc_code uc1) p, Advance d, SendCode uc2 i,
                           Advance (i - d), Fire (length (timers s)), RunCallback (length (timers s)),
                           Validate (uc_code uc2) p] s = Some (rs, s')
           \<and> last rs = Inl ErrNoCode \<and> clock s' < clock s + d + i"
proof -
  let ?t = "length (timers s)"
  define s1 where "s1 = add_code uc1 i s"
  have s1: "code_map s1 p = Some uc1" "timers s1 ! ?t = \<lparr>tm_phone = p, tm_deadline = clock s + i, tm_state = Armed\<rparr>"
    "length (timers s1) = Suc ?t" "clock s1 = clock s"
    using add_code_timers [of uc1 i s] assms(1) by (auto simp: s1_def add_code_simps nth_append)
  define s2 where "s2 = snd (validate_code (uc_code uc1) p s1)"
  have s2: "validate_code (uc_code uc1) p s1 = (Inr (), s2)" "timer_map s2 p = None" "timers s2 = timers s1" "clock s2 = clock s"
    using s1 by (simp_all add: s2_def validate_code_def)
  define s3 where "s3 = add_code uc2 i (s2\<lparr>clock := clock s2 + d\<rparr>)"
  have s3: "timers s3 ! ?t = timers s1 ! ?t" "?t < length (timers s3)" "clock s3 = clock s + d"
    using add_code_timers [of uc2 i "s2\<lparr>clock := clock s2 + d\<rparr>"] s1 s2 assms(2)
    by (auto simp: s3_def add_code_simps nth_append add_code_def Let_def)
  define s4 where "s4 = s3\<lparr>clock := clock s3 + (i - d)\<rparr>"
  define s5 where "s5 = s4\<lparr>timers := (timers s4)[?t := (timers s4 ! ?t)\<lparr>tm_state := Expired\<rparr>]\<rparr>"
  define s6 where "s6 = timer_callback p (s5\<lparr>timers := (timers s5)[?t := (timers s5 ! ?t)\<lparr>tm_state := Ran\<rparr>]\<rparr>)"
  have h: "code_step (SendCode uc1 i) s = Some (Inr (), s1)"
    "code_step (Validate (uc_code uc1) p) s1 = Some (Inr (), s2)"
    "code_step (Advance d) s2 = Some (Inr (), s2\<lparr>clock := clock s2 + d\<rparr>)"
    "code_step (SendCode uc2 i) (s2\<lparr>clock := clock s2 + d\<rparr>) = Some (Inr (), s3)"
    "code_step (Advance (i - d)) s3 = Some (Inr (), s4)"
    "code_step (Fire ?t) s4 = Some (Inr (), s5)"
    "code_step (RunCallback ?t) s5 = Some (Inr (), s6)"
    "code_step (Validate (uc_code uc2) p) s6 = Some (Inl ErrNoCode, s6)"
    using assms s1 s2 s3
    by (simp_all add: code_step_def s1_def s3_def s4_def s5_def s6_def validate_code_def timer_callback_def)
  have "clock s6 = clock s + i"
    using s3 by (simp add: s4_def s5_def s6_def timer_callback_def)
  with h assms(3) show ?thesis by simp
qed

theorem resend_after_login_expires_early_witness:
  "\<exists>rs s'. code_run [SendCode demo_code 120, Validate (uc_code demo_code) ''13800000000'', Advance 60,
                      SendCode demo_code2 120, Advance (120 - 60), Fire (length (timers empty_code_store)),
                      RunCallback (length (timers empty_code_store)), Validate (uc_code demo_code2) ''13800000000'']
                     empty_code_store = Some (rs, s')
     \<and> last rs = Inl ErrNoCode \<and> clock s' < clock empty_code_store + 60 + 120"
  by (rule resend_after_login_expires_early) (simp_all add: demo_code_def demo_code2_def)

end
