(* ===== verification/Http_Layer.thy ===== *)
theory Http_Layer
  imports Article_Service Reservation Rank Code_Store
begin

text \<open>
  The HTTP layer: \<open>common/error_handler/user_err_handler.go\<close> (\<open>HandleUserError\<close>),
  \<open>response/result.go\<close>, and the gin handlers of
  \<open>internal/article/article_controller/article_controller.go\<close> and
  \<open>internal/user/user_controller/user_controller.go\<close> whose services the library
  models.  A handler is a function from the request (path parameter, the user id
  the JWT middleware stored) and the state to the list of responses it writes
  with \<open>c.JSON\<close>, in order, and the new state.

  \<open>HandleUserError\<close> picks the HTTP status by searching the error message for the
  keys of a Go map with \<open>strings.Contains\<close>, in the map's iteration order, which
  Go leaves unspecified: the order is an explicit argument \<open>ord\<close>, any permutation
  of \<open>error_mapping\<close>.  Messages are built as the code builds them with
  \<open>fmt.Errorf\<close>; the text of an error that comes from a library (go-redis,
  gorm, amqp, the \<open>time\<close> package) or from a service whose message depends on
  which request failed is the argument \<open>emsg\<close> of the handler.
\<close>

subsection \<open>\<open>HandleUserError\<close>\<close>

record error_type =
  et_code :: int
  et_message :: string

definition err_unknown :: error_type where "err_unknown = \<lparr>et_code = 9999, et_message = ''Unknown''\<rparr>"
definition err_bad_request :: error_type where "err_bad_request = \<lparr>et_code = 400, et_message = ''Bad Request''\<rparr>"
definition err_internal :: error_type where "err_internal = \<lparr>et_code = 500, et_message = ''Internal Error''\<rparr>"
definition err_unauthorized :: error_type where "err_unauthorized = \<lparr>et_code = 401, et_message = ''Unauthorized''\<rparr>"
definition err_forbidden :: error_type where "err_forbidden = \<lparr>et_code = 403, et_message = ''Forbidden''\<rparr>"

text \<open>\<open>errorMapping\<close>, in the order of the literal.\<close>

definition error_mapping :: "(string \<times> error_type) list" where
  "error_mapping = [(''401'', err_unauthorized), (''500'', err_internal), (''400'', err_bad_request),
                    (''403'', err_forbidden)]"

text \<open>\<open>strings.Contains\<close>: the substring occurs at some position.\<close>

fun contains :: "string \<Rightarrow> string \<Rightarrow> bool" where
  "contains sub [] \<longleftrightarrow> sub = []"
| "contains sub (c # cs) \<longleftrightarrow> prefix sub (c # cs) \<or> contains sub cs"

text \<open>The \<open>for key, value := range errorMapping\<close> loop with its \<open>break\<close>, starting
  from the zero \<open>ErrorType\<close>.\<close>

fun first_match :: "string \<Rightarrow> (string \<times> error_type) list \<Rightarrow> error_type" where
  "first_match msg [] = \<lparr>et_code = 0, et_message = []\<rparr>"
| "first_match msg ((k, v) # kvs) = (if contains k msg then v else first_match msg kvs)"

text \<open>A Go map's iteration order: any permutation of its entries.\<close>

definition map_order :: "(string \<times> error_type) list \<Rightarrow> bool" where
  "map_order ord \<longleftrightarrow> distinct ord \<and> set ord = set error_mapping"

text \<open>The JSON bodies: \<open>gin.H{code, msg, data: nil}\<close> of \<open>HandleUserError\<close> and
  \<open>response.Result{Code, Message, Data}\<close>, and the header-only write of gin's
  \<open>AbortWithError\<close>; a response is its status and body.  Only the first write
  of a request sets the status; later writes append their bodies.\<close>

datatype 'a json = ErrJson int string | ResultJson int string "'a option" | NoBody

type_synonym 'a http_resp = "int \<times> 'a json"

definition handle_user_error :: "(string \<times> error_type) list \<Rightarrow> string \<Rightarrow> 'a http_resp" where
  "handle_user_error ord msg =
     (let et = first_match msg ord;
          et' = (if et_code et = 0 then err_unknown else et)
      in (et_code et', ErrJson (et_code et') (et_message et')))"

subsection \<open>\<open>response\<close>\<close>

definition new_result :: "int \<Rightarrow> string \<Rightarrow> 'a option \<Rightarrow> 'a json" where
  "new_result code message d = ResultJson code message d"

definition success :: "'a \<Rightarrow> 'a json" where
  "success d = new_result 1 ''success'' (Some d)"

definition success_without_data :: "'a json" where
  "success_without_data = new_result 1 ''success'' None"

subsection \<open>Request parameters\<close>

text \<open>\<open>strconv.Quote\<close> on the text a path parameter holds: the string in double
  quotes, with quotes and backslashes escaped.\<close>

definition go_quote :: "string \<Rightarrow> string" where
  "go_quote s = CHR 0x22 # concat (map (\<lambda>c. if c = CHR 0x22 \<or> c = CHR 0x5C then [CHR 0x5C, c] else [c]) s)
                 @ [CHR 0x22]"

text \<open>The text of the \<open>*strconv.NumError\<close> of a failed \<open>strconv.Atoi\<close>.\<close>

definition atoi_err_text :: "string \<Rightarrow> string" where
  "atoi_err_text s = ''strconv.Atoi: parsing '' @ go_quote s @ '': ''
                     @ (if parse_decimal s = None then ''invalid syntax'' else ''value out of range'')"

text \<open>\<open>c.BindJSON(&article)\<close> into a pointer: a decoding error (gin then writes
  the status 400 at once with \<open>AbortWithError\<close>), the literal \<open>null\<close> (no error,
  the pointer stays nil), or an article.\<close>

datatype 'a bind_result = BindErr string | BindNull | BindOk 'a

text \<open>\<open>ArticleConfig.KindMap\<close> and \<open>utils.ValidateArticleKind\<close>.\<close>

definition article_kinds :: "string list" where
  "article_kinds = [utf8 [0x751F, 0x6D3B, 0x670D, 0x52A1], utf8 [0x533B, 0x7597, 0x6551, 0x52A9],
                    utf8 [0x6CD5, 0x5F8B, 0x54A8, 0x8BE2], utf8 [0x5FC3, 0x7406, 0x54A8, 0x8BE2],
                    utf8 [0x6559, 0x80B2, 0x6C42, 0x52A9], utf8 [0x5176, 0x4ED6]]"

definition validate_article_kind :: "string \<Rightarrow> bool" where
  "validate_article_kind k \<longleftrightarrow> k \<in> set article_kinds"

text \<open>\<open>utils.ValidatePhoneNumber\<close>: \<open>^1[3-9]\d{9}$\<close>.\<close>

definition validate_phone_number :: "string \<Rightarrow> bool" where
  "validate_phone_number p \<longleftrightarrow>
     length p = 11 \<and> hd p = CHR ''1'' \<and> CHR ''3'' \<le> p ! 1 \<and> p ! 1 \<le> CHR ''9'' \<and> list_all is_digit (drop 2 p)"

subsection \<open>Handler outcomes\<close>

text \<open>What a handler writes: the responses of its \<open>c.JSON\<close> calls in order, and
  whether it panicked (a nil dereference, recovered by gin's \<open>Recovery\<close>).\<close>

type_synonym 'a handler_out = "'a http_resp list \<times> bool"

subsection \<open>Article handlers\<close>

definition to_int_failed_text :: "string \<Rightarrow> string" where
  "to_int_failed_text name = utf8 [0x5C06] @ name @ utf8 [0x8F6C, 0x6362, 0x4E3A] @ ''int'' @ utf8 [0x5931, 0x8D25] @ '':''"

definition bind_failed_text :: string where
  "bind_failed_text = utf8 [0x5C06] @ ''json'' @ utf8 [0x6570, 0x636E, 0x7ED1, 0x5B9A, 0x5230, 0x7ED3, 0x6784, 0x4F53, 0x5931, 0x8D25] @ '':''"

text \<open>\<open>ArticleController.AddArticle\<close>; \<open>emsg\<close> is the text of the service's error.\<close>

definition ctrl_add_article ::
  "(string \<times> error_type) list \<Rightarrow> (svc_err \<Rightarrow> string) \<Rightarrow> (nat \<Rightarrow> bool) \<Rightarrow> article bind_result \<Rightarrow> go_int \<Rightarrow> go_time
   \<Rightarrow> sys \<Rightarrow> unit handler_out \<times> sys" where
  "ctrl_add_article ord emsg net body mid now s =
     (case body of
        BindErr t \<Rightarrow> (([(400, NoBody), handle_user_error ord (''ArticleController.AddArticle err: 400:'' @ bind_failed_text @ t)], False), s)
      | BindNull \<Rightarrow> (([], True), s)
      | BindOk a \<Rightarrow>
          if \<not> validate_article_kind (art_kind a)
          then (([handle_user_error ord (''ArticleController.AddArticle err: 400:''
                                          @ utf8 [0x6587, 0x7AE0, 0x7C7B, 0x578B, 0x9519, 0x8BEF])], False), s)
          else (case svc_add_article net a mid now s of
                  (Inl e, s') \<Rightarrow> (([handle_user_error ord (''ArticleController.AddArticle err: 500: '' @ emsg e)], False), s')
                | (Inr _, s') \<Rightarrow> (([(200, success_without_data)], False), s')))"

definition ctrl_get_article ::
  "(string \<times> error_type) list \<Rightarrow> (svc_err \<Rightarrow> string) \<Rightarrow> (nat \<Rightarrow> bool) \<Rightarrow> string \<Rightarrow> sys \<Rightarrow> article handler_out \<times> sys" where
  "ctrl_get_article ord emsg net param s =
     (case atoi param of
        None \<Rightarrow> (([handle_user_error ord (''ArticleController.GetArticle err: 400: '' @ to_int_failed_text ''articleID''
                                        @ atoi_err_text param)], False), s)
      | Some aid \<Rightarrow>
          (case svc_get_article net aid s of
             (Inl e, s') \<Rightarrow> (([handle_user_error ord (''ArticleController.GetArticle err: 500: '' @ emsg e)], False), s')
           | (Inr a, s') \<Rightarrow> (([(200, success a)], False), s')))"

definition ctrl_article_likes ::
  "string \<Rightarrow> ((nat \<Rightarrow> bool) \<Rightarrow> go_int \<Rightarrow> go_int \<Rightarrow> sys \<Rightarrow> unit sres) \<Rightarrow>
   (string \<times> error_type) list \<Rightarrow> (svc_err \<Rightarrow> string) \<Rightarrow> (nat \<Rightarrow> bool) \<Rightarrow> string \<Rightarrow> go_int \<Rightarrow> sys \<Rightarrow> unit handler_out \<times> sys" where
  "ctrl_article_likes name svc ord emsg net param uid s =
     (case atoi param of
        None \<Rightarrow> (([handle_user_error ord (''ArticleController.'' @ name @ '' err: 400: '' @ to_int_failed_text ''articleID''
                                        @ atoi_err_text param)], False), s)
      | Some aid \<Rightarrow>
          (case svc net aid uid s of
             (Inl e, s') \<Rightarrow> (([handle_user_error ord (''ArticleController.'' @ name @ '' err: 500: '' @ emsg e)], False), s')
           | (Inr _, s') \<Rightarrow> (([(200, success_without_data)], False), s')))"

text \<open>\<open>ArticleController.AddLikes\<close> and \<open>RemoveLikes\<close>, which differ only in the
  service they call and their name.\<close>

definition ctrl_add_likes ::
  "(string \<times> error_type) list \<Rightarrow> (svc_err \<Rightarrow> string) \<Rightarrow> (nat \<Rightarrow> bool) \<Rightarrow> string \<Rightarrow> go_int \<Rightarrow> sys \<Rightarrow> unit handler_out \<times> sys" where
  "ctrl_add_likes = ctrl_article_likes ''AddLikes'' svc_add_likes"

definition ctrl_remove_likes ::
  "(string \<times> error_type) list \<Rightarrow> (svc_err \<Rightarrow> string) \<Rightarrow> (nat \<Rightarrow> bool) \<Rightarrow> string \<Rightarrow> go_int \<Rightarrow> sys \<Rightarrow> unit handler_out \<times> sys" where
  "ctrl_remove_likes = ctrl_article_likes ''RemoveLikes'' svc_remove_likes"

definition ctrl_update_article ::
  "(string \<times> error_type) list \<Rightarrow> (svc_err \<Rightarrow> string) \<Rightarrow> (nat \<Rightarrow> bool) \<Rightarrow> article bind_result \<Rightarrow> sys \<Rightarrow> unit handler_out \<times> sys" where
  "ctrl_update_article ord emsg net body s =
     (case body of
        BindErr t \<Rightarrow> (([(400, NoBody), handle_user_error ord (''ArticleController.UpdateArticle err: 400:'' @ bind_failed_text @ t)], False), s)
      | BindNull \<Rightarrow> (([], True), s)
      | BindOk a \<Rightarrow>
          (case svc_update_article net a s of
             (Inl SvcNilDeref, s') \<Rightarrow> (([], True), s')
           | (Inl e, s') \<Rightarrow> (([handle_user_error ord (''ArticleController.UpdateArticle err: 500: '' @ emsg e)], False), s')
           | (Inr _, s') \<Rightarrow> (([(200, success_without_data)], False), s')))"

subsection \<open>User handlers\<close>

definition not_int_text :: "string \<Rightarrow> string" where
  "not_int_text name = utf8 [0x65E0, 0x6CD5, 0x5C06] @ name @ utf8 [0x8F6C, 0x6362, 0x4E3A] @ ''int:''"

text \<open>\<open>UserController.AddFollows\<close>: the follow row of the user and the parsed id,
  created now.\<close>

definition ctrl_add_follows ::
  "(string \<times> error_type) list \<Rightarrow> (user_err \<Rightarrow> string) \<Rightarrow> (nat \<Rightarrow> bool) \<Rightarrow> go_int \<Rightarrow> string \<Rightarrow> go_time
   \<Rightarrow> mysql \<Rightarrow> redis \<Rightarrow> unit handler_out \<times> mysql \<times> redis" where
  "ctrl_add_follows ord emsg net uid param now db r =
     (case atoi param of
        None \<Rightarrow> (([handle_user_error ord (''UserController.AddFollows err: 400: '' @ not_int_text ''followerID''
                                        @ atoi_err_text param)], False), db, r)
      | Some fid \<Rightarrow>
          (case svc_add_follows net \<lparr>uf_id = 0, uf_user = uid, uf_follow = fid, uf_create = now\<rparr> db r of
             (Inl e, db', r') \<Rightarrow> (([handle_user_error ord (''UserController.AddFollows err: 500: '' @ emsg e)], False), db', r')
           | (Inr _, db', r') \<Rightarrow> (([(200, success_without_data)], False), db', r')))"

definition ctrl_remove_follows ::
  "(string \<times> error_type) list \<Rightarrow> (user_err \<Rightarrow> string) \<Rightarrow> (nat \<Rightarrow> bool) \<Rightarrow> go_int \<Rightarrow> string
   \<Rightarrow> mysql \<Rightarrow> redis \<Rightarrow> unit handler_out \<times> mysql \<times> redis" where
  "ctrl_remove_follows ord emsg net uid param db r =
     (case atoi param of
        None \<Rightarrow> (([handle_user_error ord (''UserController.RemoveFollows err: 400: '' @ not_int_text ''followerID''
                                        @ atoi_err_text param)], False), db, r)
      | Some fid \<Rightarrow>
          (case svc_remove_follows net uid fid db r of
             (Inl e, db', r') \<Rightarrow> (([handle_user_error ord (''UserController.RemoveFollows err: 500: '' @ emsg e)], False), db', r')
           | (Inr _, db', r') \<Rightarrow> (([(200, success_without_data)], False), db', r')))"

text \<open>\<open>UserController.AddLikes\<close>: the liked user is the path parameter.\<close>

definition ctrl_add_user_likes ::
  "(string \<times> error_type) list \<Rightarrow> (user_err \<Rightarrow> string) \<Rightarrow> (nat \<Rightarrow> bool) \<Rightarrow> string
   \<Rightarrow> mysql \<Rightarrow> redis \<Rightarrow> unit handler_out \<times> mysql \<times> redis" where
  "ctrl_add_user_likes ord emsg net param db r =
     (case atoi param of
        None \<Rightarrow> (([handle_user_error ord (''UserController.AddLikes err: 400: '' @ not_int_text ''userID''
                                        @ atoi_err_text param)], False), db, r)
      | Some uid \<Rightarrow>
          (case svc_add_user_likes net uid db r of
             (Inl e, db', r') \<Rightarrow> (([handle_user_error ord (''UserController.AddLikes err: 500: '' @ emsg e)], False), db', r')
           | (Inr _, db', r') \<Rightarrow> (([(200, success_without_data)], False), db', r')))"

text \<open>\<open>UserController.GetLikesRank\<close> with \<open>UserService.GetLikesRank\<close>, which only
  wraps the error; \<open>emsg\<close> is the text of the cache repository's error.\<close>

definition svc_get_likes_rank ::
  "(rank_err \<Rightarrow> string) \<Rightarrow> (nat \<Rightarrow> bool) \<Rightarrow> go_int \<Rightarrow> redis \<Rightarrow> (string + user_like_rank list) \<times> redis" where
  "svc_get_likes_rank emsg net uid r =
     (case get_likes_rank net uid r of
        (Inl e, r') \<Rightarrow> (Inl (''UserService.GetLikesRank err:'' @ emsg e), r')
      | (Inr ranks, r') \<Rightarrow> (Inr ranks, r'))"

definition ctrl_get_likes_rank ::
  "(string \<times> error_type) list \<Rightarrow> (rank_err \<Rightarrow> string) \<Rightarrow> (nat \<Rightarrow> bool) \<Rightarrow> go_int \<Rightarrow> redis
   \<Rightarrow> user_like_rank list handler_out \<times> redis" where
  "ctrl_get_likes_rank ord emsg net uid r =
     (case svc_get_likes_rank emsg net uid r of
        (Inl t, r') \<Rightarrow> (([handle_user_error ord (''UserController.GetLikesRank err: 500: '' @ t)], False), r')
      | (Inr ranks, r') \<Rightarrow> (([(200, success ranks)], False), r'))"

text \<open>\<open>UserController.ChooseItem\<close>.  When the item id does not parse, the handler
  reports the error but does not return: \<open>itemID\<close> is then 0 and the publisher
  still runs and writes its own response.\<close>

definition ctrl_choose_item ::
  "(string \<times> error_type) list \<Rightarrow> (pub_err \<Rightarrow> string) \<Rightarrow> (nat \<Rightarrow> bool) \<Rightarrow> go_int \<Rightarrow> string
   \<Rightarrow> redis \<Rightarrow> string list \<Rightarrow> unit handler_out \<times> redis \<times> string list" where
  "ctrl_choose_item ord emsg net uid param r q =
     (let (w, iid) = (case atoi param of
                        None \<Rightarrow> ([handle_user_error ord (''UserController.ChooseItem err: 400: '' @ not_int_text ''itemID''
                                                      @ atoi_err_text param)], 0)
                      | Some i \<Rightarrow> ([], i))
      in case choose_item_publisher net uid iid r q of
           (Inl e, r', q') \<Rightarrow> ((w @ [handle_user_error ord (''UserController.ChooseItem err: 500: '' @ emsg e)], False), r', q')
         | (Inr _, r', q') \<Rightarrow> ((w @ [(200, success_without_data)], False), r', q'))"

text \<open>\<open>UserService.AddChooseItemConsumer\<close>'s error texts.\<close>

definition window_err_text :: "window_err \<Rightarrow> string" where
  "window_err_text e = ''UserService.AddChooseItemConsumer err: 400: '' @
     (case e of
        WindowOver \<Rightarrow> utf8 [0x7ED3, 0x675F, 0x65F6, 0x95F4, 0x4E0D, 0x80FD, 0x5C0F, 0x4E8E, 0x5F53, 0x524D, 0x65F6, 0x95F4]
      | WindowEmpty \<Rightarrow> utf8 [0x5F00, 0x59CB, 0x65F6, 0x95F4, 0x4E0D, 0x80FD, 0x7B49, 0x4E8E, 0x7ED3, 0x675F, 0x65F6, 0x95F4])"

text \<open>\<open>UserController.AddChooseItemConsumer\<close>: \<open>time.LoadLocation("Local")\<close>
  always succeeds; \<open>parse\<close> is \<open>time.ParseInLocation\<close> with the layout
  \<open>"2006-01-02 15:04:05"\<close>, returning the time or the text of its error.  A
  spawned consumer is returned.\<close>

definition ctrl_add_choose_item_consumer ::
  "(string \<times> error_type) list \<Rightarrow> (string \<Rightarrow> string + go_time) \<Rightarrow> go_time \<Rightarrow> string \<Rightarrow> string
   \<Rightarrow> unit handler_out \<times> consumer option" where
  "ctrl_add_choose_item_consumer ord parse now bs es =
     (case parse bs of
        Inl t \<Rightarrow> (([handle_user_error ord (''UserController.AddChooseItemConsumer err: 400: ''
                       @ utf8 [0x65E0, 0x6CD5, 0x5C06] @ ''begin'' @ utf8 [0x8F6C, 0x6362, 0x4E3A] @ ''time.Time:'' @ t)], False), None)
      | Inr b \<Rightarrow>
          (case parse es of
             Inl t \<Rightarrow> (([handle_user_error ord (''UserController.AddChooseItemConsumer err: 400: ''
                       @ utf8 [0x65E0, 0x6CD5, 0x5C06] @ ''end'' @ utf8 [0x8F6C, 0x6362, 0x4E3A] @ ''time.Time:'' @ t)], False), None)
           | Inr e \<Rightarrow>
               (case add_choose_item_consumer now b e of
                  Inl err \<Rightarrow> (([handle_user_error ord (''UserController.AddChooseItemConsumer err: 500: ''
                                                         @ window_err_text err)], False), None)
                | Inr c \<Rightarrow> (([(200, success_without_data)], False), Some c))))"

text \<open>The configured expiry of a code, two minutes, in seconds.\<close>

definition code_expire :: int where
  "code_expire = 120"

text \<open>\<open>UserService.SendCode\<close>: six digits, each \<open>rand.Intn(10)\<close> of the draws
  \<open>rnd\<close> (an argument), written with \<open>%d\<close>, stored by \<open>AddCode\<close> with the
  configured expiry.  \<open>AddCode\<close> always returns \<open>nil\<close>, so the service's error
  return is never taken; the goroutine meant to send the code only logs it.\<close>

definition send_code_digits :: "(nat \<Rightarrow> nat) \<Rightarrow> string" where
  "send_code_digits rnd = concat (map (\<lambda>i. itoa (int (rnd i mod 10))) [0..<6])"

definition svc_send_code :: "(nat \<Rightarrow> nat) \<Rightarrow> string \<Rightarrow> code_store \<Rightarrow> code_store" where
  "svc_send_code rnd phone cs = add_code \<lparr>uc_code = send_code_digits rnd, uc_phone = phone\<rparr> code_expire cs"

text \<open>\<open>UserController.SendCode\<close>.\<close>

definition ctrl_send_code ::
  "(string \<times> error_type) list \<Rightarrow> string \<Rightarrow> (nat \<Rightarrow> nat) \<Rightarrow> code_store \<Rightarrow> unit handler_out \<times> code_store" where
  "ctrl_send_code ord phone rnd cs =
     (if \<not> validate_phone_number phone
      then (([handle_user_error ord (''UserController.SendCode err: 400:''
                                      @ utf8 [0x624B, 0x673A, 0x53F7, 0x683C, 0x5F0F, 0x9519, 0x8BEF])], False), cs)
      else (([(200, success_without_data)], False), svc_send_code rnd phone cs))"

text \<open>The text of \<open>ArticleCacheRepository.AddLikes\<close>'s error for a user who
  already liked the article.\<close>

definition already_liked_text :: "go_int \<Rightarrow> go_int \<Rightarrow> string" where
  "already_liked_text aid uid =
     utf8 [0x7528, 0x6237, 0x5DF2, 0x7ECF, 0x70B9, 0x8D5E, 0xFF0C, 0x65E0, 0x6CD5, 0x91CD, 0x590D, 0x70B9, 0x8D5E,
           0xFF0C, 0x6587, 0x7AE0] @ '' ID: '' @ itoa aid @ '', '' @ utf8 [0x7528, 0x6237] @ '' ID: '' @ itoa uid"

text \<open>The statuses \<open>HandleUserError\<close> can choose for a message: the codes of the
  keys the message contains, or \<open>9999\<close> when it contains none.\<close>

definition matched_codes :: "string \<Rightarrow> int list" where
  "matched_codes msg = [et_code v. (k, v) \<leftarrow> error_mapping, contains k msg]"

definition possible_statuses :: "string \<Rightarrow> int set" where
  "possible_statuses msg = (if matched_codes msg = [] then {9999} else set (matched_codes msg))"

subsection \<open>Message search and status selection\<close>

lemmas error_type_defs = err_unknown_def err_bad_request_def err_internal_def err_unauthorized_def err_forbidden_def

lemma contains_append_right: "contains k b \<Longrightarrow> contains k (a @ b)"
  by (induction a) auto

lemma find_SomeD: "find P xs = Some x \<Longrightarrow> x \<in> set xs \<and> P x"
  by (induction xs) (auto split: if_splits)

lemma first_match_find:
  "first_match msg ord =
     (case find (\<lambda>(k, v). contains k msg) ord of None \<Rightarrow> \<lparr>et_code = 0, et_message = []\<rparr> | Some (k, v) \<Rightarrow> v)"
  by (induction msg ord rule: first_match.induct) auto

lemma set_matched_codes:
  "set (matched_codes msg) = {et_code v | k v. (k, v) \<in> set error_mapping \<and> contains k msg}"
  by (auto simp: matched_codes_def)

lemma error_mapping_codes: "(k, v) \<in> set error_mapping \<Longrightarrow> et_code v \<noteq> 0"
  by (auto simp: error_mapping_def error_type_defs)

lemma distinct_error_mapping: "distinct error_mapping"
  by (simp add: error_mapping_def error_type_defs)

lemma error_mapping_key_code: "(k, v) \<in> set error_mapping \<Longrightarrow> int (digits_val k) = et_code v"
  by (auto simp: error_mapping_def error_type_defs digits_val_def digit_val_def)

lemma map_order_error_mapping: "map_order error_mapping"
  by (simp add: map_order_def distinct_error_mapping)

lemma handle_user_error_status:
  assumes "map_order ord"
  shows "fst (handle_user_error ord msg :: 'a http_resp) =
           (case find (\<lambda>(k, v). contains k msg) ord of None \<Rightarrow> 9999 | Some (k, v) \<Rightarrow> et_code v)"
proof (cases "find (\<lambda>(k, v). contains k msg) ord")
  case None
  then show ?thesis by (simp add: handle_user_error_def first_match_find err_unknown_def)
next
  case (Some kv)
  then obtain k v where kv: "kv = (k, v)" "(k, v) \<in> set ord" by (cases kv) (auto dest: find_SomeD)
  with assms have "(k, v) \<in> set error_mapping" by (simp add: map_order_def)
  then have "et_code v \<noteq> 0" by (rule error_mapping_codes)
  with Some kv show ?thesis by (simp add: handle_user_error_def first_match_find Let_def)
qed

text \<open>Over all iteration orders of the map, \<open>HandleUserError\<close> chooses exactly the
  statuses of \<open>possible_statuses\<close>.\<close>

lemma statuses_handle_user_error:
  "{fst (handle_user_error ord msg :: 'a http_resp) | ord. map_order ord} = possible_statuses msg"
proof (intro equalityI subsetI)
  fix c assume "c \<in> {fst (handle_user_error ord msg :: 'a http_resp) | ord. map_order ord}"
  then obtain ord where o: "map_order ord" "c = fst (handle_user_error ord msg :: 'a http_resp)" by blast
  show "c \<in> possible_statuses msg"
  proof (cases "find (\<lambda>(k, v). contains k msg) ord")
    case None
    then have "\<forall>(k, v) \<in> set error_mapping. \<not> contains k msg"
      using o(1) by (auto simp: map_order_def find_None_iff)
    then have "matched_codes msg = []" by (auto simp: matched_codes_def)
    with None o show ?thesis by (simp add: handle_user_error_status possible_statuses_def)
  next
    case (Some kv)
    then obtain k v where kv: "kv = (k, v)" "(k, v) \<in> set ord" "contains k msg"
      by (cases kv) (auto dest: find_SomeD)
    with o have "(k, v) \<in> set error_mapping" "c = et_code v"
      by (auto simp: map_order_def handle_user_error_status [OF o(1)] Some)
    with kv(3) show ?thesis
      by (auto simp: possible_statuses_def matched_codes_def)
  qed
next
  fix c assume c: "c \<in> possible_statuses msg"
  show "c \<in> {fst (handle_user_error ord msg :: 'a http_resp) | ord. map_order ord}"
  proof (cases "matched_codes msg = []")
    case True
    then have "find (\<lambda>(k, v). contains k msg) error_mapping = None"
      by (auto simp: matched_codes_def find_None_iff)
    moreover note map_order_error_mapping
    ultimately show ?thesis using c True
      by (force simp: possible_statuses_def handle_user_error_status)
  next
    case False
    with c have "c \<in> set (matched_codes msg)" by (simp add: possible_statuses_def)
    then obtain k v where kv: "(k, v) \<in> set error_mapping" "contains k msg" "c = et_code v"
      unfolding set_matched_codes by blast
    let ?ord = "(k, v) # remove1 (k, v) error_mapping"
    have "map_order ?ord" using kv(1) distinct_error_mapping
      by (auto simp: map_order_def set_remove1_eq)
    moreover have "fst (handle_user_error ?ord msg :: 'a http_resp) = c"
      using handle_user_error_status [OF calculation, of msg, where 'a = 'a] kv by simp
    ultimately show ?thesis by blast
  qed
qed

lemma possible_statuses_key:
  assumes "contains k msg" "(k, v) \<in> set error_mapping"
  shows "et_code v \<in> possible_statuses msg"
proof -
  have "et_code v \<in> set (matched_codes msg)" unfolding set_matched_codes using assms by blast
  then show ?thesis by (auto simp: possible_statuses_def)
qed

lemma ctrl_add_choose_item_consumer_window_err:
  assumes "parse bs = Inr b" "parse es = Inr e" "add_choose_item_consumer now b e = Inl err"
  shows "ctrl_add_choose_item_consumer ord parse now bs es =
           (([handle_user_error ord (''UserController.AddChooseItemConsumer err: 500: '' @ window_err_text err)], False), None)"
  using assms by (simp add: ctrl_add_choose_item_consumer_def)

lemma window_err_matched_codes:
  "matched_codes (''UserController.AddChooseItemConsumer err: 500: '' @ window_err_text e) = [500, 400]"
  by (cases e) (simp_all add: matched_codes_def error_mapping_def error_type_defs window_err_text_def utf8_def utf8_char_def)

text \<open>The code \<open>SendCode\<close> stores is six decimal digits.\<close>

lemma send_code_digits_eq: "send_code_digits rnd = map (\<lambda>i. digit_char (rnd i mod 10)) [0..<6]"
proof -
  have "itoa (int (rnd i mod 10)) = [digit_char (rnd i mod 10)]" for i
    by (simp add: itoa_def nat_digits.simps)
  then show ?thesis by (simp add: send_code_digits_def map_concat concat_map_singleton)
qed

lemma send_code_digits_shape: "length (send_code_digits rnd) = 6 \<and> list_all is_digit (send_code_digits rnd)"
  by (simp add: send_code_digits_eq list_all_iff)

subsection \<open>Properties of the HTTP layer\<close>

text \<open>The recursive \<open>contains\<close>, tried at each position as
  \<open>strings.Contains\<close> does, is the library's contiguous-sublist relation.\<close>

theorem contains_iff_sublist: "contains sub s \<longleftrightarrow> sublist sub s"
  by (induction s) (simp_all add: sublist_Cons_right)

text \<open>C37 (functional).  Whatever the map's iteration order, \<open>HandleUserError\<close>
  answers with the number spelled by the first key of that order that occurs in
  the message, with that key's text; with 9999 \<open>Unknown\<close>, which is not a
  valid HTTP status, when the message contains none of the keys.  The status
  is thus read off the message: a key mapped to another code, or a later match
  winning, would contradict it.\<close>

theorem handle_user_error_first_key:
  assumes "map_order ord"
  shows "handle_user_error ord msg =
           (case find (\<lambda>(k, v). contains k msg) ord of
              None \<Rightarrow> (9999, ErrJson 9999 ''Unknown'')
            | Some (k, v) \<Rightarrow> (int (digits_val k), ErrJson (int (digits_val k)) (et_message v)))"
proof (cases "find (\<lambda>(k, v). contains k msg) ord")
  case None
  then show ?thesis by (simp add: handle_user_error_def first_match_find err_unknown_def)
next
  case (Some kv)
  then obtain k v where kv: "kv = (k, v)" "(k, v) \<in> set ord" by (cases kv) (auto dest: find_SomeD)
  with assms have m: "(k, v) \<in> set error_mapping" by (simp add: map_order_def)
  then have "et_code v \<noteq> 0" by (rule error_mapping_codes)
  with Some kv error_mapping_key_code [OF m] show ?thesis
    by (simp add: handle_user_error_def first_match_find Let_def)
qed

theorem handle_user_error_first_key_witness:
  "map_order error_mapping
   \<and> handle_user_error error_mapping ''AddItem err: 400: bad form, 500'' = ((500, ErrJson 500 ''Internal Error'') :: unit http_resp)"
proof -
  have f: "find (\<lambda>(k, v). contains k ''AddItem err: 400: bad form, 500'') error_mapping = Some (''500'', err_internal)"
    by code_simp
  have d: "digits_val ''500'' = 500" by code_simp
  note e = handle_user_error_first_key [OF map_order_error_mapping, of "''AddItem err: 400: bad form, 500''", where 'a = unit]
  show ?thesis using map_order_error_mapping e [unfolded f] by (simp add: d err_internal_def)
qed

text \<open>\<open>AddChooseItemConsumer\<close>'s window errors say \<open>400\<close> and the
  handler wraps them in a message saying \<open>500\<close>: depending on the map's iteration
  order the client gets 400 or 500, and both happen.\<close>

theorem consumer_window_error_status_ambiguous:
  assumes "parse bs = Inr b" "parse es = Inr e" "add_choose_item_consumer now b e = Inl err"
  shows "{fst (hd (fst (fst (ctrl_add_choose_item_consumer ord parse now bs es)))) | ord. map_order ord} = {400, 500}"
proof -
  have "{fst (hd (fst (fst (ctrl_add_choose_item_consumer ord parse now bs es)))) | ord. map_order ord}
      = {fst (handle_user_error ord (''UserController.AddChooseItemConsumer err: 500: '' @ window_err_text err) :: unit http_resp)
         | ord. map_order ord}"
    by (simp add: ctrl_add_choose_item_consumer_window_err [OF assms])
  also have "\<dots> = {400, 500}"
    unfolding statuses_handle_user_error possible_statuses_def window_err_matched_codes by auto
  finally show ?thesis .
qed

theorem consumer_window_error_status_ambiguous_witness:
  "{fst (hd (fst (fst (ctrl_add_choose_item_consumer ord (\<lambda>s. Inr (if s = ''b'' then 10 else 5)) 20 ''b'' ''e''))))
    | ord. map_order ord} = {400, 500}"
  by (rule consumer_window_error_status_ambiguous [where b = 10 and e = 5 and err = WindowOver])
     (simp_all add: add_choose_item_consumer_def)

text \<open>\<open>ChooseItem\<close> with an item id that does not parse writes the
  400 response and then goes on: it runs \<open>ChooseItemPublisher\<close> for item 0 and
  writes a second response.\<close>

theorem choose_item_bad_param_continues:
  assumes "atoi param = None"
  shows "\<exists>resp. fst (ctrl_choose_item ord emsg net uid param r q)
                 = ([handle_user_error ord (''UserController.ChooseItem err: 400: '' @ not_int_text ''itemID''
                                            @ atoi_err_text param), resp], False)
           \<and> snd (ctrl_choose_item ord emsg net uid param r q) = snd (choose_item_publisher net uid 0 r q)"
proof -
  obtain res r' q' where p: "choose_item_publisher net uid 0 r q = (res, r', q')" by (metis prod.collapse)
  show ?thesis
    using p assms by (cases res) (simp_all add: ctrl_choose_item_def del: append.simps)
qed

theorem choose_item_bad_param_continues_witness:
  "(\<exists>resp. fst (ctrl_choose_item error_mapping (\<lambda>_. []) (\<lambda>_. True) 5 ''abc''
                  (snd (add_item_cache True (demo_item\<lparr>item_id := 0\<rparr>) empty_redis)) [])
           = ([handle_user_error error_mapping (''UserController.ChooseItem err: 400: '' @ not_int_text ''itemID''
                                                @ atoi_err_text ''abc''), resp], False)
     \<and> snd (ctrl_choose_item error_mapping (\<lambda>_. []) (\<lambda>_. True) 5 ''abc''
             (snd (add_item_cache True (demo_item\<lparr>item_id := 0\<rparr>) empty_redis)) [])
       = snd (choose_item_publisher (\<lambda>_. True) 5 0 (snd (add_item_cache True (demo_item\<lparr>item_id := 0\<rparr>) empty_redis)) []))
   \<and> snd (snd (choose_item_publisher (\<lambda>_. True) 5 0 (snd (add_item_cache True (demo_item\<lparr>item_id := 0\<rparr>) empty_redis)) []))
     = [msg_body 5 0]"
proof -
  have a: "atoi ''abc'' = None" by code_simp
  have q: "snd (snd (choose_item_publisher (\<lambda>_. True) 5 0 (snd (add_item_cache True (demo_item\<lparr>item_id := 0\<rparr>) empty_redis)) []))
     = [msg_body 5 0]" by code_simp
  show ?thesis using choose_item_bad_param_continues [OF a] q by blast
qed

text \<open>The already-liked error of \<open>AddLikes\<close> carries the article and
  user ids in its text.  For a user whose id contains the digits 401, some
  iteration order of the map answers the conflict with 401 Unauthorized, and
  another with 500.\<close>

theorem like_conflict_may_answer_401:
  assumes "atoi param = Some aid" "fst (svc_add_likes net aid uid s) = Inl (SvcCache ErrAlreadyLiked)"
    "emsg (SvcCache ErrAlreadyLiked) = ''ArticleService.AddLikes err: '' @ already_liked_text aid uid"
    "contains ''401'' (itoa uid)"
  shows "{401, 500} \<subseteq> {fst (hd (fst (fst (ctrl_add_likes ord emsg net param uid s)))) | ord. map_order ord}"
proof -
  define msg where "msg = ''ArticleController.AddLikes err: 500: '' @ ''ArticleService.AddLikes err: '' @ already_liked_text aid uid"
  have out: "fst (fst (ctrl_add_likes ord emsg net param uid s)) = [handle_user_error ord msg]" for ord
    using assms(1-3)
    by (auto simp: ctrl_add_likes_def ctrl_article_likes_def msg_def split: prod.splits sum.splits)
  have "contains ''401'' msg"
    using assms(4) unfolding msg_def already_liked_text_def by (simp only: contains_append_right append_assoc)
  moreover have "contains ''500'' msg" by (simp add: msg_def)
  ultimately have "{401, 500} \<subseteq> possible_statuses msg"
    using possible_statuses_key [of "''401''" msg err_unauthorized] possible_statuses_key [of "''500''" msg err_internal]
    by (simp add: error_mapping_def error_type_defs)
  also have "possible_statuses msg = {fst (handle_user_error ord msg :: unit http_resp) | ord. map_order ord}"
    by (rule statuses_handle_user_error [symmetric])
  finally show ?thesis by (simp add: out)
qed

theorem like_conflict_may_answer_401_witness:
  "{401, 500} \<subseteq> {fst (hd (fst (fst (ctrl_add_likes ord (\<lambda>_. ''ArticleService.AddLikes err: '' @ already_liked_text 1 401)
       (\<lambda>_. True) ''1'' 401 (snd (svc_add_likes (\<lambda>_. True) 1 401 demo_sys)))))) | ord. map_order ord}"
proof (rule like_conflict_may_answer_401 [where aid = 1])
  show "atoi ''1'' = Some 1" by code_simp
  show "fst (svc_add_likes (\<lambda>_. True) 1 401 (snd (svc_add_likes (\<lambda>_. True) 1 401 demo_sys)))
        = Inl (SvcCache ErrAlreadyLiked)" by code_simp
  show "contains ''401'' (itoa 401)" by code_simp
qed simp

end
