(* ===== verification/Auth.thy ===== *)
theory Auth
  imports Http_Layer
begin

text \<open>
  The helpers of \<open>common/utils/user_utils.go\<close>: \<open>MaskPhoneNumber\<close>,
  \<open>GenerateRandomUsername\<close>, \<open>ValidateEmptyToken\<close>, \<open>ParseToken\<close> and the
  middleware \<open>validateToken\<close> behind \<open>JwtInterceptor\<close>, \<open>AdminOnlyMiddleware\<close>
  and \<open>SuperAdminOnlyMiddleware\<close>.

  Token signing and checking are the jwt library's: what \<open>jwt.ParseWithClaims\<close>
  returns for a token string and a secret is the argument \<open>jwt\<close> of the
  middleware, a value of \<open>jwt_result\<close> (the claims and \<open>token.Valid\<close>, or the
  library's error text; the signing-method check of \<open>ParseToken\<close>'s key function
  surfaces as such an error).  The request headers are \<open>Header.Get\<close>, the
  function \<open>hdr\<close>; \<open>math/rand\<close> is the function \<open>rnd\<close>, the value of the
  \<open>i\<close>-th draw.  \<open>configs.CHARACTER_SET\<close>, not defined in the source tree, is
  the argument \<open>cs\<close>.
\<close>

subsection \<open>Phone numbers and user names\<close>

text \<open>\<open>MaskPhoneNumber\<close>: \<open>phoneNumber[:3] + "****" + phoneNumber[7:]\<close>; a
  string shorter than 7 bytes makes the slice panic (\<open>None\<close>).\<close>

definition mask_phone_number :: "string \<Rightarrow> string option" where
  "mask_phone_number p = (if length p < 7 then None else Some (take 3 p @ ''****'' @ drop 7 p))"

text \<open>\<open>GenerateRandomUsername(length)\<close>: \<open>"user_"\<close> and \<open>length - 5\<close> bytes of
  the character set, each \<open>charset[rand.Intn(len(charset))]\<close>; \<open>rand.Intn\<close>
  panics on an empty set (\<open>None\<close>).\<close>

definition generate_random_username :: "string \<Rightarrow> int \<Rightarrow> (nat \<Rightarrow> nat) \<Rightarrow> string option" where
  "generate_random_username cs len rnd =
     (if 0 < len - 5 \<and> cs = [] then None
      else Some (''user_'' @ map (\<lambda>i. cs ! (rnd i mod length cs)) [0..<nat (len - 5)]))"

subsection \<open>Tokens\<close>

text \<open>The secret of \<open>configs.GetConfig().Jwt\<close>.\<close>

definition jwt_secret :: string where
  "jwt_secret = ''huancuilou''"

text \<open>What \<open>jwt.ParseWithClaims\<close> gives back: the claims \<open>ID\<close> and \<open>IsManager\<close>
  with \<open>token.Valid\<close>, or an error with its text.\<close>

datatype jwt_result = JwtParsed string string bool | JwtError string

text \<open>\<open>ValidateEmptyToken\<close>.\<close>

definition empty_token_text :: "string \<Rightarrow> string" where
  "empty_token_text kind =
     ''401:'' @ utf8 [0x8BF7, 0x6C42, 0x5934, 0x4E2D] @ kind @ utf8 [0x4E3A, 0x7A7A]"

definition validate_empty_token :: "(string \<Rightarrow> string) \<Rightarrow> string \<Rightarrow> string + string" where
  "validate_empty_token hdr kind =
     (if kind = ''accessToken'' \<or> kind = ''refreshToken''
      then (if hdr kind = [] then Inl (empty_token_text kind) else Inr (hdr kind))
      else Inl (''500:tokenKind'' @ utf8 [0x53C2, 0x6570, 0x9519, 0x8BEF] @ '': '' @ kind))"

text \<open>\<open>ParseToken\<close>: the claims of a valid token; a library error is wrapped
  with 401; an invalid token without error is reported as expired.\<close>

definition parse_token :: "jwt_result \<Rightarrow> string + string \<times> string" where
  "parse_token j =
     (case j of
        JwtError e \<Rightarrow> Inl (''401:PraseToken err: '' @ e)
      | JwtParsed i m v \<Rightarrow> if v then Inr (i, m) else Inl ''401:ParseToken err: token expired'')"

text \<open>What the middleware does with the request: abort with the response of
  \<open>HandleUserError\<close>, or \<open>c.Set("userID", id)\<close> and \<open>c.Next()\<close>.\<close>

datatype 'a mw_out = MwAbort "'a http_resp" | MwNext go_int

definition forbidden_text :: string where
  "forbidden_text = ''403:'' @ utf8 [0x6743, 0x9650, 0x4E0D, 0x8DB3]"

definition id_conv_text :: string where
  "id_conv_text = ''401:'' @ utf8 [0x7528, 0x6237] @ ''ID'' @ utf8 [0x8F6C, 0x6362, 0x5931, 0x8D25]"

text \<open>The common tail of \<open>validateToken\<close>: the role check, then the id.\<close>

definition check_role_and_id ::
  "(string \<times> error_type) list \<Rightarrow> (string \<Rightarrow> bool) \<Rightarrow> string \<Rightarrow> string \<Rightarrow> 'a mw_out" where
  "check_role_and_id ord role mgr ids =
     (if \<not> role mgr then MwAbort (handle_user_error ord forbidden_text)
      else case atoi ids of
             None \<Rightarrow> MwAbort (handle_user_error ord id_conv_text)
           | Some uid \<Rightarrow> MwNext uid)"

text \<open>\<open>validateToken\<close>: an error whose text contains \<open>expired\<close> falls through to
  the role check with the empty strings \<open>ParseToken\<close> returned with it.\<close>

definition validate_token ::
  "(string \<times> error_type) list \<Rightarrow> (string \<Rightarrow> bool) \<Rightarrow> (string \<Rightarrow> string) \<Rightarrow> (string \<Rightarrow> string \<Rightarrow> jwt_result)
   \<Rightarrow> 'a mw_out" where
  "validate_token ord role hdr jwt =
     (case validate_empty_token hdr ''accessToken'' of
        Inl e \<Rightarrow> MwAbort (handle_user_error ord e)
      | Inr tok \<Rightarrow>
          (case parse_token (jwt tok jwt_secret) of
             Inr (ids, mgr) \<Rightarrow> check_role_and_id ord role mgr ids
           | Inl e \<Rightarrow>
               if \<not> contains ''expired'' e then MwAbort (handle_user_error ord e)
               else check_role_and_id ord role [] []))"

text \<open>The role predicates of the three middlewares.\<close>

definition jwt_role :: "string \<Rightarrow> bool" where
  "jwt_role m = True"

definition admin_role :: "string \<Rightarrow> bool" where
  "admin_role m \<longleftrightarrow> m = ''1'' \<or> m = ''2''"

definition super_admin_role :: "string \<Rightarrow> bool" where
  "super_admin_role m \<longleftrightarrow> m = ''2''"

subsection \<open>Middleware lemmas\<close>

lemma single_code_status:
  assumes "map_order ord" "matched_codes msg = [c]"
  shows "fst (handle_user_error ord msg :: 'a http_resp) = c"
  using statuses_handle_user_error [of msg, where 'a = 'a] assms by (auto simp: possible_statuses_def)

lemma no_code_status:
  assumes "map_order ord" "matched_codes msg = []"
  shows "fst (handle_user_error ord msg :: 'a http_resp) = 9999"
  using statuses_handle_user_error [of msg, where 'a = 'a] assms by (auto simp: possible_statuses_def)

lemma auth_text_codes:
  "matched_codes forbidden_text = [403]" "matched_codes id_conv_text = [401]"
  by (simp_all add: matched_codes_def error_mapping_def error_type_defs forbidden_text_def id_conv_text_def utf8_def utf8_char_def)

lemma check_role_and_id_Next:
  "check_role_and_id ord role mgr ids = MwNext uid \<longleftrightarrow> role mgr \<and> atoi ids = Some uid"
  by (simp add: check_role_and_id_def split: option.split)

lemma validate_token_Next:
  assumes "validate_token ord role hdr jwt = MwNext uid"
  shows "\<exists>ids mgr. hdr ''accessToken'' \<noteq> [] \<and> jwt (hdr ''accessToken'') jwt_secret = JwtParsed ids mgr True
           \<and> role mgr \<and> atoi ids = Some uid"
  using assms
  by (auto simp: validate_token_def validate_empty_token_def parse_token_def check_role_and_id_Next
           split: sum.splits jwt_result.splits if_splits)

lemma validate_token_expired:
  assumes "hdr ''accessToken'' \<noteq> []" "jwt (hdr ''accessToken'') jwt_secret = JwtError e" "contains ''expired'' e"
  shows "validate_token ord role hdr jwt = check_role_and_id ord role [] []"
proof -
  have "contains ''expired'' (''401:PraseToken err: '' @ e)" using assms(3) by (rule contains_append_right)
  then show ?thesis using assms(1,2) by (simp add: validate_token_def validate_empty_token_def parse_token_def)
qed

text \<open>C13 (error).  An expired token (a library error whose text contains
  \<open>expired\<close>) is not let through, but the middleware carries on with the empty
  role and id \<open>ParseToken\<close> returned with the error: whatever the iteration
  order of the error map, the administrator middlewares answer 403 Forbidden
  and \<open>JwtInterceptor\<close> answers 401 for a failed id conversion, never the
  expiry itself.\<close>

theorem expired_token_rejected_by_role:
  assumes "map_order ord" "hdr ''accessToken'' \<noteq> []" "jwt (hdr ''accessToken'') jwt_secret = JwtError e"
    "contains ''expired'' e"
  shows "(\<exists>r. validate_token ord admin_role hdr jwt = (MwAbort r :: 'a mw_out) \<and> fst r = 403)
       \<and> (\<exists>r. validate_token ord super_admin_role hdr jwt = (MwAbort r :: 'a mw_out) \<and> fst r = 403)
       \<and> (\<exists>r. validate_token ord jwt_role hdr jwt = (MwAbort r :: 'a mw_out) \<and> fst r = 401)"
proof -
  note v = validate_token_expired [of hdr jwt e, OF assms(2-4)]
  have f: "fst (handle_user_error ord forbidden_text :: 'a http_resp) = 403"
    and i: "fst (handle_user_error ord id_conv_text :: 'a http_resp) = 401"
    using single_code_status [OF assms(1)] auth_text_codes by blast+
  have "validate_token ord admin_role hdr jwt = (MwAbort (handle_user_error ord forbidden_text) :: 'a mw_out)"
    "validate_token ord super_admin_role hdr jwt = (MwAbort (handle_user_error ord forbidden_text) :: 'a mw_out)"
    "validate_token ord jwt_role hdr jwt = (MwAbort (handle_user_error ord id_conv_text) :: 'a mw_out)"
    by (simp_all add: v check_role_and_id_def admin_role_def super_admin_role_def jwt_role_def)
  with f i show ?thesis by blast
qed

theorem expired_token_rejected_by_role_witness:
  "(\<exists>r. validate_token error_mapping admin_role (\<lambda>k. if k = ''accessToken'' then ''t'' else [])
          (\<lambda>_ _. JwtError ''token has invalid claims: token is expired'') = (MwAbort r :: unit mw_out) \<and> fst r = 403)
   \<and> (\<exists>r. validate_token error_mapping super_admin_role (\<lambda>k. if k = ''accessToken'' then ''t'' else [])
          (\<lambda>_ _. JwtError ''token has invalid claims: token is expired'') = (MwAbort r :: unit mw_out) \<and> fst r = 403)
   \<and> (\<exists>r. validate_token error_mapping jwt_role (\<lambda>k. if k = ''accessToken'' then ''t'' else [])
          (\<lambda>_ _. JwtError ''token has invalid claims: token is expired'') = (MwAbort r :: unit mw_out) \<and> fst r = 401)"
proof -
  have c: "contains ''expired'' ''token has invalid claims: token is expired''" by code_simp
  show ?thesis by (rule expired_token_rejected_by_role [OF map_order_error_mapping _ _ c]) simp_all
qed

text \<open>C5 (safety).  The middleware lets a request through with user id \<open>uid\<close>
  only when the \<open>accessToken\<close> header is present, the library parsed it with
  the configured secret into a valid token, the role claim passes the
  middleware's role check and the id claim is the decimal numeral of \<open>uid\<close>.\<close>

theorem validate_token_sound:
  assumes "validate_token ord role hdr jwt = (MwNext uid :: 'a mw_out)"
  shows "\<exists>ids mgr. hdr ''accessToken'' \<noteq> [] \<and> jwt (hdr ''accessToken'') jwt_secret = JwtParsed ids mgr True
           \<and> role mgr \<and> atoi ids = Some uid"
  using validate_token_Next [OF assms] .

text \<open>C28 (type).  With a non-empty character set and a length of at least 5,
  \<open>GenerateRandomUsername\<close> returns a string of exactly that length made of
  \<open>"user_"\<close> and characters of the set, whatever the random draws.\<close>

theorem username_shape:
  assumes "cs \<noteq> []" "5 \<le> len"
  shows "\<exists>u. generate_random_username cs len rnd = Some u \<and> length u = nat len \<and> take 5 u = ''user_''
           \<and> list_all (\<lambda>c. c \<in> set cs) (drop 5 u)"
  using assms by (auto simp: generate_random_username_def list_all_iff)

lemma username_panics: "generate_random_username cs len rnd = None \<longleftrightarrow> 5 < len \<and> cs = []"
  by (auto simp: generate_random_username_def)

text \<open>On every number that passes \<open>ValidatePhoneNumber\<close>,
  \<open>MaskPhoneNumber\<close> does not panic and returns 11 bytes: the first three and
  the last four of the number around four asterisks.\<close>

theorem mask_phone_shape:
  assumes "validate_phone_number p"
  shows "\<exists>m. mask_phone_number p = Some m \<and> length m = 11 \<and> take 3 m = take 3 p
           \<and> take 4 (drop 3 m) = ''****'' \<and> drop 7 m = drop 7 p"
  using assms by (simp add: mask_phone_number_def validate_phone_number_def)


theorem validate_token_sound_witness:
  "validate_token error_mapping admin_role (\<lambda>k. if k = ''accessToken'' then ''t'' else []) (\<lambda>_ _. JwtParsed ''7'' ''1'' True)
     = (MwNext 7 :: unit mw_out)
   \<and> (\<exists>ids mgr. (\<lambda>k. if k = ''accessToken'' then ''t'' else []) ''accessToken'' \<noteq> []
        \<and> (\<lambda>_ _. JwtParsed ''7'' ''1'' True) ((\<lambda>k. if k = ''accessToken'' then ''t'' else []) ''accessToken'') jwt_secret
          = JwtParsed ids mgr True
        \<and> admin_role mgr \<and> atoi ids = Some 7)"
proof -
  have n: "validate_token error_mapping admin_role (\<lambda>k. if k = ''accessToken'' then ''t'' else [])
             (\<lambda>_ _. JwtParsed ''7'' ''1'' True) = (MwNext 7 :: unit mw_out)"
    by code_simp
  show ?thesis using n validate_token_sound [OF n] by blast
qed

theorem username_shape_witness:
  "''ab'' \<noteq> [] \<and> 5 \<le> (20::int)
   \<and> (\<exists>u. generate_random_username ''ab'' 20 (\<lambda>i. i) = Some u \<and> length u = nat 20 \<and> take 5 u = ''user_''
        \<and> list_all (\<lambda>c. c \<in> set ''ab'') (drop 5 u))"
  using username_shape [of "''ab''" 20 "\<lambda>i. i"] by simp

theorem mask_phone_shape_witness:
  "validate_phone_number ''13800000000''
   \<and> (\<exists>m. mask_phone_number ''13800000000'' = Some m \<and> length m = 11 \<and> take 3 m = take 3 ''13800000000''
        \<and> take 4 (drop 3 m) = ''****'' \<and> drop 7 m = drop 7 ''13800000000'')"
proof -
  have v: "validate_phone_number ''13800000000''" by code_simp
  show ?thesis using v mask_phone_shape [OF v] by blast
qed

end
