(* ===== verification/Accounts.thy ===== *)
theory Accounts
  imports Auth
begin

text \<open>
  The account side of \<open>UserService\<close> (\<open>internal/user/user_service/user_service.go\<close>)
  and the statements of \<open>UserRepository\<close> it uses
  (\<open>internal/user/user_repository/user_repository.go\<close>): phone-code login with
  registration, administrators, score and phone records, and \<open>AddItem\<close>, which
  writes an item to MySQL and then to the cache of \<open>Inventory\<close>.  Login composes
  the code store (\<open>Code_Store\<close>), the user table and the ranking set of
  \<open>Rank\<close>: a new user enters the ranking with 0 likes.

  Requests are numbered in program order as elsewhere (\<open>net\<close>).  The random
  user names of \<open>GenerateRandomUsername\<close> are the argument \<open>names\<close>, one per
  attempt.  The username column is taken to be unique, as the retry on MySQL
  error 1062 in \<open>Login\<close> presumes.
\<close>

subsection \<open>User table statements\<close>

text \<open>\<open>GetUserByUserID\<close> and \<open>GetUserByPhoneNumber\<close>: \<open>Take\<close>; no row is not an
  error but a nil user.\<close>

definition db_get_user_by_id :: "bool \<Rightarrow> go_int \<Rightarrow> mysql \<Rightarrow> dberr + user option" where
  "db_get_user_by_id ok uid db = (if \<not> ok then Inl DbConn else Inr (map_of (user_rows db) uid))"

definition db_get_user_by_phone :: "bool \<Rightarrow> string \<Rightarrow> mysql \<Rightarrow> dberr + user option" where
  "db_get_user_by_phone ok p db =
     (if \<not> ok then Inl DbConn else Inr (map_option snd (find (\<lambda>(i, u). us_phone u = p) (user_rows db))))"

text \<open>\<open>AddUser\<close>: \<open>tx.Create\<close>; the auto-increment value is taken even when the
  insert fails on the unique username.\<close>

definition db_add_user :: "bool \<Rightarrow> user \<Rightarrow> mysql \<Rightarrow> user dres" where
  "db_add_user ok u db =
     (if \<not> ok then (Inl DbConn, db)
      else if list_ex (\<lambda>(i, v). us_name v = us_name u) (user_rows db)
      then (Inl DbDuplicate, db\<lparr>user_next := user_next db + 1\<rparr>)
      else (let u' = u\<lparr>us_id := user_next db\<rparr>
            in (Inr u', db\<lparr>user_rows := user_rows db @ [(user_next db, u')], user_next := user_next db + 1\<rparr>)))"

text \<open>\<open>AddAdminByPhoneNumber\<close>: \<open>UPDATE user SET is_manager = 1 WHERE phone_number = ?\<close>.\<close>

definition db_add_admin :: "bool \<Rightarrow> string \<Rightarrow> mysql \<Rightarrow> unit dres" where
  "db_add_admin ok p db =
     (if \<not> ok then (Inl DbConn, db)
      else (Inr (), db\<lparr>user_rows := map (\<lambda>(i, u). (i, if us_phone u = p then u\<lparr>us_manager := 1\<rparr> else u)) (user_rows db)\<rparr>))"

text \<open>\<open>AddScore\<close> and \<open>AddPhoneRecord\<close>: \<open>Create\<close> with an auto-increment id.\<close>

definition db_add_score :: "bool \<Rightarrow> score_record \<Rightarrow> mysql \<Rightarrow> unit dres" where
  "db_add_score ok sr db =
     (if \<not> ok then (Inl DbConn, db)
      else (Inr (), db\<lparr>score_rows := score_rows db @ [sr\<lparr>sr_id := score_next db\<rparr>], score_next := score_next db + 1\<rparr>))"

definition db_add_phone_record :: "bool \<Rightarrow> phone_record \<Rightarrow> mysql \<Rightarrow> unit dres" where
  "db_add_phone_record ok pr db =
     (if \<not> ok then (Inl DbConn, db)
      else (Inr (), db\<lparr>phone_rows := phone_rows db @ [pr\<lparr>pr_id := phone_next db\<rparr>], phone_next := phone_next db + 1\<rparr>))"

definition db_get_phone_records :: "bool \<Rightarrow> string \<Rightarrow> mysql \<Rightarrow> dberr + phone_record list" where
  "db_get_phone_records ok p db = (if \<not> ok then Inl DbConn else Inr (filter (\<lambda>pr. pr_phone pr = p) (phone_rows db)))"

text \<open>\<open>AddItem\<close> (\<open>Create\<close>) and \<open>GetItemByID\<close> (\<open>First\<close>: no row is the error
  \<open>ErrRecordNotFound\<close>).\<close>

definition db_add_item :: "bool \<Rightarrow> community_item \<Rightarrow> mysql \<Rightarrow> community_item dres" where
  "db_add_item ok it db =
     (if \<not> ok then (Inl DbConn, db)
      else (let it' = it\<lparr>item_id := item_next db\<rparr>
            in (Inr it', db\<lparr>item_rows := item_rows db @ [(item_next db, it')], item_next := item_next db + 1\<rparr>)))"

definition db_get_item :: "bool \<Rightarrow> go_int \<Rightarrow> mysql \<Rightarrow> dberr + community_item" where
  "db_get_item ok iid db =
     (if \<not> ok then Inl DbConn else case map_of (item_rows db) iid of None \<Rightarrow> Inl DbNotFound | Some it \<Rightarrow> Inr it)"

text \<open>\<open>UserRepository.GetAllItems\<close> (\<open>DB.Find(&items)\<close>), which no service
  calls: every row in table order.  Its \<open>ErrRecordNotFound\<close> branch is never
  taken, since \<open>Find\<close> into a slice does not report an empty result as an
  error.\<close>

definition db_get_all_items :: "bool \<Rightarrow> mysql \<Rightarrow> dberr + community_item list" where
  "db_get_all_items ok db = (if \<not> ok then Inl DbConn else Inr (map snd (item_rows db)))"

subsection \<open>Login\<close>

datatype acc_err = AccCode code_err | AccDb dberr | AccCache rerr | AccMaxRetries | AccAlreadyAdmin
  | AccNilPanic | AccNoScore | AccNoUser | AccParse

text \<open>The biography of a new user.\<close>

definition default_bio :: string where
  "default_bio = utf8 [0x6DFB, 0x52A0, 0x4E2A, 0x4EBA, 0x7B80, 0x4ECB, 0xFF0C, 0x8BA9, 0x5927, 0x5BB6, 0x66F4,
                       0x597D, 0x5730, 0x8BA4, 0x8BC6, 0x4F60, 0x7E]"

text \<open>The registration loop of \<open>Login\<close>, inside the transaction begun on \<open>db0\<close>:
  each attempt inserts the user under the next random name (request \<open>k\<close>); a
  duplicate name goes on to the next attempt; any other error rolls back.  After
  an insert, \<open>AddLikes(user.ID, 0)\<close> puts the user in the ranking set (request
  \<open>k + 1\<close>), and the deferred \<open>tx.Commit()\<close> (request \<open>k + 2\<close>) runs after the
  function has chosen to return the user: its failure is not seen.\<close>

fun register_loop ::
  "(nat \<Rightarrow> bool) \<Rightarrow> nat \<Rightarrow> string list \<Rightarrow> user \<Rightarrow> mysql \<Rightarrow> mysql \<Rightarrow> redis \<Rightarrow> (acc_err + user) \<times> mysql \<times> redis" where
  "register_loop net k [] u0 db0 db r = (Inl AccMaxRetries, tx_rollback db0 db, r)"
| "register_loop net k (nm # nms) u0 db0 db r =
     (case db_add_user (net k) (u0\<lparr>us_name := nm\<rparr>) db of
        (Inl DbDuplicate, db') \<Rightarrow> register_loop net (Suc k) nms u0 db0 db' r
      | (Inl e, db') \<Rightarrow> (Inl (AccDb e), tx_rollback db0 db', r)
      | (Inr u, db') \<Rightarrow>
          (case add_user_likes_cache (net (Suc k)) (us_id u) 0 r of
             (Inl e, r') \<Rightarrow> (Inl (AccCache e), tx_rollback db0 db', r')
           | (Inr _, r') \<Rightarrow> (Inr u, if net (Suc (Suc k)) then db' else tx_rollback db0 db', r')))"

text \<open>\<open>UserService.Login\<close>: validate the code (in memory), look the phone up
  (request 0), \<open>Begin\<close> (1); an unknown phone registers with five attempts
  from request 2, \<open>names\<close> being the values \<open>GenerateRandomUsername(20)\<close>
  (\<open>Auth\<close>) returns at the successive attempts; a known one commits (2) and is
  returned.\<close>

definition svc_login ::
  "(nat \<Rightarrow> bool) \<Rightarrow> string list \<Rightarrow> go_time \<Rightarrow> user_code \<Rightarrow> code_store \<Rightarrow> mysql \<Rightarrow> redis
   \<Rightarrow> (acc_err + user) \<times> code_store \<times> mysql \<times> redis" where
  "svc_login net names now uc cs db r =
     (case validate_code (uc_code uc) (uc_phone uc) cs of
        (Inl e, cs') \<Rightarrow> (Inl (AccCode e), cs', db, r)
      | (Inr _, cs') \<Rightarrow>
          (case db_get_user_by_phone (net 0) (uc_phone uc) db of
             Inl e \<Rightarrow> (Inl (AccDb e), cs', db, r)
           | Inr ex \<Rightarrow>
               if \<not> net 1 then (Inl (AccDb DbConn), cs', db, r)
               else (case ex of
                       None \<Rightarrow>
                         (let u0 = \<lparr>us_id = 0, us_name = [], us_phone = uc_phone uc, us_manager = 0,
                                    us_created = now, us_avatar = [], us_bio = default_bio, us_likes = 0\<rparr>;
                              (res, db', r') = register_loop net 2 (take 5 names) u0 db db r
                          in (res, cs', db', r'))
                     | Some u \<Rightarrow> if net 2 then (Inr u, cs', db, r) else (Inl (AccDb DbConn), cs', db, r))))"

subsection \<open>Administrators, records and items\<close>

text \<open>\<open>UserService.AddAdminByPhoneNumber\<close>: an unknown phone dereferences the nil
  user (\<open>user.IsManager\<close>) and panics.\<close>

definition svc_add_admin :: "(nat \<Rightarrow> bool) \<Rightarrow> string \<Rightarrow> mysql \<Rightarrow> (acc_err + unit) \<times> mysql" where
  "svc_add_admin net p db =
     (case db_get_user_by_phone (net 0) p db of
        Inl e \<Rightarrow> (Inl (AccDb e), db)
      | Inr None \<Rightarrow> (Inl AccNilPanic, db)
      | Inr (Some u) \<Rightarrow>
          if us_manager u = 1 then (Inl AccAlreadyAdmin, db)
          else (case db_add_admin (net 1) p db of (Inl e, db') \<Rightarrow> (Inl (AccDb e), db') | (Inr _, db') \<Rightarrow> (Inr (), db')))"

definition svc_add_score :: "(nat \<Rightarrow> bool) \<Rightarrow> score_record \<Rightarrow> mysql \<Rightarrow> (acc_err + unit) \<times> mysql" where
  "svc_add_score net sr db =
     (case db_add_score (net 0) sr db of (Inl e, db') \<Rightarrow> (Inl (AccDb e), db') | (Inr _, db') \<Rightarrow> (Inr (), db'))"

text \<open>The latest score record of a manager: \<open>Order("created_at desc").First\<close>,
  the newest, and among equally new ones the smallest id.\<close>

definition latest_score :: "go_int \<Rightarrow> score_record list \<Rightarrow> score_record option" where
  "latest_score mid srs =
     (case filter (\<lambda>sr. sr_manager sr = mid) srs of
        [] \<Rightarrow> None
      | srs' \<Rightarrow> Some (hd (sort_key (\<lambda>sr. (- sr_created sr, sr_id sr)) srs')))"

text \<open>\<open>UserService.AddPhoneRecord\<close>: the latest score record of the manager (0),
  its user (1), the new phone record (2).\<close>

definition svc_add_phone_record ::
  "(nat \<Rightarrow> bool) \<Rightarrow> go_int \<Rightarrow> string \<Rightarrow> go_time \<Rightarrow> mysql \<Rightarrow> (acc_err + unit) \<times> mysql" where
  "svc_add_phone_record net mid content now db =
     (if \<not> net 0 then (Inl (AccDb DbConn), db)
      else case latest_score mid (score_rows db) of
        None \<Rightarrow> (Inl AccNoScore, db)
      | Some sr \<Rightarrow>
          (case db_get_user_by_id (net 1) (sr_user sr) db of
             Inl e \<Rightarrow> (Inl (AccDb e), db)
           | Inr None \<Rightarrow> (Inl AccNoUser, db)
           | Inr (Some u) \<Rightarrow>
               (case db_add_phone_record (net 2)
                       \<lparr>pr_id = 0, pr_user = sr_user sr, pr_manager = sr_manager sr, pr_content = content,
                        pr_created = now, pr_satisfaction = sr_score sr, pr_phone = us_phone u\<rparr> db of
                  (Inl e, db') \<Rightarrow> (Inl (AccDb e), db')
                | (Inr _, db') \<Rightarrow> (Inr (), db'))))"

text \<open>\<open>UserService.AddItem\<close>: the stock starts at the capacity; the row is
  inserted (0), read back (1) and written to the cache (2).\<close>

definition svc_add_item ::
  "(nat \<Rightarrow> bool) \<Rightarrow> community_item \<Rightarrow> mysql \<Rightarrow> redis \<Rightarrow> (acc_err + unit) \<times> mysql \<times> redis" where
  "svc_add_item net it db r =
     (case db_add_item (net 0) (it\<lparr>item_remain := item_capacity it\<rparr>) db of
        (Inl e, db') \<Rightarrow> (Inl (AccDb e), db', r)
      | (Inr it', db') \<Rightarrow>
          (case db_get_item (net 1) (item_id it') db' of
             Inl e \<Rightarrow> (Inl (AccDb e), db', r)
           | Inr it'' \<Rightarrow>
               (case add_item_cache (net 2) it'' r of
                  (Inl e, r') \<Rightarrow> (Inl (AccCache e), db', r')
                | (Inr _, r') \<Rightarrow> (Inr (), db', r'))))"

text \<open>An item inserted by \<open>AddItem\<close> is listed last by \<open>GetAllItems\<close>, under
  the id MySQL gave it.\<close>

lemma db_get_all_items_add:
  "db_add_item True it db = (Inr it', db') \<Longrightarrow> db_get_all_items True db' = Inr (map snd (item_rows db) @ [it'])
     \<and> item_id it' = item_next db"
  by (auto simp: db_add_item_def db_get_all_items_def Let_def)

subsection \<open>Login registers a new user\<close>

lemma register_loop_fresh:
  assumes "\<not> list_ex (\<lambda>(i, v). us_name v = nm) (user_rows db)" "zset_of r likes_key = Inr z"
    "net k" "net (Suc k)"
  shows "register_loop net k (nm # nms) u0 db0 db r =
     (Inr (u0\<lparr>us_name := nm, us_id := user_next db\<rparr>),
      (let db' = db\<lparr>user_rows := user_rows db @ [(user_next db, u0\<lparr>us_name := nm, us_id := user_next db\<rparr>)],
                    user_next := user_next db + 1\<rparr>
       in if net (Suc (Suc k)) then db' else tx_rollback db0 db'),
      store likes_key (RZSet (AList.update (itoa (user_next db))
         (case map_of z (itoa (user_next db)) of None \<Rightarrow> 0 | Some s \<Rightarrow> s + 0) z)) r)"
  using assms by (simp add: db_add_user_def add_user_likes_cache_def call_def zincrby_srv_def Let_def)

text \<open>\<open>AddAdminByPhoneNumber\<close> for a phone with no account reaches
  \<open>user.IsManager\<close> on the nil user.\<close>

lemma add_admin_unknown_phone_panics:
  "net 0 \<Longrightarrow> \<not> list_ex (\<lambda>(i, u). us_phone u = p) (user_rows db) \<Longrightarrow>
   svc_add_admin net p db = (Inl AccNilPanic, db)"
proof -
  assume "net 0" and n: "\<not> list_ex (\<lambda>(i, u). us_phone u = p) (user_rows db)"
  from n have "find (\<lambda>(i, u). us_phone u = p) (user_rows db) = None"
    by (auto simp: find_None_iff list_ex_iff)
  with \<open>net 0\<close> show ?thesis by (simp add: svc_add_admin_def db_get_user_by_phone_def)
qed

text \<open>The deferred \<open>tx.Commit()\<close> of a registration runs after the user has been
  chosen as the result: when it fails, \<open>Login\<close> still returns the new user while
  the row is rolled back (its id consumed) and the ranking entry stays.\<close>

lemma login_commit_failure_unseen:
  assumes "code_map cs (uc_phone uc) = Some c" "uc_code c = uc_code uc"
    "db_get_user_by_phone True (uc_phone uc) db = Inr None"
    "\<not> list_ex (\<lambda>(i, v). us_name v = nm) (user_rows db)"
    "zset_of r likes_key = Inr z"
  shows "\<exists>u. fst (svc_login (\<lambda>i. i \<noteq> 4) (nm # nms) now uc cs db r) = Inr u
     \<and> us_id u = user_next db
     \<and> user_rows (fst (snd (snd (svc_login (\<lambda>i. i \<noteq> 4) (nm # nms) now uc cs db r)))) = user_rows db
     \<and> user_next (fst (snd (snd (svc_login (\<lambda>i. i \<noteq> 4) (nm # nms) now uc cs db r)))) = user_next db + 1"
proof -
  have v: "validate_code (uc_code uc) (uc_phone uc) cs =
      (Inr (), cs\<lparr>code_map := (code_map cs)(uc_phone uc := None), timer_map := (timer_map cs)(uc_phone uc := None)\<rparr>)"
    using assms(1,2) by (simp add: validate_code_def)
  show ?thesis
    using v assms(3-5)
    by (simp add: svc_login_def register_loop_fresh tx_rollback_def del: register_loop.simps)
qed

text \<open>C29 (functional): \<open>Login\<close> with a valid code for a phone that has no
  account registers a new user: the code is consumed, the user is inserted under
  the first random name with the next auto-increment id, the phone of the code,
  no likes and no administrator flag, and the user enters the likes ranking set
  with the score it already had there (\<open>ZIncrBy\<close> by 0).\<close>

theorem login_registers_new_user:
  assumes "code_map cs (uc_phone uc) = Some c" "uc_code c = uc_code uc"
    "db_get_user_by_phone True (uc_phone uc) db = Inr None"
    "\<not> list_ex (\<lambda>(i, v). us_name v = hd names) (user_rows db)" "names \<noteq> []"
    "zset_of r likes_key = Inr z"
  shows "\<exists>u. fst (svc_login (\<lambda>_. True) names now uc cs db r) = Inr u
     \<and> us_id u = user_next db \<and> us_phone u = uc_phone uc \<and> us_likes u = 0 \<and> us_manager u = 0
     \<and> user_rows (fst (snd (snd (svc_login (\<lambda>_. True) names now uc cs db r)))) = user_rows db @ [(user_next db, u)]
     \<and> code_map (fst (snd (svc_login (\<lambda>_. True) names now uc cs db r))) (uc_phone uc) = None
     \<and> fst (zscore_srv likes_key (itoa (user_next db)) (snd (snd (snd (svc_login (\<lambda>_. True) names now uc cs db r)))))
       = Inr (case map_of z (itoa (user_next db)) of None \<Rightarrow> 0 | Some s \<Rightarrow> s)"
proof -
  obtain nm nms where n: "names = nm # nms" using assms(5) by (cases names) auto
  have v: "validate_code (uc_code uc) (uc_phone uc) cs =
      (Inr (), cs\<lparr>code_map := (code_map cs)(uc_phone uc := None), timer_map := (timer_map cs)(uc_phone uc := None)\<rparr>)"
    using assms(1,2) by (simp add: validate_code_def)
  have db: "db_get_user_by_phone (True) (uc_phone uc) db = Inr None" by (rule assms(3))
  have take5: "take 5 names = nm # take 4 nms"
    using n by simp
  show ?thesis
    using v db assms(4,6) n
    by (simp add: svc_login_def take5 register_loop_fresh zscore_store_update Let_def split: option.split del: register_loop.simps)
qed

theorem login_registers_new_user_witness:
  "code_map (add_code demo_code 120 empty_code_store) (uc_phone demo_code) = Some demo_code
   \<and> uc_code demo_code = uc_code demo_code
   \<and> db_get_user_by_phone True (uc_phone demo_code) rank_db = Inr None
   \<and> \<not> list_ex (\<lambda>(i, v). us_name v = hd [''user_abcdefghijklmno'']) (user_rows rank_db)
   \<and> [''user_abcdefghijklmno''] \<noteq> []
   \<and> zset_of rank_demo likes_key = Inr [(''1'', 5), (''2'', 9), (''3'', 2), (''4'', 7)]
   \<and> (\<exists>u. fst (svc_login (\<lambda>_. True) [''user_abcdefghijklmno''] 0 demo_code (add_code demo_code 120 empty_code_store) rank_db rank_demo) = Inr u
     \<and> us_id u = user_next rank_db \<and> us_phone u = uc_phone demo_code \<and> us_likes u = 0 \<and> us_manager u = 0
     \<and> user_rows (fst (snd (snd (svc_login (\<lambda>_. True) [''user_abcdefghijklmno''] 0 demo_code (add_code demo_code 120 empty_code_store) rank_db rank_demo)))) = user_rows rank_db @ [(user_next rank_db, u)]
     \<and> code_map (fst (snd (svc_login (\<lambda>_. True) [''user_abcdefghijklmno''] 0 demo_code (add_code demo_code 120 empty_code_store) rank_db rank_demo))) (uc_phone demo_code) = None
     \<and> fst (zscore_srv likes_key (itoa (user_next rank_db)) (snd (snd (snd (svc_login (\<lambda>_. True) [''user_abcdefghijklmno''] 0 demo_code (add_code demo_code 120 empty_code_store) rank_db rank_demo)))))
       = Inr (case map_of [(''1'', 5), (''2'', 9), (''3'', 2), (''4'', 7)] (itoa (user_next rank_db)) of None \<Rightarrow> 0 | Some s \<Rightarrow> s))"
proof -
  have h1: "code_map (add_code demo_code 120 empty_code_store) (uc_phone demo_code) = Some demo_code"
    by (simp add: add_code_def empty_code_store_def Let_def)
  have h3: "db_get_user_by_phone True (uc_phone demo_code) rank_db = Inr None"
    by code_simp
  have h4: "\<not> list_ex (\<lambda>(i, v). us_name v = hd [''user_abcdefghijklmno'']) (user_rows rank_db)"
    by code_simp
  have h6: "zset_of rank_demo likes_key = Inr [(''1'', 5), (''2'', 9), (''3'', 2), (''4'', 7)]"
    by (simp add: rank_demo_def zset_of_def lookup_def)
  show ?thesis
    using login_registers_new_user [OF h1 refl h3 h4 _ h6] h1 h3 h4 h6 by simp
qed

end
