(* ===== verification/Scan_Loop.thy ===== *)
theory Scan_Loop
  imports Like_Cache
begin

text \<open>
  The cursor loop of \<open>GetAllArticlesFromHash\<close>
  (\<open>internal/article/article_repository/article_cache_repository.go\<close>) over a
  paged \<open>SCAN\<close>.  \<open>Like_Cache\<close> reads the keyspace in one pass
  (\<open>get_all_articles_from_hash\<close>); here each \<open>SCAN\<close> returns one page and the
  next cursor, and the loop goes on until the cursor is 0, as the code does.
  Because the code only leaves its loop on a zero cursor, the loop is a
  \<open>partial_function\<close> in the option monad: that it returns is a theorem
  (\<open>scan_loop_terminates\<close>), which rests on Redis's guarantee that a full
  iteration ends.  With every request answered the loop returns what the
  one-pass reading returns (\<open>scan_loop_equiv\<close>).
\<close>

subsection \<open>The paged \<open>SCAN\<close> command\<close>

text \<open>go-redis sends no \<open>COUNT\<close> for the count 0 the code passes, so Redis uses
  its default of 10.\<close>

definition scan_count :: nat where
  "scan_count = 10"

text \<open>Redis's glob matching for the patterns the program uses, whose only special
  character is \<open>*\<close> (any sequence of bytes).\<close>

fun glob :: "string \<Rightarrow> string \<Rightarrow> bool" where
  "glob [] k \<longleftrightarrow> k = []"
| "glob (c # ps) k \<longleftrightarrow>
     (if c = CHR ''*'' then list_ex (\<lambda>i. glob ps (drop i k)) [0..<Suc (length k)]
      else (case k of [] \<Rightarrow> False | d # ks \<Rightarrow> c = d \<and> glob ps ks))"

text \<open>\<open>SCAN cursor MATCH pattern\<close>: the cursor is a position in the keyspace; a
  page covers the next \<open>scan_count\<close> keys, of which it returns those matching
  the pattern, and the next cursor is 0 once the page reaches the end.\<close>

definition scan_page_srv :: "nat \<Rightarrow> string \<Rightarrow> redis \<Rightarrow> (string list \<times> nat) rres" where
  "scan_page_srv cur pat r =
     (let ks = map fst (data r); nxt = cur + scan_count
      in (Inr (filter (glob pat) (take scan_count (drop cur ks)), if length ks \<le> nxt then 0 else nxt), r))"

subsection \<open>The loop\<close>

text \<open>One round of the \<open>for\<close> loop: \<open>SCAN\<close> from the cursor (request \<open>j\<close>),
  then for each returned key the body of \<open>scan_entry\<close> (its \<open>HGET\<close> is request
  \<open>j + 1 + i\<close>); a \<open>SCAN\<close> error returns the error and drops what was
  collected.\<close>

partial_function (option) scan_loop ::
  "(nat \<Rightarrow> bool) \<Rightarrow> nat \<Rightarrow> nat \<Rightarrow> redis \<Rightarrow> (go_int \<times> go_int) list
   \<Rightarrow> (art_err + (go_int \<times> go_int) list) option" where
  "scan_loop net j cur r acc =
     (case fst (call (net j) (scan_page_srv cur (basic_scan_prefix @ ''*'')) r) of
        Inl e \<Rightarrow> Some (Inl (ErrRedis e))
      | Inr (ks, nxt) \<Rightarrow>
          (let acc' = acc @ List.map_filter (\<lambda>(i, k). scan_entry (net (Suc j + i)) r k) (enumerate 0 ks)
           in if nxt = 0 then Some (Inr acc') else scan_loop net (Suc j + length ks) nxt r acc'))"

text \<open>\<open>GetAllArticlesFromHash\<close>: cursor 0, no results yet.\<close>

definition get_all_articles_scan :: "(nat \<Rightarrow> bool) \<Rightarrow> redis \<Rightarrow> (art_err + (go_int \<times> go_int) list) option" where
  "get_all_articles_scan net r = scan_loop net 0 0 r []"

subsection \<open>Glob patterns\<close>

lemma glob_literal: "CHR ''*'' \<notin> set ps \<Longrightarrow> glob ps k \<longleftrightarrow> k = ps"
proof (induction ps arbitrary: k)
  case Nil then show ?case by simp
next
  case (Cons c ps)
  then have "c \<noteq> CHR ''*''" "CHR ''*'' \<notin> set ps" by auto
  with Cons.IH show ?case by (cases k) auto
qed

lemma glob_star: "glob (CHR ''*'' # s) k \<longleftrightarrow> (\<exists>i \<le> length k. glob s (drop i k))"
  by (simp only: glob.simps if_True list_ex_iff set_upt) (auto simp: less_Suc_eq_le)


lemma glob_literal_prefix:
  "CHR ''*'' \<notin> set p \<Longrightarrow> glob (p @ ps) k \<longleftrightarrow> take (length p) k = p \<and> glob ps (drop (length p) k)"
proof (induction p arbitrary: k)
  case Nil then show ?case by simp
next
  case (Cons c p)
  then have "c \<noteq> CHR ''*''" "CHR ''*'' \<notin> set p" by auto
  with Cons.IH show ?case by (cases k) auto
qed

lemma glob_prefix_star: "CHR ''*'' \<notin> set p \<Longrightarrow> glob (p @ ''*'') k \<longleftrightarrow> glob_prefix p k"
  by (auto simp: glob_literal_prefix glob_star glob_prefix_def intro: exI [of _ "length k"])

lemma suffix_drop: "(\<exists>i \<le> length x. drop i x = s) \<longleftrightarrow> (\<exists>m. x = m @ s)"
proof
  assume "\<exists>i \<le> length x. drop i x = s"
  then obtain i where "drop i x = s" by blast
  then show "\<exists>m. x = m @ s" by (metis append_take_drop_id)
next
  assume "\<exists>m. x = m @ s"
  then obtain m where "x = m @ s" by blast
  then show "\<exists>i \<le> length x. drop i x = s" by (intro exI [of _ "length m"]) simp
qed

lemma glob_infix_star:
  assumes "CHR ''*'' \<notin> set p" "CHR ''*'' \<notin> set s"
  shows "glob (p @ CHR ''*'' # s) k \<longleftrightarrow> take (length p) k = p \<and> (\<exists>m. drop (length p) k = m @ s)"
  by (simp only: glob_literal_prefix [OF assms(1)] glob_star glob_literal [OF assms(2)] suffix_drop)

lemma basic_scan_pattern: "glob (basic_scan_prefix @ ''*'') = glob_prefix basic_scan_prefix"
  by (rule ext, rule glob_prefix_star) (simp add: basic_scan_prefix_def)

subsection \<open>Termination and equivalence\<close>

lemma scan_loop_step:
  "scan_loop net j cur r acc =
     (if \<not> net j then Some (Inl (ErrRedis ErrConn))
      else let ks = map fst (data r);
               page = filter (glob_prefix basic_scan_prefix) (take scan_count (drop cur ks));
               acc' = acc @ List.map_filter (\<lambda>(i, k). scan_entry (net (Suc j + i)) r k) (enumerate 0 page)
           in if length ks \<le> cur + scan_count then Some (Inr acc')
              else scan_loop net (Suc j + length page) (cur + scan_count) r acc')"
  by (subst scan_loop.simps) (simp add: call_def scan_page_srv_def Let_def scan_count_def basic_scan_pattern)

lemma scan_loop_returns: "\<exists>y. scan_loop net j cur r acc = Some y"
proof (induction "length (data r) - cur" arbitrary: j cur acc rule: less_induct)
  case less
  show ?case
  proof (cases "\<not> net j \<or> length (data r) \<le> cur + scan_count")
    case True
    then show ?thesis by (subst scan_loop_step) (auto simp: Let_def)
  next
    case False
    then have "length (data r) - (cur + scan_count) < length (data r) - cur"
      unfolding scan_count_def by linarith
    with less show ?thesis by (subst scan_loop_step) (simp add: Let_def False)
  qed
qed

text \<open>C21 (termination).  \<open>GetAllArticlesFromHash\<close> returns, whatever the
  keyspace and whichever requests fail: the cursor advances by a page per round
  until \<open>SCAN\<close> reports the end.\<close>

theorem scan_loop_terminates: "\<exists>y. get_all_articles_scan net r = Some y"
  unfolding get_all_articles_scan_def by (rule scan_loop_returns)

lemma drop_take_filter:
  "filter P (drop cur xs) = filter P (take n (drop cur xs)) @ filter P (drop (cur + n) xs)"
  by (metis add.commute append_take_drop_id drop_drop filter_append)

lemma scan_loop_all_ok:
  "scan_loop (\<lambda>_. True) j cur r acc =
     Some (Inr (acc @ List.map_filter (scan_entry True r) (filter (glob_prefix basic_scan_prefix) (drop cur (map fst (data r))))))"
proof (induction "length (data r) - cur" arbitrary: j cur acc rule: less_induct)
  case less
  show ?case
  proof (cases "length (data r) \<le> cur + scan_count")
    case True
    then have "take scan_count (drop cur (map fst (data r))) = drop cur (map fst (data r))" by simp
    with True show ?thesis by (subst scan_loop_step) (simp add: Let_def map_filter_enumerate)
  next
    case False
    then have "length (data r) - (cur + scan_count) < length (data r) - cur"
      by (simp add: scan_count_def)
    note ih = less(1) [OF this]
    from False show ?thesis
      by (subst scan_loop_step) (simp add: Let_def ih map_filter_enumerate drop_take_filter [of _ cur _ scan_count] map_filter_app)
  qed
qed

text \<open>C23 (equivalence).  With every request answered, the cursor loop returns
  exactly the one-pass reading \<open>get_all_articles_from_hash\<close> that the
  reconciliation tick of \<open>Article_Service\<close> is built on.\<close>

theorem scan_loop_equiv:
  "get_all_articles_scan (\<lambda>_. True) r = Some (get_all_articles_from_hash (\<lambda>_. True) r)"
  by (simp add: get_all_articles_scan_def scan_loop_all_ok get_all_articles_ok)

end
