(* ===== verification/Item_Listing.thy ===== *)
theory Item_Listing
  imports Scan_Loop Inventory
begin

text \<open>
  \<open>UserCacheRepository.GetAllItems\<close>
  (\<open>internal/user/user_repository/user_cache_repository.go\<close>) and
  \<open>UserService.GetAllItems\<close>: a \<open>SCAN\<close> cursor loop over the item hashes
  \<open>hcl:user:item:*:info\<close> written by \<open>AddItem\<close> (\<open>Inventory\<close>), reading each
  hash with \<open>HGETALL\<close> and parsing its fields.  Unlike the loop of
  \<open>GetAllArticlesFromHash\<close> (\<open>Scan_Loop\<close>), any failure on any key aborts the
  whole listing.  The lemmas show that the loop returns, that it reads each
  matching key once in keyspace order, and that an item written by \<open>AddItem\<close>
  is read back as it was written.
\<close>

subsection \<open>Reading one item\<close>

definition item_scan_pattern :: string where
  "item_scan_pattern = user_cache_prefix @ '':item:*:info''"

text \<open>\<open>itemMap[f]\<close>: a missing field reads as the empty string.\<close>

definition field_of :: "(string \<times> string) list \<Rightarrow> string \<Rightarrow> string" where
  "field_of h f = (case map_of h f of None \<Rightarrow> [] | Some v \<Rightarrow> v)"

text \<open>The loop body's parsing: \<open>strconv.Atoi\<close> of \<open>id\<close>, \<open>price\<close>, \<open>capacity\<close>
  and \<open>remain\<close>, \<open>time.Parse(time.RFC3339Nano, ...)\<close> of \<open>begin\<close>; the name is
  taken as it is.\<close>

definition read_item :: "(string \<times> string) list \<Rightarrow> community_item option" where
  "read_item h =
     (case atoi (field_of h ''id'') of None \<Rightarrow> None | Some i \<Rightarrow>
      case atoi (field_of h ''price'') of None \<Rightarrow> None | Some p \<Rightarrow>
      case atoi (field_of h ''capacity'') of None \<Rightarrow> None | Some c \<Rightarrow>
      case atoi (field_of h ''remain'') of None \<Rightarrow> None | Some rm \<Rightarrow>
      case parse_rfc3339 (field_of h ''begin'') of None \<Rightarrow> None | Some b \<Rightarrow>
        Some \<lparr>item_id = i, item_name = field_of h ''name'', item_capacity = c, item_remain = rm,
              item_price = p, item_begin = b\<rparr>)"

datatype item_err = ItemRedis rerr | ItemParse

text \<open>The inner \<open>for _, key := range keys\<close>: \<open>HGETALL\<close> of the \<open>i\<close>-th key is
  request \<open>j + i\<close>; the first error returns.\<close>

fun read_items ::
  "(nat \<Rightarrow> bool) \<Rightarrow> nat \<Rightarrow> redis \<Rightarrow> string list \<Rightarrow> item_err + community_item list" where
  "read_items net j r [] = Inr []"
| "read_items net j r (k # ks) =
     (case fst (call (net j) (hgetall_srv k) r) of
        Inl e \<Rightarrow> Inl (ItemRedis e)
      | Inr h \<Rightarrow>
          (case read_item h of
             None \<Rightarrow> Inl ItemParse
           | Some it \<Rightarrow> (case read_items net (Suc j) r ks of Inl e \<Rightarrow> Inl e | Inr its \<Rightarrow> Inr (it # its))))"

subsection \<open>The cursor loop\<close>

partial_function (option) items_loop ::
  "(nat \<Rightarrow> bool) \<Rightarrow> nat \<Rightarrow> nat \<Rightarrow> redis \<Rightarrow> community_item list \<Rightarrow> (item_err + community_item list) option" where
  "items_loop net j cur r acc =
     (case fst (call (net j) (scan_page_srv cur item_scan_pattern) r) of
        Inl e \<Rightarrow> Some (Inl (ItemRedis e))
      | Inr (ks, nxt) \<Rightarrow>
          (case read_items net (Suc j) r ks of
             Inl e \<Rightarrow> Some (Inl e)
           | Inr its \<Rightarrow>
               if nxt = 0 then Some (Inr (acc @ its))
               else items_loop net (Suc j + length ks) nxt r (acc @ its)))"

definition get_all_items_cache :: "(nat \<Rightarrow> bool) \<Rightarrow> redis \<Rightarrow> (item_err + community_item list) option" where
  "get_all_items_cache net r = items_loop net 0 0 r []"

subsection \<open>Termination and the one-pass reading\<close>

lemma items_loop_step:
  "items_loop net j cur r acc =
     (if \<not> net j then Some (Inl (ItemRedis ErrConn))
      else let ks = map fst (data r);
               page = filter (glob item_scan_pattern) (take scan_count (drop cur ks))
           in case read_items net (Suc j) r page of
                Inl e \<Rightarrow> Some (Inl e)
              | Inr its \<Rightarrow>
                  if length ks \<le> cur + scan_count then Some (Inr (acc @ its))
                  else items_loop net (Suc j + length page) (cur + scan_count) r (acc @ its))"
  by (subst items_loop.simps) (simp add: call_def scan_page_srv_def Let_def scan_count_def split: sum.split)

lemma items_loop_returns: "\<exists>y. items_loop net j cur r acc = Some y"
proof (induction "length (data r) - cur" arbitrary: j cur acc rule: less_induct)
  case less
  show ?case
  proof (cases "\<not> net j \<or> length (data r) \<le> cur + scan_count")
    case True
    then show ?thesis by (subst items_loop_step) (auto simp: Let_def split: sum.split)
  next
    case False
    then have "length (data r) - (cur + scan_count) < length (data r) - cur"
      unfolding scan_count_def by linarith
    with less False show ?thesis by (subst items_loop_step) (simp add: Let_def split: sum.split)
  qed
qed

lemma read_items_ok_index: "read_items (\<lambda>_. True) j r ks = read_items (\<lambda>_. True) 0 r ks"
proof (induction ks arbitrary: j)
  case (Cons k ks)
  show ?case by (simp only: read_items.simps Cons.IH [of "Suc j"] Cons.IH [of "Suc 0"])
qed simp

lemma read_items_ok_append:
  "read_items (\<lambda>_. True) 0 r (xs @ ys) =
     (case read_items (\<lambda>_. True) 0 r xs of
        Inl e \<Rightarrow> Inl e
      | Inr a \<Rightarrow> (case read_items (\<lambda>_. True) 0 r ys of Inl e \<Rightarrow> Inl e | Inr b \<Rightarrow> Inr (a @ b)))"
  by (induction xs) (auto simp: call_def read_items_ok_index [of "Suc 0"] split: sum.split option.split)


lemma items_loop_all_ok:
  "items_loop (\<lambda>_. True) j cur r acc =
     Some (case read_items (\<lambda>_. True) 0 r (filter (glob item_scan_pattern) (drop cur (map fst (data r)))) of
             Inl e \<Rightarrow> Inl e | Inr its \<Rightarrow> Inr (acc @ its))"
proof (induction "length (data r) - cur" arbitrary: j cur acc rule: less_induct)
  case less
  show ?case
  proof (cases "length (data r) \<le> cur + scan_count")
    case True
    then have "take scan_count (drop cur (map fst (data r))) = drop cur (map fst (data r))" by simp
    with True show ?thesis
      by (subst items_loop_step) (simp add: Let_def read_items_ok_index [of "Suc j"] split: sum.split)
  next
    case False
    then have "length (data r) - (cur + scan_count) < length (data r) - cur"
      unfolding scan_count_def by linarith
    note ih = less(1) [OF this]
    from False show ?thesis
      by (subst items_loop_step)
         (simp add: Let_def ih read_items_ok_index [of "Suc j"] drop_take_filter [of _ cur _ scan_count]
                    read_items_ok_append split: sum.split)
  qed
qed

subsection \<open>Writing then listing\<close>

lemma item_scan_pattern_split: "item_scan_pattern = ''hcl:user:item:'' @ CHR ''*'' # '':info''"
  by (simp add: item_scan_pattern_def user_cache_prefix_def)

lemma take_drop_infix:
  "(take (length p) k = p \<and> (\<exists>m. drop (length p) k = m @ s)) \<longleftrightarrow> (\<exists>m. k = p @ m @ s)"
  by (metis append_eq_conv_conj)

lemma glob_item_scan_pattern: "glob item_scan_pattern k \<longleftrightarrow> (\<exists>m. k = ''hcl:user:item:'' @ m @ '':info'')"
  unfolding item_scan_pattern_split take_drop_infix [symmetric] by (rule glob_infix_star) simp_all

lemma item_info_key_matches: "glob item_scan_pattern (item_info_key iid)"
  by (simp add: glob_item_scan_pattern item_info_key_def user_cache_prefix_def)

lemma keys_update_new:
  "k \<notin> set (map fst al) \<Longrightarrow> map fst (AList.update k v al) = map fst al @ [k]"
  by (induction al) auto

lemma read_item_written:
  assumes "in_int64 (item_id it)" "in_int64 (item_price it)" "in_int64 (item_capacity it)"
    "in_int64 (item_remain it)" "in_int64 (item_begin it)"
  shows "read_item (fold (\<lambda>(f, v). AList.update f v)
            [(''id'', itoa (item_id it)), (''name'', item_name it), (''price'', itoa (item_price it)),
             (''capacity'', itoa (item_capacity it)), (''remain'', itoa (item_remain it)),
             (''begin'', rfc3339 (item_begin it))] []) = Some it"
  using assms by (simp add: read_item_def field_of_def atoi_itoa rfc3339_def parse_rfc3339_def)


text \<open>C30 (roundtrip).  On a store holding no item hash yet, an item written by
  the cache's \<open>AddItem\<close> (with its fields in Go's \<open>int\<close> range) is listed by
  \<open>GetAllItems\<close> exactly as it was written, and alone.\<close>

theorem add_item_then_list:
  assumes none: "\<not> list_ex (glob item_scan_pattern) (map fst (data r))"
    and rng: "in_int64 (item_id it)" "in_int64 (item_price it)" "in_int64 (item_capacity it)"
    "in_int64 (item_remain it)" "in_int64 (item_begin it)"
  shows "get_all_items_cache (\<lambda>_. True) (snd (add_item_cache True it r)) = Some (Inr [it])"
proof -
  define k where "k = item_info_key (item_id it)"
  define H where "H = fold (\<lambda>(f, v). AList.update f v)
            [(''id'', itoa (item_id it)), (''name'', item_name it), (''price'', itoa (item_price it)),
             (''capacity'', itoa (item_capacity it)), (''remain'', itoa (item_remain it)),
             (''begin'', rfc3339 (item_begin it))] ([] :: (string \<times> string) list)"
  have km: "glob item_scan_pattern k" unfolding k_def by (rule item_info_key_matches)
  with none have nk: "k \<notin> set (map fst (data r))" by (auto simp: list_ex_iff)
  then have "lookup r k = None" by (simp add: lookup_def map_of_eq_None_iff)
  then have add: "snd (add_item_cache True it r) = store k (RHash H) r"
    by (simp add: add_item_cache_def call_def hset_srv_def hash_of_def k_def H_def)
  have keys: "map fst (data (store k (RHash H) r)) = map fst (data r) @ [k]"
    using nk by (simp add: store_def keys_update_new)
  have "filter (glob item_scan_pattern) (map fst (data r)) = []"
    using none by (simp add: filter_empty_conv list_ex_iff)
  with km have page: "filter (glob item_scan_pattern) (map fst (data (store k (RHash H) r))) = [k]"
    by (simp add: keys)
  have "hgetall_srv k (store k (RHash H) r) = (Inr H, store k (RHash H) r)"
    by (simp add: hgetall_srv_def hash_of_def lookup_def store_def)
  moreover have "read_item H = Some it" unfolding H_def using rng by (rule read_item_written)
  ultimately have "read_items (\<lambda>_. True) 0 (store k (RHash H) r) [k] = Inr [it]"
    by (simp add: call_def)
  then show ?thesis
    by (simp add: add get_all_items_cache_def items_loop_all_ok page)
qed

theorem add_item_then_list_witness:
  "\<not> list_ex (glob item_scan_pattern) (map fst (data empty_redis))
   \<and> in_int64 (item_id demo_item) \<and> in_int64 (item_price demo_item) \<and> in_int64 (item_capacity demo_item)
   \<and> in_int64 (item_remain demo_item) \<and> in_int64 (item_begin demo_item)
   \<and> get_all_items_cache (\<lambda>_. True) (snd (add_item_cache True demo_item empty_redis)) = Some (Inr [demo_item])"
proof -
  have h: "\<not> list_ex (glob item_scan_pattern) (map fst (data empty_redis))" by (simp add: empty_redis_def)
  have i: "in_int64 (item_id demo_item)" "in_int64 (item_price demo_item)" "in_int64 (item_capacity demo_item)"
    "in_int64 (item_remain demo_item)" "in_int64 (item_begin demo_item)"
    by (simp_all add: demo_item_def in_int64_def)
  show ?thesis using add_item_then_list [OF h i] h i by blast
qed

end
