(* ===== verification/Account_Http.thy ===== *)
theory Account_Http
  imports Accounts Item_Listing
begin

text \<open>
  The account handlers of \<open>UserController\<close>
  (\<open>internal/user/user_controller/user_controller.go\<close>) and the service reads
  they call: \<open>Login\<close>, \<open>GetUserInfo\<close>, \<open>AddAdministrator\<close>, \<open>AddScore\<close>,
  \<open>AddPhoneRecord\<close>, \<open>GetPhoneRecordByPhone\<close>, \<open>GetOtherUserInfo\<close>, \<open>AddItem\<close>
  and \<open>GetAllItems\<close>, in the style of \<open>Http_Layer\<close>: a handler returns the
  responses it writes and whether it panicked.  \<open>emsg\<close> is the text of a
  service error whose message depends on which request failed or on a library's
  error text; the texts the code spells out are written out.  \<open>GenAccessToken\<close>
  is the jwt library's signing, the argument \<open>gen\<close>.
\<close>

subsection \<open>Service reads\<close>

text \<open>\<open>UserService.GetUserByID\<close>: no row is a nil user, not an error.\<close>

definition svc_get_user_by_id :: "(nat \<Rightarrow> bool) \<Rightarrow> go_int \<Rightarrow> mysql \<Rightarrow> acc_err + user option" where
  "svc_get_user_by_id net uid db =
     (case db_get_user_by_id (net 0) uid db of Inl e \<Rightarrow> Inl (AccDb e) | Inr uo \<Rightarrow> Inr uo)"

definition svc_get_phone_records :: "(nat \<Rightarrow> bool) \<Rightarrow> string \<Rightarrow> mysql \<Rightarrow> acc_err + phone_record list" where
  "svc_get_phone_records net p db =
     (case db_get_phone_records (net 0) p db of Inl e \<Rightarrow> Inl (AccDb e) | Inr rs \<Rightarrow> Inr rs)"

subsection \<open>Message texts\<close>

definition bad_phone_text :: string where
  "bad_phone_text = utf8 [0x9519, 0x8BEF, 0x8BF7, 0x6C42, 0x3A, 0x624B, 0x673A, 0x53F7, 0x683C, 0x5F0F, 0x9519, 0x8BEF]"

definition already_admin_text :: string where
  "already_admin_text = ''UserService.AddAdminByPhoneNumber err: 400:''
     @ utf8 [0x8BE5, 0x7528, 0x6237, 0x5DF2, 0x7ECF, 0x662F, 0x7BA1, 0x7406, 0x5458]"

text \<open>The errors of \<open>UserService.AddPhoneRecord\<close> whose text is fixed.\<close>

definition phone_record_err_text :: "(acc_err \<Rightarrow> string) \<Rightarrow> acc_err \<Rightarrow> string" where
  "phone_record_err_text emsg e =
     (case e of
        AccNoScore \<Rightarrow> ''UserService.AddPhoneRecord ''
                        @ utf8 [0x9519, 0x8BEF, 0x8BF7, 0x6C42, 0x3A, 0x672A, 0x627E, 0x5230, 0x8BC4, 0x5206, 0x8BB0, 0x5F55]
      | AccNoUser \<Rightarrow> ''UserService.AddPhoneRecord ''
                        @ utf8 [0x9519, 0x8BEF, 0x8BF7, 0x6C42, 0x3A, 0x7528, 0x6237, 0x4E0D, 0x5B58, 0x5728]
      | _ \<Rightarrow> emsg e)"

subsection \<open>Handlers\<close>

text \<open>\<open>UserController.Login\<close>: the body binds into a \<open>UserCode\<close> value (the
  literal \<open>null\<close> leaves it zero); the phone is checked before the service.\<close>

definition ctrl_login ::
  "(string \<times> error_type) list \<Rightarrow> (acc_err \<Rightarrow> string) \<Rightarrow> (nat \<Rightarrow> bool) \<Rightarrow> string list \<Rightarrow> go_time
   \<Rightarrow> (go_int \<Rightarrow> go_int \<Rightarrow> string + string) \<Rightarrow> user_code bind_result \<Rightarrow> code_store \<Rightarrow> mysql \<Rightarrow> redis
   \<Rightarrow> (string \<times> string) list handler_out \<times> code_store \<times> mysql \<times> redis" where
  "ctrl_login ord emsg net names now gen body cs db r =
     (case body of
        BindErr t \<Rightarrow> (([(400, NoBody), handle_user_error ord (''UserController.Login err: 400:'' @ bind_failed_text @ t)], False),
                     cs, db, r)
      | _ \<Rightarrow>
          (let uc = (case body of BindOk u \<Rightarrow> u | _ \<Rightarrow> \<lparr>uc_code = [], uc_phone = []\<rparr>)
           in if \<not> validate_phone_number (uc_phone uc)
              then (([handle_user_error ord (''UserController.Login err: 400:'' @ bad_phone_text)], False), cs, db, r)
              else (case svc_login net names now uc cs db r of
                      (Inl e, cs', db', r') \<Rightarrow> (([handle_user_error ord (''UserController.Login err: '' @ emsg e)], False), cs', db', r')
                    | (Inr u, cs', db', r') \<Rightarrow>
                        (case gen (us_id u) (us_manager u) of
                           Inl t \<Rightarrow> (([handle_user_error ord (''UserController.Login err: 500:''
                                       @ utf8 [0x751F, 0x6210] @ ''accessToken'' @ utf8 [0x5931, 0x8D25] @ '':'' @ t)], False), cs', db', r')
                         | Inr tok \<Rightarrow> (([(200, success [(''accessToken'', tok)])], False), cs', db', r')))))"

definition ctrl_get_user_info ::
  "(string \<times> error_type) list \<Rightarrow> (acc_err \<Rightarrow> string) \<Rightarrow> (nat \<Rightarrow> bool) \<Rightarrow> go_int \<Rightarrow> mysql \<Rightarrow> user option handler_out" where
  "ctrl_get_user_info ord emsg net uid db =
     (case svc_get_user_by_id net uid db of
        Inl e \<Rightarrow> ([handle_user_error ord (''UserController.GetUserInfo err: '' @ emsg e)], False)
      | Inr uo \<Rightarrow> ([(200, success uo)], False))"

text \<open>\<open>UserController.AddAdministrator\<close>; the nil user of an unknown phone
  panics in the service.\<close>

definition ctrl_add_administrator ::
  "(string \<times> error_type) list \<Rightarrow> (acc_err \<Rightarrow> string) \<Rightarrow> (nat \<Rightarrow> bool) \<Rightarrow> string \<Rightarrow> mysql \<Rightarrow> unit handler_out \<times> mysql" where
  "ctrl_add_administrator ord emsg net phone db =
     (if \<not> validate_phone_number phone
      then (([handle_user_error ord (''UserController.SendCode err: 400:'' @ bad_phone_text)], False), db)
      else (case svc_add_admin net phone db of
              (Inl AccNilPanic, db') \<Rightarrow> (([], True), db')
            | (Inl AccAlreadyAdmin, db') \<Rightarrow>
                (([handle_user_error ord (''UserController.AddAdministrator err: '' @ already_admin_text)], False), db')
            | (Inl e, db') \<Rightarrow> (([handle_user_error ord (''UserController.AddAdministrator err: '' @ emsg e)], False), db')
            | (Inr _, db') \<Rightarrow> (([(200, success_without_data)], False), db')))"

definition ctrl_add_score ::
  "(string \<times> error_type) list \<Rightarrow> (acc_err \<Rightarrow> string) \<Rightarrow> (nat \<Rightarrow> bool) \<Rightarrow> score_record bind_result \<Rightarrow> mysql
   \<Rightarrow> unit handler_out \<times> mysql" where
  "ctrl_add_score ord emsg net body db =
     (case body of
        BindErr t \<Rightarrow> (([(400, NoBody), handle_user_error ord (''UserController.AddScore ''
                       @ utf8 [0x9519, 0x8BEF, 0x8BF7, 0x6C42, 0x3A] @ bind_failed_text @ t)], False), db)
      | _ \<Rightarrow>
          (let sr = (case body of BindOk s \<Rightarrow> s | _ \<Rightarrow> \<lparr>sr_id = 0, sr_user = 0, sr_manager = 0, sr_score = 0, sr_created = 0\<rparr>)
           in case svc_add_score net sr db of
                (Inl e, db') \<Rightarrow> (([handle_user_error ord (''UserController.AddScore err:UserService.AddScore ''
                                   @ utf8 [0x6570, 0x636E, 0x5E93, 0x64CD, 0x4F5C, 0x9519, 0x8BEF, 0x3A, 0x6DFB, 0x52A0,
                                           0x79EF, 0x5206, 0x8BB0, 0x5F55, 0x9519, 0x8BEF, 0x3A] @ emsg e)], False), db')
              | (Inr _, db') \<Rightarrow> (([(200, success_without_data)], False), db')))"

text \<open>\<open>UserController.AddPhoneRecord\<close>: the manager id is the form field
  \<open>userID\<close>.\<close>

definition ctrl_add_phone_record ::
  "(string \<times> error_type) list \<Rightarrow> (acc_err \<Rightarrow> string) \<Rightarrow> (nat \<Rightarrow> bool) \<Rightarrow> string \<Rightarrow> string \<Rightarrow> go_time \<Rightarrow> mysql
   \<Rightarrow> unit handler_out \<times> mysql" where
  "ctrl_add_phone_record ord emsg net form content now db =
     (case atoi form of
        None \<Rightarrow> (([handle_user_error ord (''UserController.AddPhoneRecord err:'' @ not_int_text ''userID''
                                        @ atoi_err_text form)], False), db)
      | Some mid \<Rightarrow>
          (case svc_add_phone_record net mid content now db of
             (Inl e, db') \<Rightarrow> (([handle_user_error ord (''UserController.AddPhoneRecord err:''
                                                    @ phone_record_err_text emsg e)], False), db')
           | (Inr _, db') \<Rightarrow> (([(200, success_without_data)], False), db')))"

definition ctrl_get_phone_record_by_phone ::
  "(string \<times> error_type) list \<Rightarrow> (acc_err \<Rightarrow> string) \<Rightarrow> (nat \<Rightarrow> bool) \<Rightarrow> string \<Rightarrow> mysql
   \<Rightarrow> phone_record list handler_out" where
  "ctrl_get_phone_record_by_phone ord emsg net phone db =
     (if \<not> validate_phone_number phone
      then ([handle_user_error ord (''UserController.GetPhoneRecordByPhone err:'' @ bad_phone_text)], False)
      else (case svc_get_phone_records net phone db of
              Inl e \<Rightarrow> ([handle_user_error ord (''UserController.GetPhoneRecordByPhone err:UserService.GetPhoneRecordByPhone err:''
                                                @ emsg e)], False)
            | Inr rs \<Rightarrow> ([(200, success rs)], False)))"

definition ctrl_get_other_user_info ::
  "(string \<times> error_type) list \<Rightarrow> (acc_err \<Rightarrow> string) \<Rightarrow> (nat \<Rightarrow> bool) \<Rightarrow> string \<Rightarrow> mysql \<Rightarrow> user option handler_out" where
  "ctrl_get_other_user_info ord emsg net param db =
     (case atoi param of
        None \<Rightarrow> ([handle_user_error ord (''UserController.GetOtherUserInfo err: 400: '' @ not_int_text ''userID''
                                       @ atoi_err_text param)], False)
      | Some uid \<Rightarrow>
          (case svc_get_user_by_id net uid db of
             Inl e \<Rightarrow> ([handle_user_error ord (''UserController.GetOtherUserInfo err: 500: '' @ emsg e)], False)
           | Inr uo \<Rightarrow> ([(200, success uo)], False)))"

definition ctrl_add_item ::
  "(string \<times> error_type) list \<Rightarrow> (acc_err \<Rightarrow> string) \<Rightarrow> (nat \<Rightarrow> bool) \<Rightarrow> community_item bind_result \<Rightarrow> mysql \<Rightarrow> redis
   \<Rightarrow> unit handler_out \<times> mysql \<times> redis" where
  "ctrl_add_item ord emsg net body db r =
     (case body of
        BindErr t \<Rightarrow> (([(400, NoBody), handle_user_error ord (''UserController.AddItem err: 400: '' @ bind_failed_text @ t)], False),
                     db, r)
      | _ \<Rightarrow>
          (let it = (case body of BindOk i \<Rightarrow> i
                                | _ \<Rightarrow> \<lparr>item_id = 0, item_name = [], item_capacity = 0, item_remain = 0, item_price = 0,
                                        item_begin = 0\<rparr>)
           in case svc_add_item net it db r of
                (Inl e, db', r') \<Rightarrow> (([handle_user_error ord (''UserController.AddItem err: 500: '' @ emsg e)], False), db', r')
              | (Inr _, db', r') \<Rightarrow> (([(200, success_without_data)], False), db', r')))"

text \<open>\<open>UserController.GetAllItems\<close> with \<open>UserService.GetAllItems\<close>; the listing
  loop returns (\<open>Item_Listing\<close>), so \<open>None\<close> does not arise.\<close>

definition svc_get_all_items ::
  "(item_err \<Rightarrow> string) \<Rightarrow> (nat \<Rightarrow> bool) \<Rightarrow> redis \<Rightarrow> (string + community_item list) option" where
  "svc_get_all_items emsg net r =
     map_option (\<lambda>x. case x of Inl e \<Rightarrow> Inl (''UserService.GetAllItems err:'' @ emsg e) | Inr its \<Rightarrow> Inr its)
       (get_all_items_cache net r)"

definition ctrl_get_all_items ::
  "(string \<times> error_type) list \<Rightarrow> (item_err \<Rightarrow> string) \<Rightarrow> (nat \<Rightarrow> bool) \<Rightarrow> redis
   \<Rightarrow> community_item list handler_out option" where
  "ctrl_get_all_items ord emsg net r =
     (case svc_get_all_items emsg net r of
        None \<Rightarrow> None
      | Some (Inl t) \<Rightarrow> Some ([handle_user_error ord (''UserController.GetAllItems err: 500: '' @ t)], False)
      | Some (Inr its) \<Rightarrow> Some ([(200, success its)], False))"

subsection \<open>Status of a missing score record\<close>

lemma no_score_codes:
  "matched_codes (''UserController.AddPhoneRecord err:'' @ phone_record_err_text emsg AccNoScore) = []"
  by (simp add: matched_codes_def error_mapping_def error_type_defs phone_record_err_text_def utf8_def utf8_char_def)

text \<open>C24 (error).  \<open>AddPhoneRecord\<close> for a manager without any score record
  answers, whatever the iteration order of the error map, the status 9999 of
  \<open>ErrUnknown\<close>: the service's "no score record" text carries no status code.
  \<open>c.JSON\<close> passes 9999 to \<open>net/http\<close>, which refuses it.\<close>

theorem add_phone_record_no_score_status:
  assumes "map_order ord" "atoi form = Some mid" "net 0" "latest_score mid (score_rows db) = None"
  shows "\<exists>resp. ctrl_add_phone_record ord emsg net form content now db = (([resp], False), db) \<and> fst resp = 9999"
proof -
  have "svc_add_phone_record net mid content now db = (Inl AccNoScore, db)"
    using assms(3,4) by (simp add: svc_add_phone_record_def)
  then have "ctrl_add_phone_record ord emsg net form content now db =
      (([handle_user_error ord (''UserController.AddPhoneRecord err:'' @ phone_record_err_text emsg AccNoScore)], False), db)"
    using assms(2) by (simp add: ctrl_add_phone_record_def)
  with no_code_status [OF assms(1) no_score_codes] show ?thesis by blast
qed

theorem add_phone_record_no_score_status_witness:
  "map_order error_mapping \<and> atoi ''5'' = Some 5 \<and> (\<lambda>_. True) (0::nat) \<and> latest_score 5 (score_rows empty_db) = None
   \<and> (\<exists>resp. ctrl_add_phone_record error_mapping (\<lambda>_. []) (\<lambda>_. True) ''5'' ''called'' 0 empty_db
              = (([resp], False), empty_db) \<and> fst resp = 9999)"
proof -
  have a: "atoi ''5'' = Some 5" by code_simp
  have l: "latest_score 5 (score_rows empty_db) = None" by (simp add: latest_score_def empty_db_def)
  show ?thesis
    using add_phone_record_no_score_status [OF map_order_error_mapping a _ l, of "\<lambda>_. True"] a l map_order_error_mapping
    by simp
qed

end
