(* ===== verification/Router.thy ===== *)
theory Router
  imports Auth
begin

text \<open>
  The route table of \<open>routers/router.go\<close> (\<open>SetUpRouters\<close>): each route's
  method, path, middleware and handler, and the gate a request passes before
  its handler runs, composed from the middlewares of \<open>Auth\<close>.  The lemma of
  this theory shows that the handlers that create administrators, items,
  articles, phone records and reservation windows run only for a valid token
  whose \<open>IsManager\<close> claim is an administrator's.
\<close>

text \<open>The middleware in front of a handler.\<close>

datatype guard = Open | JwtGuard | AdminGuard | SuperAdminGuard

text \<open>\<open>SetUpRouters\<close>, in the order of the source: method, path, guard, handler.\<close>

definition routes :: "(string \<times> string \<times> guard \<times> string) list" where
  "routes =
     [(''GET'', ''/user/send-code/:phoneNumber'', Open, ''UserController.SendCode''),
      (''POST'', ''/user/login'', Open, ''UserController.Login''),
      (''PUT'', ''/user/add-administrator/:phoneNumber'', SuperAdminGuard, ''UserController.AddAdministrator''),
      (''GET'', ''/user'', JwtGuard, ''UserController.GetUserInfo''),
      (''PUT'', ''/user'', JwtGuard, ''UserController.UpdateUserInfo''),
      (''POST'', ''/user/add-score'', JwtGuard, ''UserController.AddScore''),
      (''POST'', ''/user/add-phone-record'', AdminGuard, ''UserController.AddPhoneRecord''),
      (''GET'', ''/user/get-phone-record/:phoneNumber'', AdminGuard, ''UserController.GetPhoneRecordByPhone''),
      (''GET'', ''/user/add-follows/:followerID'', JwtGuard, ''UserController.AddFollows''),
      (''GET'', ''/user/get-follows'', JwtGuard, ''UserController.GetFollows''),
      (''GET'', ''/user/get-other-user-info/:userID'', JwtGuard, ''UserController.GetOtherUserInfo''),
      (''DELETE'', ''/user/remove-follows/:followID'', JwtGuard, ''UserController.RemoveFollows''),
      (''GET'', ''/user/get-common-follows/:otherUserID'', JwtGuard, ''UserController.GetCommonFollows''),
      (''GET'', ''/user/add-likes/:userID'', JwtGuard, ''UserController.AddLikes''),
      (''GET'', ''/user/get-likes-rank'', JwtGuard, ''UserController.GetLikesRank''),
      (''POST'', ''/user/add-item'', AdminGuard, ''UserController.AddItem''),
      (''GET'', ''/user/get-all-items'', JwtGuard, ''UserController.GetAllItems''),
      (''GET'', ''/user/choose-item/:itemID'', JwtGuard, ''UserController.ChooseItem''),
      (''GET'', ''/user/add-item-consumer'', AdminGuard, ''UserController.AddChooseItemConsumer''),
      (''POST'', ''/article'', AdminGuard, ''ArticleController.AddArticle''),
      (''GET'', ''/article/get-all-article'', JwtGuard, ''ArticleController.GetAllArticle''),
      (''GET'', ''/article/:articleID'', JwtGuard, ''ArticleController.GetArticle''),
      (''GET'', ''/article/add-likes/:articleID'', JwtGuard, ''ArticleController.AddLikes''),
      (''DELETE'', ''/article/remove-likes/:articleID'', JwtGuard, ''ArticleController.RemoveLikes''),
      (''PUT'', ''/article'', AdminGuard, ''ArticleController.UpdateArticle'')]"

text \<open>The role check of each middleware (\<open>JwtInterceptor\<close>,
  \<open>AdminOnlyMiddleware\<close>, \<open>SuperAdminOnlyMiddleware\<close>).\<close>

definition guard_role :: "guard \<Rightarrow> (string \<Rightarrow> bool) option" where
  "guard_role g =
     (case g of Open \<Rightarrow> None | JwtGuard \<Rightarrow> Some jwt_role | AdminGuard \<Rightarrow> Some admin_role
      | SuperAdminGuard \<Rightarrow> Some super_admin_role)"

text \<open>What a request meets before its handler: the middleware aborts it with a
  response, or lets it through, with the user id it set when there is one.\<close>

datatype 'a gate = Reject "'a http_resp" | Admit "go_int option"

definition admit ::
  "(string \<times> error_type) list \<Rightarrow> guard \<Rightarrow> (string \<Rightarrow> string) \<Rightarrow> (string \<Rightarrow> string \<Rightarrow> jwt_result) \<Rightarrow> 'a gate" where
  "admit ord g hdr jwt =
     (case guard_role g of
        None \<Rightarrow> Admit None
      | Some role \<Rightarrow> (case validate_token ord role hdr jwt of MwAbort r \<Rightarrow> Reject r | MwNext uid \<Rightarrow> Admit (Some uid)))"

text \<open>The handlers that change who is an administrator, the items, the
  articles, the reservation windows, or read and write the phone records.\<close>

definition privileged_handlers :: "string list" where
  "privileged_handlers =
     [''UserController.AddAdministrator'', ''UserController.AddPhoneRecord'',
      ''UserController.GetPhoneRecordByPhone'', ''UserController.AddItem'',
      ''UserController.AddChooseItemConsumer'', ''ArticleController.AddArticle'',
      ''ArticleController.UpdateArticle'']"

subsection \<open>Privileged handlers\<close>

lemma privileged_routes_guarded_all:
  "list_all (\<lambda>(m, p, g, h). h \<in> set privileged_handlers \<longrightarrow>
                (g = AdminGuard \<and> h \<noteq> ''UserController.AddAdministrator'' \<or> g = SuperAdminGuard)) routes"
  by code_simp

lemma privileged_routes_guarded:
  "(m, p, g, h) \<in> set routes \<Longrightarrow> h \<in> set privileged_handlers \<Longrightarrow>
     g = AdminGuard \<and> h \<noteq> ''UserController.AddAdministrator'' \<or> g = SuperAdminGuard"
  using privileged_routes_guarded_all by (fastforce simp: list_all_iff)

lemma admit_Some:
  assumes "admit ord g hdr jwt = (Admit (Some uid) :: 'a gate)" "guard_role g = Some role"
  shows "\<exists>ids mgr. hdr ''accessToken'' \<noteq> [] \<and> jwt (hdr ''accessToken'') jwt_secret = JwtParsed ids mgr True
           \<and> role mgr \<and> atoi ids = Some uid"
  using assms validate_token_Next [where 'a = 'a]
  by (auto simp: admit_def split: mw_out.splits)

text \<open>C36 (safety).  Composition of the route table with the middlewares: a
  request routed to a handler that manages administrators, items, articles,
  phone records or reservation windows reaches it only with a valid token, the
  user id it carries, and an \<open>IsManager\<close> claim of 1 or 2; for
  \<open>AddAdministrator\<close>, of 2.\<close>

theorem privileged_handlers_need_admin:
  assumes "(m, p, g, h) \<in> set routes" "h \<in> set privileged_handlers" "admit ord g hdr jwt = (Admit u :: 'a gate)"
  shows "\<exists>uid ids mgr. u = Some uid \<and> jwt (hdr ''accessToken'') jwt_secret = JwtParsed ids mgr True
           \<and> atoi ids = Some uid \<and> (mgr = ''1'' \<or> mgr = ''2'')
           \<and> (h = ''UserController.AddAdministrator'' \<longrightarrow> mgr = ''2'')"
proof -
  from privileged_routes_guarded [OF assms(1,2)]
  have g: "g = AdminGuard \<and> h \<noteq> ''UserController.AddAdministrator'' \<or> g = SuperAdminGuard" .
  then obtain role where role: "guard_role g = Some role" by (auto simp: guard_role_def)
  then obtain uid where u: "u = Some uid"
    using assms(3) by (auto simp: admit_def split: mw_out.splits)
  from admit_Some [OF assms(3) [unfolded u] role] obtain ids mgr where
    "jwt (hdr ''accessToken'') jwt_secret = JwtParsed ids mgr True" "role mgr" "atoi ids = Some uid" by blast
  with g role u show ?thesis by (auto simp: guard_role_def admin_role_def super_admin_role_def)
qed


theorem privileged_handlers_need_admin_witness:
  "(''PUT'', ''/user/add-administrator/:phoneNumber'', SuperAdminGuard, ''UserController.AddAdministrator'') \<in> set routes
   \<and> ''UserController.AddAdministrator'' \<in> set privileged_handlers
   \<and> admit error_mapping SuperAdminGuard (\<lambda>k. if k = ''accessToken'' then ''t'' else []) (\<lambda>_ _. JwtParsed ''7'' ''2'' True)
       = (Admit (Some 7) :: unit gate)
   \<and> (\<exists>uid ids mgr. Some 7 = Some uid
        \<and> (\<lambda>_ _. JwtParsed ''7'' ''2'' True) ((\<lambda>k. if k = ''accessToken'' then ''t'' else []) ''accessToken'') jwt_secret
          = JwtParsed ids mgr True
        \<and> atoi ids = Some uid \<and> mgr = ''2'')"
proof -
  have r: "(''PUT'', ''/user/add-administrator/:phoneNumber'', SuperAdminGuard, ''UserController.AddAdministrator'') \<in> set routes"
    by (simp add: routes_def)
  have h: "''UserController.AddAdministrator'' \<in> set privileged_handlers" by (simp add: privileged_handlers_def)
  have a: "admit error_mapping SuperAdminGuard (\<lambda>k. if k = ''accessToken'' then ''t'' else []) (\<lambda>_ _. JwtParsed ''7'' ''2'' True)
       = (Admit (Some 7) :: unit gate)" by code_simp
  from privileged_handlers_need_admin [OF r h a] have
    "\<exists>uid ids mgr. Some 7 = Some uid \<and> JwtParsed ''7'' ''2'' True = JwtParsed ids mgr True
       \<and> atoi ids = Some uid \<and> mgr = ''2''" by auto
  with r h a show ?thesis by simp
qed

end
