(* ===== verification/Profile.thy ===== *)
theory Profile
  imports Account_Http Router
begin

text \<open>
  The profile and follow reads of the user side: \<open>UpdateUserInfo\<close>
  (repository, service, handler), \<open>GetFollows\<close> and \<open>GetCommonFollows\<close>
  (service loop over \<open>GetUserByUserID\<close> after the cache's \<open>SINTER\<close>, and their
  handlers).  gorm's \<open>Updates\<close> with a struct writes the fields that are not
  their type's zero value; the zero \<open>time.Time\<close> is the timestamp 0 of the
  model.  The primary key of the body is not written.  The lemma of this theory
  composes the route table and the middleware with \<open>UpdateUserInfo\<close>.
\<close>

subsection \<open>\<open>UpdateUserInfo\<close>\<close>

text \<open>The row after \<open>Updates(user)\<close>: each non-zero field of the body.\<close>

definition gorm_updates :: "user \<Rightarrow> user \<Rightarrow> user" where
  "gorm_updates u v =
     v\<lparr>us_name := if us_name u = [] then us_name v else us_name u,
       us_phone := if us_phone u = [] then us_phone v else us_phone u,
       us_manager := if us_manager u = 0 then us_manager v else us_manager u,
       us_created := if us_created u = 0 then us_created v else us_created u,
       us_avatar := if us_avatar u = [] then us_avatar v else us_avatar u,
       us_bio := if us_bio u = [] then us_bio v else us_bio u,
       us_likes := if us_likes u = 0 then us_likes v else us_likes u\<rparr>"

text \<open>\<open>UserRepository.UpdateUserInfo\<close>: \<open>UPDATE user SET ... WHERE id = ?\<close>; a
  user name taken by another row violates the unique key; no matching row is
  not an error.\<close>

definition db_update_user_info :: "bool \<Rightarrow> go_int \<Rightarrow> user \<Rightarrow> mysql \<Rightarrow> unit dres" where
  "db_update_user_info ok uid u db =
     (if \<not> ok then (Inl DbConn, db)
      else if us_name u \<noteq> [] \<and> list_ex (\<lambda>(i, v). i \<noteq> uid \<and> us_name v = us_name u) (user_rows db)
      then (Inl DbDuplicate, db)
      else (Inr (), db\<lparr>user_rows := map (\<lambda>(i, v). (i, if i = uid then gorm_updates u v else v)) (user_rows db)\<rparr>))"

definition svc_update_user_info :: "(nat \<Rightarrow> bool) \<Rightarrow> go_int \<Rightarrow> user \<Rightarrow> mysql \<Rightarrow> (acc_err + unit) \<times> mysql" where
  "svc_update_user_info net uid u db =
     (case db_update_user_info (net 0) uid u db of (Inl e, db') \<Rightarrow> (Inl (AccDb e), db') | (Inr _, db') \<Rightarrow> (Inr (), db'))"

definition zero_user :: user where
  "zero_user = \<lparr>us_id = 0, us_name = [], us_phone = [], us_manager = 0, us_created = 0, us_avatar = [], us_bio = [],
                us_likes = 0\<rparr>"

text \<open>\<open>UserController.UpdateUserInfo\<close>: the user id set by the middleware, the
  body bound into a \<open>User\<close> value.\<close>

definition ctrl_update_user_info ::
  "(string \<times> error_type) list \<Rightarrow> (acc_err \<Rightarrow> string) \<Rightarrow> (nat \<Rightarrow> bool) \<Rightarrow> go_int \<Rightarrow> user bind_result \<Rightarrow> mysql
   \<Rightarrow> unit handler_out \<times> mysql" where
  "ctrl_update_user_info ord emsg net uid body db =
     (case body of
        BindErr t \<Rightarrow> (([(400, NoBody), handle_user_error ord (''UserController.UpdateUserInfo err: 400:''
                                                                @ bind_failed_text @ t)], False), db)
      | _ \<Rightarrow>
          (let u = (case body of BindOk v \<Rightarrow> v | _ \<Rightarrow> zero_user)
           in case svc_update_user_info net uid u db of
                (Inl e, db') \<Rightarrow> (([handle_user_error ord (''UserController.UpdateUserInfo err: '' @ emsg e)], False), db')
              | (Inr _, db') \<Rightarrow> (([(200, success_without_data)], False), db')))"

subsection \<open>Follow reads\<close>

text \<open>\<open>UserRepository.GetFollows\<close>: the users whose id is the \<open>follow_id\<close> of
  one of the user's \<open>user_follow\<close> rows, in table order.\<close>

definition db_get_follows :: "bool \<Rightarrow> go_int \<Rightarrow> mysql \<Rightarrow> dberr + user list" where
  "db_get_follows ok uid db =
     (if \<not> ok then Inl DbConn
      else Inr (map snd (filter (\<lambda>(i, v). i \<in> set [uf_follow f. f \<leftarrow> follow_rows db, uf_user f = uid]) (user_rows db))))"

definition svc_get_follows ::
  "(acc_err \<Rightarrow> string) \<Rightarrow> (nat \<Rightarrow> bool) \<Rightarrow> go_int \<Rightarrow> mysql \<Rightarrow> string + user list" where
  "svc_get_follows emsg net uid db =
     (case db_get_follows (net 0) uid db of
        Inl e \<Rightarrow> Inl (''UserService.GetFollows err:'' @ emsg (AccDb e))
      | Inr us \<Rightarrow> Inr us)"

definition ctrl_get_follows ::
  "(string \<times> error_type) list \<Rightarrow> (acc_err \<Rightarrow> string) \<Rightarrow> (nat \<Rightarrow> bool) \<Rightarrow> go_int \<Rightarrow> mysql \<Rightarrow> user list handler_out" where
  "ctrl_get_follows ord emsg net uid db =
     (case svc_get_follows emsg net uid db of
        Inl t \<Rightarrow> ([handle_user_error ord (''UserController.GetFollows err: 500: '' @ t)], False)
      | Inr us \<Rightarrow> ([(200, success us)], False))"

text \<open>The loop of \<open>UserService.GetCommonFollows\<close>: \<open>GetUserByUserID\<close> of the
  \<open>i\<close>-th id is request \<open>j + i\<close>; a missing user is an error.\<close>

fun common_users_loop :: "(nat \<Rightarrow> bool) \<Rightarrow> nat \<Rightarrow> mysql \<Rightarrow> go_int list \<Rightarrow> acc_err + user list" where
  "common_users_loop net j db [] = Inr []"
| "common_users_loop net j db (i # is) =
     (case db_get_user_by_id (net j) i db of
        Inl e \<Rightarrow> Inl (AccDb e)
      | Inr None \<Rightarrow> Inl AccNoUser
      | Inr (Some u) \<Rightarrow> (case common_users_loop net (Suc j) db is of Inl e \<Rightarrow> Inl e | Inr us \<Rightarrow> Inr (u # us)))"

text \<open>\<open>UserService.GetCommonFollows\<close>: the cache's \<open>SINTER\<close> (request 0) of the
  user's follows and the other user's fans, then the users (from request 1).\<close>

definition svc_get_common_follows ::
  "(nat \<Rightarrow> bool) \<Rightarrow> go_int \<Rightarrow> go_int \<Rightarrow> mysql \<Rightarrow> redis \<Rightarrow> acc_err + user list" where
  "svc_get_common_follows net uid ouid db r =
     (case get_common_follows (net 0) uid ouid r of
        Inl e \<Rightarrow> Inl (AccCache e)
      | Inr None \<Rightarrow> Inl AccParse
      | Inr (Some ids) \<Rightarrow> common_users_loop net 1 db ids)"

definition ctrl_get_common_follows ::
  "(string \<times> error_type) list \<Rightarrow> (acc_err \<Rightarrow> string) \<Rightarrow> (nat \<Rightarrow> bool) \<Rightarrow> go_int \<Rightarrow> string \<Rightarrow> mysql \<Rightarrow> redis
   \<Rightarrow> user list handler_out" where
  "ctrl_get_common_follows ord emsg net uid param db r =
     (case atoi param of
        None \<Rightarrow> ([handle_user_error ord (''UserController.CommonFollows err: 400: ''
                                        @ utf8 [0x83B7, 0x53D6, 0x7528, 0x6237] @ ''ID'' @ utf8 [0x5931, 0x8D25] @ '':''
                                        @ atoi_err_text param)], False)
      | Some ouid \<Rightarrow>
          (case svc_get_common_follows net uid ouid db r of
             Inl e \<Rightarrow> ([handle_user_error ord (''UserController.CommonFollows err: 500: '' @ emsg e)], False)
           | Inr us \<Rightarrow> ([(200, success us)], False)))"

subsection \<open>Escalation through the profile update\<close>

lemma map_of_map_at:
  "map_of (map (\<lambda>(i, v). (i, if i = k then f v else v)) al) k = map_option f (map_of al k)"
  by (induction al) auto

lemma admit_jwt_valid:
  assumes "hdr ''accessToken'' \<noteq> []" "jwt (hdr ''accessToken'') jwt_secret = JwtParsed ids mgr True" "atoi ids = Some uid"
  shows "admit ord JwtGuard hdr jwt = (Admit (Some uid) :: 'a gate)"
  using assms
  by (simp add: admit_def guard_role_def validate_token_def validate_empty_token_def parse_token_def
                check_role_and_id_def jwt_role_def)

lemma zero_user_name: "us_name zero_user = []"
  by (simp add: zero_user_def)

lemma gorm_updates_manager: "gorm_updates (zero_user\<lparr>us_manager := m\<rparr>) v = v\<lparr>us_manager := if m = 0 then us_manager v else m\<rparr>"
  by (simp add: gorm_updates_def zero_user_def)

text \<open>C31 (safety).  Privilege escalation through the profile update: any
  valid token, whatever its \<open>IsManager\<close> claim, passes the \<open>JwtInterceptor\<close> of
  \<open>PUT /user\<close>, and \<open>UpdateUserInfo\<close> writes every non-zero field of the bound
  \<open>User\<close>, \<open>IsManager\<close> included: a body \<open>{"is_manager": 2}\<close> makes the caller
  a super administrator, which the next \<open>Login\<close> puts into its token.\<close>

theorem update_user_info_escalates:
  assumes "hdr ''accessToken'' \<noteq> []" "jwt (hdr ''accessToken'') jwt_secret = JwtParsed ids mgr True"
    "atoi ids = Some uid" "map_of (user_rows db) uid = Some v" "net 0"
  shows "(''PUT'', ''/user'', JwtGuard, ''UserController.UpdateUserInfo'') \<in> set routes
     \<and> admit ord JwtGuard hdr jwt = (Admit (Some uid) :: 'a gate)
     \<and> fst (ctrl_update_user_info ord emsg net uid (BindOk (zero_user\<lparr>us_manager := 2\<rparr>)) db)
         = ([(200, success_without_data)], False)
     \<and> map_of (user_rows (snd (ctrl_update_user_info ord emsg net uid (BindOk (zero_user\<lparr>us_manager := 2\<rparr>)) db))) uid
         = Some (v\<lparr>us_manager := 2\<rparr>)"
proof (intro conjI)
  show "(''PUT'', ''/user'', JwtGuard, ''UserController.UpdateUserInfo'') \<in> set routes"
    by (simp add: routes_def)
  show "admit ord JwtGuard hdr jwt = (Admit (Some uid) :: 'a gate)" by (rule admit_jwt_valid [of hdr jwt ids mgr uid, OF assms(1-3)])
  have u: "ctrl_update_user_info ord emsg net uid (BindOk (zero_user\<lparr>us_manager := 2\<rparr>)) db =
      (([(200, success_without_data)], False),
       db\<lparr>user_rows := map (\<lambda>(i, w). (i, if i = uid then gorm_updates (zero_user\<lparr>us_manager := 2\<rparr>) w else w)) (user_rows db)\<rparr>)"
    using assms(5) by (simp add: ctrl_update_user_info_def svc_update_user_info_def db_update_user_info_def zero_user_name)
  then show "fst (ctrl_update_user_info ord emsg net uid (BindOk (zero_user\<lparr>us_manager := 2\<rparr>)) db)
         = ([(200, success_without_data)], False)" by simp
  show "map_of (user_rows (snd (ctrl_update_user_info ord emsg net uid (BindOk (zero_user\<lparr>us_manager := 2\<rparr>)) db))) uid
         = Some (v\<lparr>us_manager := 2\<rparr>)"
    using assms(4) by (simp add: u map_of_map_at gorm_updates_manager)
qed

theorem update_user_info_escalates_witness:
  "(''PUT'', ''/user'', JwtGuard, ''UserController.UpdateUserInfo'') \<in> set routes
   \<and> admit error_mapping JwtGuard (\<lambda>k. if k = ''accessToken'' then ''t'' else []) (\<lambda>_ _. JwtParsed ''1'' ''0'' True)
       = (Admit (Some 1) :: unit gate)
   \<and> fst (ctrl_update_user_info error_mapping (\<lambda>_. []) (\<lambda>_. True) 1 (BindOk (zero_user\<lparr>us_manager := 2\<rparr>)) rank_db)
       = ([(200, success_without_data)], False)
   \<and> map_of (user_rows (snd (ctrl_update_user_info error_mapping (\<lambda>_. []) (\<lambda>_. True) 1
                                (BindOk (zero_user\<lparr>us_manager := 2\<rparr>)) rank_db))) 1
       = Some ((demo_user 1 5)\<lparr>us_manager := 2\<rparr>)"
proof -
  have a: "atoi ''1'' = Some 1" by code_simp
  have r: "map_of (user_rows rank_db) 1 = Some (demo_user 1 5)" by (simp add: rank_db_def empty_db_def)
  show ?thesis
    using update_user_info_escalates [of "\<lambda>k. if k = ''accessToken'' then ''t'' else []" "\<lambda>_ _. JwtParsed ''1'' ''0'' True",
                                      OF _ _ a r, where net = "\<lambda>_. True" and ord = error_mapping and emsg = "\<lambda>_. []"
                                      and 'a = unit]
    by simp
qed

end
