(* ===== verification/Content_Check.thy ===== *)
theory Content_Check
  imports Models
begin

text \<open>
  \<open>common/utils/utils.go\<close>: the client of WeChat's content-security check
  (\<open>CheckContentSecurity\<close>, \<open>GetAccessToken\<close>) and the relative-time
  rendering \<open>timeAgo\<close>.  The two HTTP exchanges are modelled by the decoded
  answers of the WeChat servers, given as functions of the URL (and of the
  request body) the code sends, with one failure flag per network step as in
  the rest of the library.  \<open>timeAgo\<close> parses its argument with
  \<open>time.Parse(\<dq>2006-01-02 15:04:05\<dq>, ...)\<close>, whose rules for this layout
  are written out here (\<open>parse_datetime\<close>), and renders the elapsed
  \<open>time.Duration\<close> in minutes, hours, days, months of 30 days or years of 365
  days.
\<close>

subsection \<open>The content-security client\<close>

text \<open>\<open>SecurityCheckRequest\<close>, \<open>SecurityCheckResult\<close>,
  \<open>SecurityCheckDetail\<close> and \<open>SecurityCheckResponse\<close>, field by field.\<close>

record sec_request =
  sr_access_token :: string
  sr_content :: string
  sr_scene :: go_int
  sr_version :: go_int
  sr_openid :: string
  sr_title :: string
  sr_nickname :: string
  sr_signature :: string

record sec_result =
  res_suggest :: string
  res_label :: go_int

record sec_detail =
  det_strategy :: string
  det_errcode :: go_int
  det_suggest :: string
  det_label :: go_int
  det_prob :: go_int
  det_keyword :: string

record sec_response =
  rsp_errcode :: go_int
  rsp_errmsg :: string
  rsp_result :: "sec_result option"
  rsp_detail :: "sec_detail list"
  rsp_trace_id :: string

text \<open>The ways \<open>GetAccessToken\<close> fails: the \<open>GET\<close>, reading the body, decoding
  it, or an empty \<open>access_token\<close>.\<close>

datatype token_err = TokRequest | TokRead | TokDecode | TokEmpty

definition token_url :: string where
  "token_url = ''https://api.weixin.qq.com/cgi-bin/token?grant_type=client_credential''
     @ ''&appid=wx312c36de9d0cd635&secret=521da6d7784073fbd7ae457f501e5a56''"

text \<open>\<open>GetAccessToken\<close>.  \<open>tsrv url\<close> is the token server's answer to a
  \<open>GET\<close> of \<open>url\<close> after \<open>json.Unmarshal\<close>: \<open>None\<close> when the body is not
  JSON, otherwise its \<open>access_token\<close> field (\<open>''''\<close> when absent).  The
  \<open>GET\<close> is request 0 and reading the body request 1.\<close>

definition get_access_token :: "(nat \<Rightarrow> bool) \<Rightarrow> (string \<Rightarrow> string option) \<Rightarrow> token_err + string" where
  "get_access_token net tsrv =
     (if \<not> net 0 then Inl TokRequest
      else if \<not> net 1 then Inl TokRead
      else case tsrv token_url of
             None \<Rightarrow> Inl TokDecode
           | Some tok \<Rightarrow> if tok = [] then Inl TokEmpty else Inr tok)"

definition sec_check_url :: "string \<Rightarrow> string" where
  "sec_check_url tok = ''https://api.weixin.qq.com/wxa/msg_sec_check?access_token='' @ tok"

text \<open>\<open>CheckContentSecurity\<close>.  \<open>csrv url req\<close> is the check server's answer to
  the \<open>POST\<close> of the JSON of \<open>req\<close> to \<open>url\<close>, decoded (\<open>None\<close> when it is
  not JSON); the \<open>POST\<close> is request 2 and reading its body request 3.
  \<open>json.Marshal\<close> of the request, made of strings and ints, cannot fail, so
  its error branch is not a branch of the model.\<close>

definition check_content_security ::
  "(nat \<Rightarrow> bool) \<Rightarrow> (string \<Rightarrow> string option) \<Rightarrow> (string \<Rightarrow> sec_request \<Rightarrow> sec_response option)
   \<Rightarrow> string \<Rightarrow> string \<Rightarrow> go_int \<Rightarrow> string \<Rightarrow> bool" where
  "check_content_security net tsrv csrv content openid scene title =
     (case get_access_token net tsrv of
        Inl _ \<Rightarrow> False
      | Inr tok \<Rightarrow>
          (let req = \<lparr>sr_access_token = tok, sr_content = content, sr_scene = scene, sr_version = 2,
                      sr_openid = openid, sr_title = title, sr_nickname = [], sr_signature = []\<rparr>
           in if \<not> net 2 \<or> \<not> net 3 then False
              else case csrv (sec_check_url tok) req of
                     None \<Rightarrow> False
                   | Some resp \<Rightarrow>
                       if rsp_errcode resp \<noteq> 0 then False
                       else (case rsp_result resp of None \<Rightarrow> True | Some res \<Rightarrow> res_label res = 100)))"

subsection \<open>\<open>time.Parse\<close> with the layout \<open>2006-01-02 15:04:05\<close>\<close>

text \<open>The proleptic Gregorian calendar of package \<open>time\<close>.\<close>

definition is_leap :: "int \<Rightarrow> bool" where
  "is_leap y \<longleftrightarrow> y mod 4 = 0 \<and> (y mod 100 \<noteq> 0 \<or> y mod 400 = 0)"

definition days_in :: "nat \<Rightarrow> int \<Rightarrow> nat" where
  "days_in m y =
     (if m = 2 then (if is_leap y then 29 else 28)
      else if m = 4 \<or> m = 6 \<or> m = 9 \<or> m = 11 then 30 else 31)"

definition days_before_year :: "int \<Rightarrow> int" where
  "days_before_year y = 365 * (y - 1) + (y - 1) div 4 - (y - 1) div 100 + (y - 1) div 400"

definition unix_days :: "int \<Rightarrow> nat \<Rightarrow> nat \<Rightarrow> int" where
  "unix_days y m d =
     days_before_year y - days_before_year 1970 + int (sum_list (map (\<lambda>k. days_in k y) [1..<m])) + int d - 1"

text \<open>\<open>time.Date(year, month, day, hour, min, sec, nsec, time.UTC)\<close> for fields in
  range, as nanoseconds since the Unix epoch.\<close>

definition civil_time :: "int \<Rightarrow> nat \<Rightarrow> nat \<Rightarrow> nat \<Rightarrow> nat \<Rightarrow> nat \<Rightarrow> nat \<Rightarrow> go_time" where
  "civil_time y mo d h mi s ns =
     (unix_days y mo d * 86400 + int (h * 3600 + mi * 60 + s)) * 1000000000 + int ns"

text \<open>\<open>getnum(value, fixed)\<close>: two digits, or, when not \<open>fixed\<close>, one digit
  not followed by a digit.\<close>

definition getnum :: "bool \<Rightarrow> string \<Rightarrow> (nat \<times> string) option" where
  "getnum fixed s =
     (case s of
        [] \<Rightarrow> None
      | c0 # r0 \<Rightarrow>
          if \<not> is_digit c0 then None
          else (case r0 of
                  c1 # r1 \<Rightarrow> if is_digit c1 then Some (10 * digit_val c0 + digit_val c1, r1)
                            else if fixed then None else Some (digit_val c0, r0)
                | [] \<Rightarrow> if fixed then None else Some (digit_val c0, r0)))"

text \<open>\<open>stdLongYear\<close>: four characters, the first a digit, that \<open>atoi\<close> reads
  whole, i.e. four digits.\<close>

definition parse_year :: "string \<Rightarrow> (nat \<times> string) option" where
  "parse_year s =
     (if length s < 4 \<or> \<not> list_all is_digit (take 4 s) then None
      else Some (digits_val (take 4 s), drop 4 s))"

text \<open>\<open>skip(value, prefix)\<close> for a one-character prefix of the layout: a space
  of the layout matches a run of spaces (or the end), any other character
  itself.\<close>

definition skip_lit :: "char \<Rightarrow> string \<Rightarrow> string option" where
  "skip_lit c s =
     (if c = CHR '' '' then (if s \<noteq> [] \<and> hd s \<noteq> CHR '' '' then None else Some (dropWhile (\<lambda>x. x = CHR '' '') s))
      else case s of [] \<Rightarrow> None | x # r \<Rightarrow> if x = c then Some r else None)"

text \<open>The fractional second that \<open>Parse\<close> accepts after the seconds although the
  layout has none (\<open>parseNanoseconds\<close>): a period or comma and digits, of which
  the first nine count.\<close>

definition frac_seconds :: "string \<Rightarrow> nat \<times> string" where
  "frac_seconds s =
     (if 2 \<le> length s \<and> (hd s = CHR ''.'' \<or> hd s = CHR '','') \<and> is_digit (s ! 1) then
        (let n = Suc (length (takeWhile is_digit (tl s))); m = min n 10
         in (digits_val (take (m - 1) (tl s)) * 10 ^ (10 - m), drop n s))
      else (0, s))"

text \<open>The date part: year, \<open>-\<close>, month (checked to be 1 to 12), \<open>-\<close>, day.\<close>

definition parse_date :: "string \<Rightarrow> (nat \<times> nat \<times> nat \<times> string) option" where
  "parse_date s =
     Option.bind (parse_year s) (\<lambda>(y, s1).
     Option.bind (skip_lit CHR ''-'' s1) (\<lambda>s2.
     Option.bind (getnum True s2) (\<lambda>(mo, s3).
     if mo < 1 \<or> 12 < mo then None else
     Option.bind (skip_lit CHR ''-'' s3) (\<lambda>s4.
     Option.bind (getnum True s4) (\<lambda>(d, s5). Some (y, mo, d, s5))))))"

text \<open>The clock part: a space, hour (one or two digits, below 24), \<open>:\<close>,
  minute (below 60), \<open>:\<close>, second (below 60).\<close>

definition parse_clock :: "string \<Rightarrow> (nat \<times> nat \<times> nat \<times> string) option" where
  "parse_clock s =
     Option.bind (skip_lit CHR '' '' s) (\<lambda>s6.
     Option.bind (getnum False s6) (\<lambda>(h, s7).
     if 24 \<le> h then None else
     Option.bind (skip_lit CHR '':'' s7) (\<lambda>s8.
     Option.bind (getnum True s8) (\<lambda>(mi, s9).
     if 60 \<le> mi then None else
     Option.bind (skip_lit CHR '':'' s9) (\<lambda>s10.
     Option.bind (getnum True s10) (\<lambda>(sec, s11).
     if 60 \<le> sec then None else Some (h, mi, sec, s11)))))))"

text \<open>\<open>time.Parse(\<dq>2006-01-02 15:04:05\<dq>, s)\<close>: the fields, an optional
  fractional second, nothing after it, and a day that exists in its month.\<close>

definition parse_datetime :: "string \<Rightarrow> go_time option" where
  "parse_datetime s =
     Option.bind (parse_date s) (\<lambda>(y, mo, d, r).
     Option.bind (parse_clock r) (\<lambda>(h, mi, sec, r').
     (let (ns, rest) = frac_seconds r'
      in if rest \<noteq> [] \<or> d < 1 \<or> days_in mo (int y) < d then None
         else Some (civil_time (int y) mo d h mi sec ns))))"

subsection \<open>\<open>timeAgo\<close>\<close>

definition go_minute :: int where
  "go_minute = 60 * 1000000000"

definition go_hour :: int where
  "go_hour = 60 * go_minute"

text \<open>\<open>t.Sub(u)\<close>: the difference, saturated to the range of
  \<open>time.Duration\<close>, a 64-bit count of nanoseconds.\<close>

definition go_sub :: "go_time \<Rightarrow> go_time \<Rightarrow> int" where
  "go_sub t u = (let d = t - u in if d < - (2 ^ 63) then - (2 ^ 63) else if 2 ^ 63 \<le> d then 2 ^ 63 - 1 else d)"

text \<open>Go's integer division, which truncates toward zero.\<close>

definition go_quot :: "int \<Rightarrow> int \<Rightarrow> int" where
  "go_quot a b = sgn a * sgn b * (\<bar>a\<bar> div \<bar>b\<bar>)"

definition minutes_ago :: "nat list" where "minutes_ago = [0x5206, 0x949F, 0x4E4B, 0x524D]"
definition hours_ago :: "nat list" where "hours_ago = [0x5C0F, 0x65F6, 0x4E4B, 0x524D]"
definition days_ago :: "nat list" where "days_ago = [0x5929, 0x4E4B, 0x524D]"
definition months_ago :: "nat list" where "months_ago = [0x4E2A, 0x6708, 0x4E4B, 0x524D]"
definition years_ago :: "nat list" where "years_ago = [0x5E74, 0x4E4B, 0x524D]"

text \<open>\<open>timeAgo(createdAt, currentTime)\<close>.  \<open>Duration.Hours\<close> and
  \<open>Duration.Minutes\<close> return \<open>float64\<close>; the model compares and truncates
  the exact quotients (see the header for where rounding can differ).\<close>

definition time_ago :: "string \<Rightarrow> go_time \<Rightarrow> string" where
  "time_ago created now =
     (case parse_datetime created of
        None \<Rightarrow> created
      | Some t \<Rightarrow>
          (let d = go_sub now t in
           if d < go_hour then itoa (go_quot d go_minute) @ utf8 minutes_ago
           else if d < 24 * go_hour then itoa (d div go_hour) @ utf8 hours_ago
           else if d < 24 * 30 * go_hour then itoa (d div (24 * go_hour)) @ utf8 days_ago
           else if d < 24 * 365 * go_hour then itoa (d div (24 * 30 * go_hour)) @ utf8 months_ago
           else itoa (d div (24 * 365 * go_hour)) @ utf8 years_ago))"

text \<open>The layout's rendering by \<open>Time.Format\<close>, for the round trip: four
  digits of the year, two of each other field.\<close>

fun digits_fixed :: "nat \<Rightarrow> nat \<Rightarrow> string" where
  "digits_fixed 0 n = []"
| "digits_fixed (Suc w) n = digits_fixed w (n div 10) @ [digit_char (n mod 10)]"

definition format_datetime :: "nat \<Rightarrow> nat \<Rightarrow> nat \<Rightarrow> nat \<Rightarrow> nat \<Rightarrow> nat \<Rightarrow> string" where
  "format_datetime y mo d h mi s =
     digits_fixed 4 y @ ''-'' @ digits_fixed 2 mo @ ''-'' @ digits_fixed 2 d @ '' ''
     @ digits_fixed 2 h @ '':'' @ digits_fixed 2 mi @ '':'' @ digits_fixed 2 s"

text \<open>The units \<open>timeAgo\<close> counts in, with their length in nanoseconds.\<close>

definition ago_units :: "(nat list \<times> int) list" where
  "ago_units = [(minutes_ago, go_minute), (hours_ago, go_hour), (days_ago, 24 * go_hour),
                (months_ago, 24 * 30 * go_hour), (years_ago, 24 * 365 * go_hour)]"

subsection \<open>The content check fails closed\<close>

text \<open>\<open>CheckContentSecurity\<close> approves exactly when all four requests
  succeed, the token server returns a non-empty token, the check server
  answers the request built from the caller's arguments (version 2, the token
  in the URL) with \<open>errcode\<close> 0, and its overall result, if it sent one, has
  label 100.  A reply without \<open>result\<close> is approved.\<close>

lemma content_check_iff:
  "check_content_security net tsrv csrv content openid scene title \<longleftrightarrow>
     (\<exists>tok resp. net 0 \<and> net 1 \<and> net 2 \<and> net 3 \<and> tsrv token_url = Some tok \<and> tok \<noteq> []
        \<and> csrv (sec_check_url tok)
              \<lparr>sr_access_token = tok, sr_content = content, sr_scene = scene, sr_version = 2,
               sr_openid = openid, sr_title = title, sr_nickname = [], sr_signature = []\<rparr> = Some resp
        \<and> rsp_errcode resp = 0 \<and> (case rsp_result resp of None \<Rightarrow> True | Some res \<Rightarrow> res_label res = 100))"
  by (auto simp: check_content_security_def get_access_token_def Let_def
           split: if_splits option.splits sum.splits)

subsection \<open>Parsing the layout\<close>

lemma length_digits_fixed [simp]: "length (digits_fixed w n) = w"
  by (induction w arbitrary: n) simp_all

lemma digits_fixed_digits [simp]: "list_all is_digit (digits_fixed w n)"
  by (induction w arbitrary: n) simp_all

lemma digits_val_digits_fixed [simp]: "digits_val (digits_fixed w n) = n mod 10 ^ w"
proof (induction w arbitrary: n)
  case 0 then show ?case by (simp add: digits_val_def)
next
  case (Suc w)
  have "10 * (n div 10 mod 10 ^ w) + n mod 10 = n mod (10 * 10 ^ w)"
    by (simp add: mod_mult2_eq ac_simps)
  with Suc show ?case by (simp add: digits_val_snoc)
qed

lemma digits_fixed_2: "digits_fixed 2 n = [digit_char (n div 10 mod 10), digit_char (n mod 10)]"
  by (simp add: numeral_2_eq_2)

lemma getnum_two_digits: "n < 100 \<Longrightarrow> getnum b (digits_fixed 2 n @ r) = Some (n, r)"
  by (simp add: digits_fixed_2 getnum_def)

lemma parse_year_digits: "y < 10000 \<Longrightarrow> parse_year (digits_fixed 4 y @ r) = Some (y, r)"
  by (simp add: parse_year_def)

lemma skip_lit_same: "c \<noteq> CHR '' '' \<Longrightarrow> skip_lit c (c # r) = Some r"
  by (simp add: skip_lit_def)

lemma skip_lit_space_fixed:
  "skip_lit CHR '' '' (CHR '' '' # digits_fixed 2 n @ r) = Some (digits_fixed 2 n @ r)"
  by (simp add: skip_lit_def digits_fixed_2 is_digit_def digit_char_def)

lemma frac_seconds_Nil [simp]: "frac_seconds [] = (0, [])"
  by (simp add: frac_seconds_def)

text \<open>Round trip: a time written in the layout, with every field in range, is
  read back by \<open>parse_datetime\<close> as that time.\<close>

lemma parse_format_datetime:
  assumes "y < 10000" "1 \<le> mo" "mo \<le> 12" "1 \<le> d" "d \<le> days_in mo (int y)" "h < 24" "mi < 60" "s < 60"
  shows "parse_datetime (format_datetime y mo d h mi s) = Some (civil_time (int y) mo d h mi s 0)"
proof -
  have "d < 100" using assms(5) by (simp add: days_in_def split: if_splits)
  then have date: "parse_date (format_datetime y mo d h mi s) = Some (y, mo, d, '' '' @ digits_fixed 2 h @ '':'' @ digits_fixed 2 mi @ '':'' @ digits_fixed 2 s)"
    using assms by (simp add: parse_date_def format_datetime_def parse_year_digits skip_lit_same getnum_two_digits)
  have "parse_clock ('' '' @ digits_fixed 2 h @ '':'' @ digits_fixed 2 mi @ '':'' @ digits_fixed 2 s) = Some (h, mi, s, [])"
    using assms by (simp add: parse_clock_def skip_lit_space_fixed skip_lit_same getnum_two_digits getnum_two_digits [of _ _ "[]", simplified])
  with date assms show ?thesis by (simp add: parse_datetime_def)
qed

subsection \<open>\<open>timeAgo\<close>\<close>

lemma go_sub_in_range: "- (2 ^ 63) \<le> t - u \<Longrightarrow> t - u < 2 ^ 63 \<Longrightarrow> go_sub t u = t - u"
  by (simp add: go_sub_def)

lemma go_quot_nonneg: "0 \<le> a \<Longrightarrow> 0 < b \<Longrightarrow> go_quot a b = a div b"
  by (cases "a = 0") (simp_all add: go_quot_def)

lemma div_bracket:
  assumes "0 < (k::int)"
  shows "d div k * k \<le> d \<and> d < (d div k + 1) * k"
proof -
  have e: "d div k * k + d mod k = d" by (rule div_mult_mod_eq)
  have "0 \<le> d mod k" "d mod k < k" using assms by simp_all
  with e show ?thesis unfolding distrib_right by linarith
qed

text \<open>For a creation time that parses and is in the past, \<open>timeAgo\<close>
  writes the number of whole units elapsed, in one of its five units.\<close>

lemma time_ago_elapsed:
  assumes "parse_datetime s = Some t" "0 \<le> now - t" "now - t < 2 ^ 63"
  shows "\<exists>n u k. time_ago s now = itoa n @ utf8 u \<and> (u, k) \<in> set ago_units \<and> 0 \<le> n
           \<and> n * k \<le> now - t \<and> now - t < (n + 1) * k"
proof -
  define d where "d = now - t"
  have sub: "go_sub now t = d" using assms(2,3) by (simp add: go_sub_in_range d_def)
  have pos: "0 < go_minute" "0 < go_hour" by (simp_all add: go_hour_def go_minute_def)
  have unit: "\<exists>n. time_ago s now = itoa n @ utf8 u \<and> 0 \<le> n \<and> n * k \<le> d \<and> d < (n + 1) * k"
    if "(u, k) \<in> set ago_units" "0 < k" "time_ago s now = itoa (d div k) @ utf8 u" for u k
    using that div_bracket [OF that(2), of d] assms(2) d_def by (intro exI [of _ "d div k"]) (simp add: pos_imp_zdiv_nonneg_iff)
  consider "d < go_hour" | "go_hour \<le> d" "d < 24 * go_hour" | "24 * go_hour \<le> d" "d < 24 * 30 * go_hour"
    | "24 * 30 * go_hour \<le> d" "d < 24 * 365 * go_hour" | "24 * 365 * go_hour \<le> d" by linarith
  then show ?thesis
  proof cases
    case 1
    then have "time_ago s now = itoa (d div go_minute) @ utf8 minutes_ago"
      using assms(1,2) pos by (simp add: time_ago_def sub Let_def go_quot_nonneg d_def)
    with unit [of minutes_ago go_minute] pos show ?thesis by (auto simp: ago_units_def d_def)
  next
    case 2
    then have "time_ago s now = itoa (d div go_hour) @ utf8 hours_ago"
      using assms(1) pos by (simp add: time_ago_def sub Let_def)
    with unit [of hours_ago go_hour] pos show ?thesis by (auto simp: ago_units_def d_def)
  next
    case 3
    then have "time_ago s now = itoa (d div (24 * go_hour)) @ utf8 days_ago"
      using assms(1) pos by (simp add: time_ago_def sub Let_def)
    with unit [of days_ago "24 * go_hour"] pos show ?thesis by (auto simp: ago_units_def d_def)
  next
    case 4
    then have "time_ago s now = itoa (d div (24 * 30 * go_hour)) @ utf8 months_ago"
      using assms(1) pos by (simp add: time_ago_def sub Let_def)
    with unit [of months_ago "24 * 30 * go_hour"] pos show ?thesis by (auto simp: ago_units_def d_def)
  next
    case 5
    then have "time_ago s now = itoa (d div (24 * 365 * go_hour)) @ utf8 years_ago"
      using assms(1) pos by (simp add: time_ago_def sub Let_def)
    with unit [of years_ago "24 * 365 * go_hour"] pos show ?thesis by (auto simp: ago_units_def d_def)
  qed
qed

text \<open>A creation time at least a minute in the future is written as a negative
  number of minutes \<open>ago\<close>: \<open>diff.Hours() < 1\<close> holds for every negative
  duration.\<close>

lemma time_ago_future:
  assumes "parse_datetime s = Some t" "now + go_minute \<le> t"
  shows "\<exists>n < 0. time_ago s now = itoa n @ utf8 minutes_ago"
proof -
  have d: "go_sub now t \<le> - go_minute" "- (2 ^ 63) \<le> go_sub now t"
    using assms(2) by (auto simp: go_sub_def go_minute_def Let_def)
  then have "go_quot (go_sub now t) go_minute < 0"
    by (auto simp: go_quot_def go_minute_def sgn_if div_pos_pos_trivial)
  moreover have "go_sub now t < go_hour" using d by (simp add: go_hour_def go_minute_def)
  ultimately show ?thesis using assms(1) by (auto simp: time_ago_def Let_def)
qed


text \<open>Months are 30 days and years 365: between 360 and 365 days the result
  is \<open>12\<close> months.\<close>

lemma time_ago_twelve_months:
  assumes "parse_datetime s = Some t" "360 * 24 * go_hour \<le> now - t" "now - t < 365 * 24 * go_hour"
  shows "time_ago s now = ''12'' @ utf8 months_ago"
proof -
  have sub: "go_sub now t = now - t" using assms(2,3) by (simp add: go_sub_in_range go_hour_def go_minute_def)
  have "(now - t) div (24 * 30 * go_hour) = 12"
    by (rule int_div_pos_eq [where r = "now - t - 12 * (24 * 30 * go_hour)"])
       (use assms(2,3) in \<open>simp_all add: go_hour_def go_minute_def\<close>)
  then show ?thesis using assms by (simp add: time_ago_def sub Let_def go_hour_def go_minute_def itoa_def nat_digits.simps digit_char_def)
qed

end
