(* ===== verification/Session.thy ===== *)
theory Session
  imports Profile Content_Check
begin

text \<open>
  Configuration and sessions: \<open>configs/config.go\<close> (\<open>GetConfig\<close> and its
  structs), \<open>GenAccessToken\<close> of \<open>common/utils/user_utils.go\<close>, and the wiring
  of \<open>main.go\<close> that hands \<open>cfg.Jwt\<close> to the user controller, whose
  \<open>Login\<close> signs the access token with it.  The lemmas check that the
  constants the other theories use are those of \<open>GetConfig\<close>, and that a
  token issued by \<open>Login\<close> is accepted by the middleware with the user's id and
  the role the user had when logging in.
\<close>

subsection \<open>Configuration\<close>

record mysql_config =
  my_dsn :: string

record jwt_config =
  jw_secret_key :: string
  jw_access_expire :: int
  jw_refresh_expire :: int

record code_config =
  cc_expire :: int

record redis_config =
  rc_addr :: string
  rc_password :: string
  rc_db :: go_int

record rabbitmq_config =
  mq_dsn :: string
  mq_durable :: bool

record article_config =
  ac_kind_map :: "(string \<times> bool) list"
  ac_update_interval :: int

record go_config =
  cfg_mysql :: mysql_config
  cfg_jwt :: jwt_config
  cfg_code :: code_config
  cfg_redis :: redis_config
  cfg_article :: article_config
  cfg_rabbitmq :: rabbitmq_config

text \<open>\<open>GetConfig\<close>.  Durations are \<open>time.Duration\<close> nanoseconds.  The constants
  \<open>MYSQL_USER\<close>, \<open>MYSQL_PASSWORD\<close>, \<open>MYSQL_HOST\<close>, \<open>MYSQL_PORT\<close>,
  \<open>MYSQL_DB_NAME\<close>, \<open>MQ_USER\<close>, \<open>MQ_PASSWORD\<close>, \<open>MQ_HOST\<close> and \<open>MQ_PORT\<close>
  are not defined in the source tree: \<open>kc name\<close> is the value of the constant
  \<open>name\<close>.  The kind map holds the six kinds of \<open>article_kinds\<close>, each mapped
  to \<open>true\<close>.\<close>

definition get_config :: "(string \<Rightarrow> string) \<Rightarrow> go_config" where
  "get_config kc =
     \<lparr>cfg_mysql = \<lparr>my_dsn = kc ''MYSQL_USER'' @ '':'' @ kc ''MYSQL_PASSWORD'' @ ''@tcp('' @ kc ''MYSQL_HOST''
                          @ '':'' @ kc ''MYSQL_PORT'' @ '')/'' @ kc ''MYSQL_DB_NAME''
                          @ ''?charset=utf8mb4&parseTime=True&loc=Local''\<rparr>,
      cfg_jwt = \<lparr>jw_secret_key = ''huancuilou'', jw_access_expire = go_hour * 7 * 24,
                 jw_refresh_expire = go_hour * 7 * 24\<rparr>,
      cfg_code = \<lparr>cc_expire = go_minute * 2\<rparr>,
      cfg_redis = \<lparr>rc_addr = ''192.168.88.128:6379'', rc_password = ''1234'', rc_db = 0\<rparr>,
      cfg_article = \<lparr>ac_kind_map = map (\<lambda>k. (k, True)) article_kinds, ac_update_interval = go_hour\<rparr>,
      cfg_rabbitmq = \<lparr>mq_dsn = ''amqp://'' @ kc ''MQ_USER'' @ '':'' @ kc ''MQ_PASSWORD'' @ ''@'' @ kc ''MQ_HOST''
                            @ '':'' @ kc ''MQ_PORT'' @ ''/'', mq_durable = True\<rparr>\<rparr>"

subsection \<open>Access tokens\<close>

text \<open>\<open>JwtClaims\<close>: the user id and the \<open>IsManager\<close> flag as strings, and of the
  registered claims the two \<open>GenAccessToken\<close> sets.\<close>

record jwt_claims =
  jc_id :: string
  jc_is_manager :: string
  jc_expires_at :: go_time
  jc_issuer :: string

text \<open>The claims \<open>GenAccessToken\<close> builds: \<open>strconv.Itoa\<close> of the id and of the
  flag, an expiry of \<open>now + duration\<close> truncated to the second by
  \<open>jwt.NewNumericDate\<close>, the issuer.\<close>

definition access_claims :: "go_time \<Rightarrow> go_int \<Rightarrow> go_int \<Rightarrow> int \<Rightarrow> jwt_claims" where
  "access_claims now uid m expire =
     \<lparr>jc_id = itoa uid, jc_is_manager = itoa m,
      jc_expires_at = (now + expire) div 1000000000 * 1000000000, jc_issuer = ''huancuilou''\<rparr>"

text \<open>\<open>GenAccessToken\<close>: the claims signed with HS256 and the secret;
  \<open>sign\<close> is the jwt library's \<open>SignedString\<close>.\<close>

definition gen_access_token ::
  "(jwt_claims \<Rightarrow> string \<Rightarrow> string + string) \<Rightarrow> go_time \<Rightarrow> go_int \<Rightarrow> go_int \<Rightarrow> int \<Rightarrow> string \<Rightarrow> string + string" where
  "gen_access_token sign now uid m expire secret = sign (access_claims now uid m expire) secret"

text \<open>The token generator of \<open>UserController.Login\<close>: \<open>GenAccessToken\<close> with the
  controller's \<open>jwtConfig\<close>, which \<open>main.go\<close> sets to \<open>cfg.Jwt\<close>.\<close>

definition login_gen ::
  "(jwt_claims \<Rightarrow> string \<Rightarrow> string + string) \<Rightarrow> go_time \<Rightarrow> (string \<Rightarrow> string) \<Rightarrow> go_int \<Rightarrow> go_int \<Rightarrow> string + string" where
  "login_gen sign now kc uid m =
     gen_access_token sign now uid m (jw_access_expire (cfg_jwt (get_config kc))) (jw_secret_key (cfg_jwt (get_config kc)))"

text \<open>A header carrying only an access token.\<close>

definition token_header :: "string \<Rightarrow> string \<Rightarrow> string" where
  "token_header tok k = (if k = ''accessToken'' then tok else [])"

text \<open>A user table with one administrator, for the examples.\<close>

definition admin_user :: user where
  "admin_user = \<lparr>us_id = 7, us_name = ''admin'', us_phone = ''13800000000'', us_manager = 2,
                  us_created = 0, us_avatar = [], us_bio = [], us_likes = 0\<rparr>"

definition admin_db :: mysql where
  "admin_db = empty_db\<lparr>user_rows := [(7, admin_user)], user_next := 8\<rparr>"

subsection \<open>The constants agree with the configuration\<close>

lemma config_jwt_secret: "jw_secret_key (cfg_jwt (get_config kc)) = jwt_secret"
  by (simp add: get_config_def jwt_secret_def)

lemma config_code_expire: "cc_expire (cfg_code (get_config kc)) = code_expire * 1000000000"
  by (simp add: get_config_def code_expire_def go_minute_def)

lemma config_kind_map:
  "validate_article_kind k \<longleftrightarrow> (case map_of (ac_kind_map (cfg_article (get_config kc))) k of None \<Rightarrow> False | Some b \<Rightarrow> b)"
proof -
  have "map_of (map (\<lambda>k. (k, True)) ks) k = (if k \<in> set ks then Some True else None)" for ks
    by (induction ks) auto
  then show ?thesis by (simp add: get_config_def validate_article_kind_def)
qed

lemma access_expire_week: "jw_access_expire (cfg_jwt (get_config kc)) = 7 * 24 * 3600 * 1000000000"
  by (simp add: get_config_def go_hour_def go_minute_def)

lemma admin_role_itoa: "admin_role (itoa m) \<longleftrightarrow> m = 1 \<or> m = 2"
proof -
  have "''1'' = itoa 1" "''2'' = itoa 2" by (simp_all add: itoa_def nat_digits.simps digit_char_def)
  then show ?thesis by (simp only: admin_role_def itoa_eq_iff)
qed

lemma validate_token_issued:
  assumes "tok \<noteq> []" "jwt tok jwt_secret = JwtParsed (itoa uid) (itoa m) True" "in_int64 uid"
  shows "validate_token ord role (token_header tok) jwt = (MwNext uid :: 'a mw_out) \<longleftrightarrow> role (itoa m)"
  using assms by (simp add: validate_token_def validate_empty_token_def token_header_def parse_token_def
                            check_role_and_id_Next atoi_itoa)

text \<open>C38 (roundtrip).  A login followed by a request with the token it returned: the handler
  answers 200 with the token signed under \<open>cfg.Jwt\<close>; when the jwt library
  gives back, for that token and secret, the claims it signed, the token
  passes \<open>JwtInterceptor\<close> with the user's id, and \<open>AdminOnlyMiddleware\<close>
  exactly when the user was an administrator at login.\<close>

theorem login_token_admitted:
  assumes "fst (svc_login net names now uc cs db r) = Inr u" "validate_phone_number (uc_phone uc)"
    "in_int64 (us_id u)" "tok \<noteq> []"
    "sign (access_claims now (us_id u) (us_manager u) (jw_access_expire (cfg_jwt (get_config kc))))
          (jw_secret_key (cfg_jwt (get_config kc))) = Inr tok"
    "jwt tok (jw_secret_key (cfg_jwt (get_config kc)))
       = JwtParsed (jc_id (access_claims now (us_id u) (us_manager u) (jw_access_expire (cfg_jwt (get_config kc)))))
                   (jc_is_manager (access_claims now (us_id u) (us_manager u) (jw_access_expire (cfg_jwt (get_config kc)))))
                   True"
  shows "fst (ctrl_login ord emsg net names now (login_gen sign now kc) (BindOk uc) cs db r)
           = ([(200, success [(''accessToken'', tok)])], False)
    \<and> admit ord JwtGuard (token_header tok) jwt = (Admit (Some (us_id u)) :: 'a gate)
    \<and> (admit ord AdminGuard (token_header tok) jwt = (Admit (Some (us_id u)) :: 'a gate)
         \<longleftrightarrow> us_manager u = 1 \<or> us_manager u = 2)"
proof -
  obtain cs' db' r' where l: "svc_login net names now uc cs db r = (Inr u, cs', db', r')"
    using assms(1) by (metis prod_collapse3)
  have j: "jwt tok jwt_secret = JwtParsed (itoa (us_id u)) (itoa (us_manager u)) True"
    using assms(6) by (simp add: config_jwt_secret access_claims_def)
  have "fst (ctrl_login ord emsg net names now (login_gen sign now kc) (BindOk uc) cs db r)
           = ([(200, success [(''accessToken'', tok)])], False)"
    using assms(2,5) by (simp add: ctrl_login_def l login_gen_def gen_access_token_def)
  moreover have "admit ord JwtGuard (token_header tok) jwt = (Admit (Some (us_id u)) :: 'a gate)"
    using validate_token_issued [of tok jwt "us_id u" "us_manager u" ord jwt_role, OF assms(4) j assms(3), where 'a = 'a]
    by (simp add: admit_def guard_role_def jwt_role_def)
  moreover have "admit ord AdminGuard (token_header tok) jwt = (Admit (Some (us_id u)) :: 'a gate)
         \<longleftrightarrow> us_manager u = 1 \<or> us_manager u = 2"
    using validate_token_issued [of tok jwt "us_id u" "us_manager u" ord admin_role, OF assms(4) j assms(3), where 'a = 'a]
    by (auto simp: admit_def guard_role_def admin_role_itoa split: mw_out.splits)
  ultimately show ?thesis by blast
qed

theorem login_token_admitted_witness:
  "fst (svc_login (\<lambda>_. True) [] 0 demo_code (add_code demo_code 120 empty_code_store) admin_db empty_redis) = Inr admin_user
   \<and> validate_phone_number (uc_phone demo_code) \<and> in_int64 (us_id admin_user) \<and> ''tok'' \<noteq> []
   \<and> (\<lambda>c s. Inr ''tok'') (access_claims 0 (us_id admin_user) (us_manager admin_user) (jw_access_expire (cfg_jwt (get_config (\<lambda>_. [])))))
          (jw_secret_key (cfg_jwt (get_config (\<lambda>_. [])))) = (Inr ''tok'' :: string + string)
   \<and> fst (ctrl_login error_mapping (\<lambda>_. []) (\<lambda>_. True) [] 0 (login_gen (\<lambda>c s. Inr ''tok'') 0 (\<lambda>_. []))
            (BindOk demo_code) (add_code demo_code 120 empty_code_store) admin_db empty_redis)
       = ([(200, success [(''accessToken'', ''tok'')])], False)
   \<and> admit error_mapping JwtGuard (token_header ''tok'') (\<lambda>t s. JwtParsed ''7'' ''2'' True) = (Admit (Some 7) :: unit gate)
   \<and> admit error_mapping AdminGuard (token_header ''tok'') (\<lambda>t s. JwtParsed ''7'' ''2'' True) = (Admit (Some 7) :: unit gate)"
proof -
  have l: "fst (svc_login (\<lambda>_. True) [] 0 demo_code (add_code demo_code 120 empty_code_store) admin_db empty_redis) = Inr admin_user"
    by code_simp
  have p: "validate_phone_number (uc_phone demo_code)" by code_simp
  have i: "in_int64 (us_id admin_user)" by (simp add: admin_user_def in_int64_def)
  have j: "(\<lambda>t s. JwtParsed ''7'' ''2'' True) ''tok'' (jw_secret_key (cfg_jwt (get_config (\<lambda>_. []))))
       = JwtParsed (jc_id (access_claims 0 (us_id admin_user) (us_manager admin_user) (jw_access_expire (cfg_jwt (get_config (\<lambda>_. []))))))
                   (jc_is_manager (access_claims 0 (us_id admin_user) (us_manager admin_user) (jw_access_expire (cfg_jwt (get_config (\<lambda>_. []))))))
                   True"
    by (simp add: access_claims_def admin_user_def itoa_def nat_digits.simps digit_char_def)
  from login_token_admitted [of "\<lambda>_. True" "[]" 0 demo_code "add_code demo_code 120 empty_code_store" admin_db empty_redis admin_user
         "''tok''" "\<lambda>c s. Inr ''tok''" "\<lambda>_. []" "\<lambda>t s. JwtParsed ''7'' ''2'' True" error_mapping "\<lambda>_. []", OF l p i _ refl j,
         where 'a = unit]
  show ?thesis using l p i by (simp add: admin_user_def)
qed

end
