(* ===== verification/Article_Listing.thy ===== *)
theory Article_Listing
  imports Http_Layer Item_Listing
begin

text \<open>
  \<open>GetAllArticleByKind\<close> of the cache
  (\<open>internal/article/article_repository/article_cache_repository.go\<close>), the
  service method that wraps it and \<open>ArticleController.GetAllArticle\<close>: the
  kind's id list (\<open>LRANGE 0 -1\<close>), then each id's basic hash; a missing hash
  is skipped, any other failure ends the listing with its error.  The lemma of
  this theory composes \<open>AddArticle\<close> (\<open>Article_Service\<close>) with the listing.
\<close>

datatype list_err = ListRange rerr | ListAtoiId string | ListHash rerr | ListAtoiLike string
  | ListAtoiManager string

text \<open>The loop over the ids: \<open>HGETALL\<close> of the \<open>i\<close>-th is request \<open>j + i\<close>.\<close>

fun list_kind_loop :: "(nat \<Rightarrow> bool) \<Rightarrow> nat \<Rightarrow> redis \<Rightarrow> string list \<Rightarrow> list_err + basic_article list" where
  "list_kind_loop net j r [] = Inr []"
| "list_kind_loop net j r (s # ss) =
     (case atoi s of
        None \<Rightarrow> Inl (ListAtoiId s)
      | Some aid \<Rightarrow>
          (case fst (call (net j) (hgetall_srv (basic_map_key aid)) r) of
             Inl e \<Rightarrow> Inl (ListHash e)
           | Inr h \<Rightarrow>
               if h = [] then list_kind_loop net (Suc j) r ss
               else (case atoi (field_of h ''like'') of
                       None \<Rightarrow> Inl (ListAtoiLike (field_of h ''like''))
                     | Some lk \<Rightarrow>
                         (case atoi (field_of h ''manager_id'') of
                            None \<Rightarrow> Inl (ListAtoiManager (field_of h ''manager_id''))
                          | Some m \<Rightarrow>
                              (case list_kind_loop net (Suc j) r ss of
                                 Inl e \<Rightarrow> Inl e
                               | Inr as \<Rightarrow> Inr (\<lparr>ba_id = aid, ba_title = field_of h ''title'',
                                                  ba_content = field_of h ''content'', ba_kind = field_of h ''kind'',
                                                  ba_like = lk, ba_manager = m\<rparr> # as))))))"

definition get_all_article_by_kind :: "(nat \<Rightarrow> bool) \<Rightarrow> string \<Rightarrow> redis \<Rightarrow> list_err + basic_article list" where
  "get_all_article_by_kind net kind r =
     (case fst (call (net 0) (lrange_all_srv (basic_list_key kind)) r) of
        Inl e \<Rightarrow> Inl (ListRange e)
      | Inr ids \<Rightarrow> list_kind_loop net 1 r ids)"

text \<open>The error texts of \<open>GetAllArticleByKind\<close>; \<open>emsg\<close> is the text of a Redis
  error.\<close>

definition list_err_text :: "(rerr \<Rightarrow> string) \<Rightarrow> list_err \<Rightarrow> string" where
  "list_err_text emsg e =
     (case e of
        ListRange x \<Rightarrow> utf8 [0x83B7, 0x53D6, 0x5217, 0x8868, 0x65F6, 0x51FA, 0x9519, 0x3A, 0x20] @ emsg x
      | ListAtoiId s \<Rightarrow> utf8 [0x8F6C, 0x6362, 0x49, 0x44, 0x65F6, 0x51FA, 0x9519, 0x3A, 0x20] @ atoi_err_text s
      | ListHash x \<Rightarrow> utf8 [0x83B7, 0x53D6, 0x54C8, 0x5E0C, 0x8868, 0x65F6, 0x51FA, 0x9519, 0x3A, 0x20] @ emsg x
      | ListAtoiLike s \<Rightarrow> utf8 [0x8F6C, 0x6362, 0x70B9, 0x8D5E, 0x6570, 0x65F6, 0x51FA, 0x9519, 0x3A, 0x20] @ atoi_err_text s
      | ListAtoiManager s \<Rightarrow> utf8 [0x8F6C, 0x6362, 0x7BA1, 0x7406, 0x5458, 0x69, 0x64, 0x65F6, 0x51FA, 0x9519, 0x3A, 0x20]
                              @ atoi_err_text s)"

text \<open>\<open>ArticleController.GetAllArticle\<close> with \<open>ArticleService.GetAllArticleByKind\<close>:
  the kind is the query parameter, not checked.\<close>

definition svc_get_all_article_by_kind ::
  "(rerr \<Rightarrow> string) \<Rightarrow> (nat \<Rightarrow> bool) \<Rightarrow> string \<Rightarrow> redis \<Rightarrow> string + basic_article list" where
  "svc_get_all_article_by_kind emsg net kind r =
     (case get_all_article_by_kind net kind r of
        Inl e \<Rightarrow> Inl (''ArticleService.GetAllArticleByKind err: '' @ list_err_text emsg e)
      | Inr as \<Rightarrow> Inr as)"

definition ctrl_get_all_article ::
  "(string \<times> error_type) list \<Rightarrow> (rerr \<Rightarrow> string) \<Rightarrow> (nat \<Rightarrow> bool) \<Rightarrow> string \<Rightarrow> redis \<Rightarrow> basic_article list handler_out" where
  "ctrl_get_all_article ord emsg net kind r =
     (case svc_get_all_article_by_kind emsg net kind r of
        Inl t \<Rightarrow> ([handle_user_error ord (''ArticleController.GetAllArticle err: 500: '' @ t)], False)
      | Inr as \<Rightarrow> ([(200, success as)], False))"

subsection \<open>A failed AddArticle is listed\<close>

lemma failed_add_article_cache:
  assumes "net 0" "net 1" "net 2" "net 3" "\<not> net 4" "art_id a = 0"
    "map_of (article_rows (sys_db s)) (article_next (sys_db s)) = None"
    "lookup (sys_cache s) (basic_map_key (article_next (sys_db s))) = None"
    "list_of (sys_cache s) (basic_list_key (art_kind a)) = Inr []"
    "svc_add_article net a mid now s = (x, s')"
  shows "sys_cache s' = store (basic_list_key (art_kind a)) (RList [itoa (article_next (sys_db s))])
           (store (basic_map_key (article_next (sys_db s)))
              (RHash (fold (\<lambda>(f, v). AList.update f v)
                 [(''id'', itoa (article_next (sys_db s))), (''title'', art_title a),
                  (''content'', substring (art_content a) 5), (''kind'', art_kind a), (''like'', itoa 0),
                  (''manager_id'', itoa mid)] [])) (sys_cache s))"
  using assms
  by (auto simp: svc_add_article_def db_add_article_def add_basic_article_def hset_srv_def hash_of_def
      lpush_srv_def view_defs Let_def eval_nat_numeral call_def key_simps split: option.splits rval.splits)


text \<open>C17 (error).  When the commit of \<open>AddArticle\<close> fails after the cache
  writes, the handler reports the error and MySQL has no row for the article,
  yet \<open>GetAllArticle\<close> for its kind lists it: the basic hash and the kind list
  written before the commit are not undone, so readers see an article that does
  not exist durably.\<close>

theorem failed_add_article_listed:
  assumes "net 0" "net 1" "net 2" "net 3" "\<not> net 4" "art_id a = 0"
    "map_of (article_rows (sys_db s)) (article_next (sys_db s)) = None"
    "lookup (sys_cache s) (basic_map_key (article_next (sys_db s))) = None"
    "list_of (sys_cache s) (basic_list_key (art_kind a)) = Inr []"
    "in_int64 (article_next (sys_db s))" "in_int64 mid"
    "svc_add_article net a mid now s = (x, s')"
  shows "x = Inl (SvcDb DbConn) \<and> map_of (article_rows (sys_db s')) (article_next (sys_db s)) = None
     \<and> get_all_article_by_kind (\<lambda>_. True) (art_kind a) (sys_cache s') =
        Inr [\<lparr>ba_id = article_next (sys_db s), ba_title = art_title a, ba_content = substring (art_content a) 5,
              ba_kind = art_kind a, ba_like = 0, ba_manager = mid\<rparr>]"
proof -
  have f: "x = Inl (SvcDb DbConn)" "article_rows (sys_db s') = article_rows (sys_db s)"
    using add_article_commit_failure [OF assms(1-9,12)] by simp_all
  note c = failed_add_article_cache [OF assms(1-9,12)]
  have "get_all_article_by_kind (\<lambda>_. True) (art_kind a) (sys_cache s') =
        Inr [\<lparr>ba_id = article_next (sys_db s), ba_title = art_title a, ba_content = substring (art_content a) 5,
              ba_kind = art_kind a, ba_like = 0, ba_manager = mid\<rparr>]"
    using assms(10,11)
    by (simp add: c get_all_article_by_kind_def lrange_all_srv_def call_def list_of_def lookup_def store_def
                  hgetall_srv_def hash_of_def field_of_def atoi_itoa key_simps in_int64_def)
  with f assms(7) show ?thesis by simp
qed


theorem failed_add_article_listed_witness:
  "fst (svc_add_article (\<lambda>k. k \<noteq> 4) demo_new 9 0 demo_sys) = Inl (SvcDb DbConn)
   \<and> map_of (article_rows (sys_db (snd (svc_add_article (\<lambda>k. k \<noteq> 4) demo_new 9 0 demo_sys)))) 2 = None
   \<and> get_all_article_by_kind (\<lambda>_. True) (art_kind demo_new) (sys_cache (snd (svc_add_article (\<lambda>k. k \<noteq> 4) demo_new 9 0 demo_sys)))
     = Inr [\<lparr>ba_id = 2, ba_title = art_title demo_new, ba_content = substring (art_content demo_new) 5,
             ba_kind = art_kind demo_new, ba_like = 0, ba_manager = 9\<rparr>]"
proof -
  have h: "map_of (article_rows (sys_db demo_sys)) (article_next (sys_db demo_sys)) = None"
    "lookup (sys_cache demo_sys) (basic_map_key (article_next (sys_db demo_sys))) = None"
    "list_of (sys_cache demo_sys) (basic_list_key (art_kind demo_new)) = Inr []"
    "article_next (sys_db demo_sys) = 2" "art_id demo_new = 0"
    by code_simp+
  have i: "in_int64 (article_next (sys_db demo_sys))" "in_int64 9" using h(4) by (simp_all add: in_int64_def)
  show ?thesis
    using failed_add_article_listed [where net = "\<lambda>k. k \<noteq> 4", OF _ _ _ _ _ h(5) h(1,2,3) i prod.collapse [symmetric]] h(4)
    by simp
qed

end
