(* ===== verification/Server.thy ===== *)
theory Server
  imports Session Article_Listing
begin

text \<open>
  The whole server of \<open>main.go\<close>: one state holding what the repositories,
  the services and their goroutines share (MySQL, Redis, the in-memory code
  store, the article service's background refills, the RabbitMQ queue and the
  reservation consumers), the requests of the route table of
  \<open>routers/router.go\<close>, and \<open>serve\<close>, which runs a request through its
  route's middleware and then its handler, wired as \<open>main.go\<close> wires them.
  Besides requests, the server moves by the goroutines the code starts: the
  code store's timers, the article service's refills and its periodic tick,
  and the consumers' own steps.  \<open>sreach\<close> is the set of states the server
  can reach from its start, under any interleaving of these.
\<close>

subsection \<open>State and requests\<close>

record server =
  sv_now :: go_time
  sv_db :: mysql
  sv_cache :: redis
  sv_bg :: "bg_task list"
  sv_codes :: code_store
  sv_queue :: "string list"
  sv_consumers :: "consumer list"
  sv_crashed :: bool

text \<open>What the environment decides for a request: the iteration order of
  \<open>errorMapping\<close>, which network requests fail, the request header and the jwt
  library, the random draws and names, the undefined configuration constants,
  the time parser of \<open>AddChooseItemConsumer\<close>, and the texts of library
  errors.\<close>

record env =
  ev_ord :: "(string \<times> error_type) list"
  ev_net :: "nat \<Rightarrow> bool"
  ev_hdr :: "string \<Rightarrow> string"
  ev_jwt :: "string \<Rightarrow> string \<Rightarrow> jwt_result"
  ev_sign :: "jwt_claims \<Rightarrow> string \<Rightarrow> string + string"
  ev_kc :: "string \<Rightarrow> string"
  ev_rnd :: "nat \<Rightarrow> nat"
  ev_names :: "string list"
  ev_parse_time :: "string \<Rightarrow> string + go_time"
  ev_acc_msg :: "acc_err \<Rightarrow> string"
  ev_svc_msg :: "svc_err \<Rightarrow> string"
  ev_user_msg :: "user_err \<Rightarrow> string"
  ev_rank_msg :: "rank_err \<Rightarrow> string"
  ev_pub_msg :: "pub_err \<Rightarrow> string"
  ev_item_msg :: "item_err \<Rightarrow> string"
  ev_rerr_msg :: "rerr \<Rightarrow> string"

text \<open>One constructor per route of \<open>SetUpRouters\<close>, with the path parameters and
  the bound body it reads.\<close>

datatype request =
    RqSendCode string
  | RqLogin "user_code bind_result"
  | RqAddAdministrator string
  | RqGetUserInfo
  | RqUpdateUserInfo "user bind_result"
  | RqAddScore "score_record bind_result"
  | RqAddPhoneRecord string string
  | RqGetPhoneRecord string
  | RqAddFollows string
  | RqGetFollows
  | RqGetOtherUserInfo string
  | RqRemoveFollows string
  | RqGetCommonFollows string
  | RqAddUserLikes string
  | RqGetLikesRank
  | RqAddItem "community_item bind_result"
  | RqGetAllItems
  | RqChooseItem string
  | RqAddConsumer string string
  | RqAddArticle "article bind_result"
  | RqGetAllArticle string
  | RqGetArticle string
  | RqArticleLikes string
  | RqArticleRemoveLikes string
  | RqUpdateArticle "article bind_result"

text \<open>The handler each request is routed to, by its name in \<open>routes\<close>.\<close>

fun request_handler :: "request \<Rightarrow> string" where
  "request_handler (RqSendCode _) = ''UserController.SendCode''"
| "request_handler (RqLogin _) = ''UserController.Login''"
| "request_handler (RqAddAdministrator _) = ''UserController.AddAdministrator''"
| "request_handler RqGetUserInfo = ''UserController.GetUserInfo''"
| "request_handler (RqUpdateUserInfo _) = ''UserController.UpdateUserInfo''"
| "request_handler (RqAddScore _) = ''UserController.AddScore''"
| "request_handler (RqAddPhoneRecord _ _) = ''UserController.AddPhoneRecord''"
| "request_handler (RqGetPhoneRecord _) = ''UserController.GetPhoneRecordByPhone''"
| "request_handler (RqAddFollows _) = ''UserController.AddFollows''"
| "request_handler RqGetFollows = ''UserController.GetFollows''"
| "request_handler (RqGetOtherUserInfo _) = ''UserController.GetOtherUserInfo''"
| "request_handler (RqRemoveFollows _) = ''UserController.RemoveFollows''"
| "request_handler (RqGetCommonFollows _) = ''UserController.GetCommonFollows''"
| "request_handler (RqAddUserLikes _) = ''UserController.AddLikes''"
| "request_handler RqGetLikesRank = ''UserController.GetLikesRank''"
| "request_handler (RqAddItem _) = ''UserController.AddItem''"
| "request_handler RqGetAllItems = ''UserController.GetAllItems''"
| "request_handler (RqChooseItem _) = ''UserController.ChooseItem''"
| "request_handler (RqAddConsumer _ _) = ''UserController.AddChooseItemConsumer''"
| "request_handler (RqAddArticle _) = ''ArticleController.AddArticle''"
| "request_handler (RqGetAllArticle _) = ''ArticleController.GetAllArticle''"
| "request_handler (RqGetArticle _) = ''ArticleController.GetArticle''"
| "request_handler (RqArticleLikes _) = ''ArticleController.AddLikes''"
| "request_handler (RqArticleRemoveLikes _) = ''ArticleController.RemoveLikes''"
| "request_handler (RqUpdateArticle _) = ''ArticleController.UpdateArticle''"

text \<open>The middleware of a handler's route.\<close>

definition route_guard :: "string \<Rightarrow> guard" where
  "route_guard h = (case find (\<lambda>(m, p, g, h'). h' = h) routes of Some (m, p, g, h') \<Rightarrow> g | None \<Rightarrow> Open)"

subsection \<open>Views of the state\<close>

definition sys_of :: "server \<Rightarrow> sys" where
  "sys_of s = \<lparr>sys_db = sv_db s, sys_cache = sv_cache s, sys_bg = sv_bg s\<rparr>"

definition with_sys :: "server \<Rightarrow> sys \<Rightarrow> server" where
  "with_sys s t = s\<lparr>sv_db := sys_db t, sv_cache := sys_cache t, sv_bg := sys_bg t\<rparr>"

definition rsys_of :: "server \<Rightarrow> rsys" where
  "rsys_of s = \<lparr>rs_now = sv_now s, rs_cache = sv_cache s, rs_db = sv_db s, rs_queue = sv_queue s,
                rs_consumers = sv_consumers s, rs_crashed = sv_crashed s\<rparr>"

definition with_rsys :: "server \<Rightarrow> rsys \<Rightarrow> server" where
  "with_rsys s t = s\<lparr>sv_now := rs_now t, sv_cache := rs_cache t, sv_db := rs_db t, sv_queue := rs_queue t,
                     sv_consumers := rs_consumers t, sv_crashed := rs_crashed t\<rparr>"

text \<open>What the client sees of a handler's output: the statuses it wrote, and
  whether it panicked (gin's recovery answers a panic with 500 and the
  server goes on).\<close>

definition out_of :: "'a handler_out \<Rightarrow> int list \<times> bool" where
  "out_of ho = (map fst (fst ho), snd ho)"

subsection \<open>The handlers, wired\<close>

text \<open>The handler of a request that passed its middleware, \<open>uid\<close> being the
  \<open>userID\<close> the middleware set (0 on the open routes, whose handlers do not
  read it).  \<open>None\<close> when the handler does not return (the cursor loop of
  \<open>GetAllItems\<close>).\<close>

fun handle :: "env \<Rightarrow> go_int \<Rightarrow> request \<Rightarrow> server \<Rightarrow> (int list \<times> bool \<times> server) option" where
  "handle ev uid (RqSendCode phone) s =
     (case ctrl_send_code (ev_ord ev) phone (ev_rnd ev) (sv_codes s) of
        (ho, cs) \<Rightarrow> Some (fst (out_of ho), snd (out_of ho), s\<lparr>sv_codes := cs\<rparr>))"
| "handle ev uid (RqLogin body) s =
     (case ctrl_login (ev_ord ev) (ev_acc_msg ev) (ev_net ev) (ev_names ev) (sv_now s)
             (login_gen (ev_sign ev) (sv_now s) (ev_kc ev)) body (sv_codes s) (sv_db s) (sv_cache s) of
        (ho, cs, db, r) \<Rightarrow> Some (fst (out_of ho), snd (out_of ho), s\<lparr>sv_codes := cs, sv_db := db, sv_cache := r\<rparr>))"
| "handle ev uid (RqAddAdministrator phone) s =
     (case ctrl_add_administrator (ev_ord ev) (ev_acc_msg ev) (ev_net ev) phone (sv_db s) of
        (ho, db) \<Rightarrow> Some (fst (out_of ho), snd (out_of ho), s\<lparr>sv_db := db\<rparr>))"
| "handle ev uid RqGetUserInfo s =
     Some (fst (out_of (ctrl_get_user_info (ev_ord ev) (ev_acc_msg ev) (ev_net ev) uid (sv_db s))),
           snd (out_of (ctrl_get_user_info (ev_ord ev) (ev_acc_msg ev) (ev_net ev) uid (sv_db s))), s)"
| "handle ev uid (RqUpdateUserInfo body) s =
     (case ctrl_update_user_info (ev_ord ev) (ev_acc_msg ev) (ev_net ev) uid body (sv_db s) of
        (ho, db) \<Rightarrow> Some (fst (out_of ho), snd (out_of ho), s\<lparr>sv_db := db\<rparr>))"
| "handle ev uid (RqAddScore body) s =
     (case ctrl_add_score (ev_ord ev) (ev_acc_msg ev) (ev_net ev) body (sv_db s) of
        (ho, db) \<Rightarrow> Some (fst (out_of ho), snd (out_of ho), s\<lparr>sv_db := db\<rparr>))"
| "handle ev uid (RqAddPhoneRecord form content) s =
     (case ctrl_add_phone_record (ev_ord ev) (ev_acc_msg ev) (ev_net ev) form content (sv_now s) (sv_db s) of
        (ho, db) \<Rightarrow> Some (fst (out_of ho), snd (out_of ho), s\<lparr>sv_db := db\<rparr>))"
| "handle ev uid (RqGetPhoneRecord phone) s =
     Some (fst (out_of (ctrl_get_phone_record_by_phone (ev_ord ev) (ev_acc_msg ev) (ev_net ev) phone (sv_db s))),
           snd (out_of (ctrl_get_phone_record_by_phone (ev_ord ev) (ev_acc_msg ev) (ev_net ev) phone (sv_db s))), s)"
| "handle ev uid (RqAddFollows param) s =
     (case ctrl_add_follows (ev_ord ev) (ev_user_msg ev) (ev_net ev) uid param (sv_now s) (sv_db s) (sv_cache s) of
        (ho, db, r) \<Rightarrow> Some (fst (out_of ho), snd (out_of ho), s\<lparr>sv_db := db, sv_cache := r\<rparr>))"
| "handle ev uid RqGetFollows s =
     Some (fst (out_of (ctrl_get_follows (ev_ord ev) (ev_acc_msg ev) (ev_net ev) uid (sv_db s))),
           snd (out_of (ctrl_get_follows (ev_ord ev) (ev_acc_msg ev) (ev_net ev) uid (sv_db s))), s)"
| "handle ev uid (RqGetOtherUserInfo param) s =
     Some (fst (out_of (ctrl_get_other_user_info (ev_ord ev) (ev_acc_msg ev) (ev_net ev) param (sv_db s))),
           snd (out_of (ctrl_get_other_user_info (ev_ord ev) (ev_acc_msg ev) (ev_net ev) param (sv_db s))), s)"
| "handle ev uid (RqRemoveFollows param) s =
     (case ctrl_remove_follows (ev_ord ev) (ev_user_msg ev) (ev_net ev) uid param (sv_db s) (sv_cache s) of
        (ho, db, r) \<Rightarrow> Some (fst (out_of ho), snd (out_of ho), s\<lparr>sv_db := db, sv_cache := r\<rparr>))"
| "handle ev uid (RqGetCommonFollows param) s =
     Some (fst (out_of (ctrl_get_common_follows (ev_ord ev) (ev_acc_msg ev) (ev_net ev) uid param (sv_db s) (sv_cache s))),
           snd (out_of (ctrl_get_common_follows (ev_ord ev) (ev_acc_msg ev) (ev_net ev) uid param (sv_db s) (sv_cache s))), s)"
| "handle ev uid (RqAddUserLikes param) s =
     (case ctrl_add_user_likes (ev_ord ev) (ev_user_msg ev) (ev_net ev) param (sv_db s) (sv_cache s) of
        (ho, db, r) \<Rightarrow> Some (fst (out_of ho), snd (out_of ho), s\<lparr>sv_db := db, sv_cache := r\<rparr>))"
| "handle ev uid RqGetLikesRank s =
     (case ctrl_get_likes_rank (ev_ord ev) (ev_rank_msg ev) (ev_net ev) uid (sv_cache s) of
        (ho, r) \<Rightarrow> Some (fst (out_of ho), snd (out_of ho), s\<lparr>sv_cache := r\<rparr>))"
| "handle ev uid (RqAddItem body) s =
     (case ctrl_add_item (ev_ord ev) (ev_acc_msg ev) (ev_net ev) body (sv_db s) (sv_cache s) of
        (ho, db, r) \<Rightarrow> Some (fst (out_of ho), snd (out_of ho), s\<lparr>sv_db := db, sv_cache := r\<rparr>))"
| "handle ev uid RqGetAllItems s =
     (case ctrl_get_all_items (ev_ord ev) (ev_item_msg ev) (ev_net ev) (sv_cache s) of
        None \<Rightarrow> None
      | Some ho \<Rightarrow> Some (fst (out_of ho), snd (out_of ho), s))"
| "handle ev uid (RqChooseItem param) s =
     (case ctrl_choose_item (ev_ord ev) (ev_pub_msg ev) (ev_net ev) uid param (sv_cache s) (sv_queue s) of
        (ho, r, q) \<Rightarrow> Some (fst (out_of ho), snd (out_of ho), s\<lparr>sv_cache := r, sv_queue := q\<rparr>))"
| "handle ev uid (RqAddConsumer bs es) s =
     (case ctrl_add_choose_item_consumer (ev_ord ev) (ev_parse_time ev) (sv_now s) bs es of
        (ho, None) \<Rightarrow> Some (fst (out_of ho), snd (out_of ho), s)
      | (ho, Some c) \<Rightarrow> Some (fst (out_of ho), snd (out_of ho), s\<lparr>sv_consumers := sv_consumers s @ [c]\<rparr>))"
| "handle ev uid (RqAddArticle body) s =
     (case ctrl_add_article (ev_ord ev) (ev_svc_msg ev) (ev_net ev) body uid (sv_now s) (sys_of s) of
        (ho, t) \<Rightarrow> Some (fst (out_of ho), snd (out_of ho), with_sys s t))"
| "handle ev uid (RqGetAllArticle kind) s =
     Some (fst (out_of (ctrl_get_all_article (ev_ord ev) (ev_rerr_msg ev) (ev_net ev) kind (sv_cache s))),
           snd (out_of (ctrl_get_all_article (ev_ord ev) (ev_rerr_msg ev) (ev_net ev) kind (sv_cache s))), s)"
| "handle ev uid (RqGetArticle param) s =
     (case ctrl_get_article (ev_ord ev) (ev_svc_msg ev) (ev_net ev) param (sys_of s) of
        (ho, t) \<Rightarrow> Some (fst (out_of ho), snd (out_of ho), with_sys s t))"
| "handle ev uid (RqArticleLikes param) s =
     (case ctrl_add_likes (ev_ord ev) (ev_svc_msg ev) (ev_net ev) param uid (sys_of s) of
        (ho, t) \<Rightarrow> Some (fst (out_of ho), snd (out_of ho), with_sys s t))"
| "handle ev uid (RqArticleRemoveLikes param) s =
     (case ctrl_remove_likes (ev_ord ev) (ev_svc_msg ev) (ev_net ev) param uid (sys_of s) of
        (ho, t) \<Rightarrow> Some (fst (out_of ho), snd (out_of ho), with_sys s t))"
| "handle ev uid (RqUpdateArticle body) s =
     (case ctrl_update_article (ev_ord ev) (ev_svc_msg ev) (ev_net ev) body (sys_of s) of
        (ho, t) \<Rightarrow> Some (fst (out_of ho), snd (out_of ho), with_sys s t))"

text \<open>A request: its route's middleware, then, if it lets the request through,
  the handler with the \<open>userID\<close> it set.\<close>

definition serve :: "env \<Rightarrow> request \<Rightarrow> server \<Rightarrow> (int list \<times> bool \<times> server) option" where
  "serve ev rq s =
     (case admit (ev_ord ev) (route_guard (request_handler rq)) (ev_hdr ev) (ev_jwt ev) :: unit gate of
        Reject r \<Rightarrow> Some ([fst r], False, s)
      | Admit u \<Rightarrow> handle ev (case u of None \<Rightarrow> 0 | Some x \<Rightarrow> x) rq s)"

subsection \<open>The goroutines and the reachable states\<close>

text \<open>The events of the code store that no request causes: time passing, a
  timer expiring, its callback running.\<close>

fun timer_event :: "code_event \<Rightarrow> bool" where
  "timer_event (Advance _) = True"
| "timer_event (Fire _) = True"
| "timer_event (RunCallback _) = True"
| "timer_event _ = False"

text \<open>The events of the reservation system that no request causes: time
  passing and the consumers' steps (publishing is \<open>ChooseItem\<close>, scheduling is
  \<open>AddChooseItemConsumer\<close>).\<close>

fun consumer_event :: "event \<Rightarrow> bool" where
  "consumer_event (EPublish _ _ _) = False"
| "consumer_event (ESchedule _ _) = False"
| "consumer_event _ = True"

text \<open>The state \<open>main\<close> starts from: whatever MySQL and Redis hold, an empty
  code store, no refill pending, no message, no consumer.  Then any
  interleaving of requests, timer events, refills (\<open>run_bg\<close>), ticks of
  \<open>PeriodicUpdateLikes\<close> and consumer steps.  A panic in a consumer goroutine
  ends the process; a panic in a handler is recovered by gin.\<close>

definition start_server :: "go_time \<Rightarrow> mysql \<Rightarrow> redis \<Rightarrow> server" where
  "start_server now db r =
     \<lparr>sv_now = now, sv_db = db, sv_cache = r, sv_bg = [], sv_codes = empty_code_store,
      sv_queue = [], sv_consumers = [], sv_crashed = False\<rparr>"

inductive sreach :: "server \<Rightarrow> bool" where
  start: "sreach (start_server now db r)"
| request: "sreach s \<Longrightarrow> \<not> sv_crashed s \<Longrightarrow> serve ev rq s = Some (st, p, s') \<Longrightarrow> sreach s'"
| timer: "sreach s \<Longrightarrow> \<not> sv_crashed s \<Longrightarrow> timer_event e \<Longrightarrow> code_step e (sv_codes s) = Some (x, cs)
    \<Longrightarrow> sreach (s\<lparr>sv_codes := cs\<rparr>)"
| refill: "sreach s \<Longrightarrow> \<not> sv_crashed s \<Longrightarrow> sreach (with_sys s (run_bg net i (sys_of s)))"
| tick: "sreach s \<Longrightarrow> \<not> sv_crashed s \<Longrightarrow> sreach (with_sys s (periodic_tick cnet dnet (sys_of s)))"
| consumer: "sreach s \<Longrightarrow> consumer_event e \<Longrightarrow> run_event e (rsys_of s) = Some t \<Longrightarrow> sreach (with_rsys s t)"

text \<open>The tables only administrators are meant to write: articles, items and
  phone records.\<close>

definition catalog_eq :: "mysql \<Rightarrow> mysql \<Rightarrow> bool" where
  "catalog_eq db db' \<longleftrightarrow>
     article_rows db' = article_rows db \<and> item_rows db' = item_rows db \<and> phone_rows db' = phone_rows db"

text \<open>A request's token is an administrator's: the jwt library accepts it and its
  \<open>IsManager\<close> claim is 1 or 2.\<close>

definition admin_token :: "env \<Rightarrow> bool" where
  "admin_token ev \<longleftrightarrow>
     (case ev_jwt ev (ev_hdr ev ''accessToken'') jwt_secret of JwtParsed ids mgr v \<Rightarrow> v \<and> admin_role mgr | JwtError e \<Rightarrow> False)"

text \<open>An environment for the examples: every request answered, no header.\<close>

definition demo_env :: env where
  "demo_env = \<lparr>ev_ord = error_mapping, ev_net = (\<lambda>_. True), ev_hdr = (\<lambda>_. []), ev_jwt = (\<lambda>_ _. JwtError []),
                ev_sign = (\<lambda>_ _. Inr []), ev_kc = (\<lambda>_. []), ev_rnd = (\<lambda>_. 0), ev_names = [],
                ev_parse_time = (\<lambda>_. Inl []), ev_acc_msg = (\<lambda>_. []), ev_svc_msg = (\<lambda>_. []),
                ev_user_msg = (\<lambda>_. []), ev_rank_msg = (\<lambda>_. []), ev_pub_msg = (\<lambda>_. []),
                ev_item_msg = (\<lambda>_. []), ev_rerr_msg = (\<lambda>_. [])\<rparr>"

text \<open>A user's (not an administrator's) session, and a score record.\<close>

definition user_env :: env where
  "user_env = demo_env\<lparr>ev_hdr := token_header ''t'', ev_jwt := (\<lambda>_ _. JwtParsed ''5'' ''0'' True)\<rparr>"

definition demo_score :: score_record where
  "demo_score = \<lparr>sr_id = 0, sr_user = 5, sr_manager = 1, sr_score = 10, sr_created = 0\<rparr>"

subsection \<open>The code store under the server\<close>

lemma svc_login_codes:
  "fst (snd (svc_login net names now uc cs db r)) = snd (validate_code (uc_code uc) (uc_phone uc) cs)"
  by (simp add: svc_login_def Let_def split: prod.split sum.split option.split)

lemma ctrl_login_codes:
  "fst (snd (ctrl_login ord emsg net names now gen body cs db r)) = cs
   \<or> (\<exists>c p. fst (snd (ctrl_login ord emsg net names now gen body cs db r)) = snd (validate_code c p cs))"
proof -
  obtain x cs' db' r' where l: "svc_login net names now (case body of BindOk u \<Rightarrow> u | _ \<Rightarrow> \<lparr>uc_code = [], uc_phone = []\<rparr>) cs db r
      = (x, cs', db', r')" by (metis prod_collapse3)
  have c: "cs' = snd (validate_code (uc_code (case body of BindOk u \<Rightarrow> u | _ \<Rightarrow> \<lparr>uc_code = [], uc_phone = []\<rparr>))
                        (uc_phone (case body of BindOk u \<Rightarrow> u | _ \<Rightarrow> \<lparr>uc_code = [], uc_phone = []\<rparr>)) cs)"
    using svc_login_codes [of net names now _ cs db r] l by (metis fst_conv snd_conv)
  show ?thesis
    by (cases body) (use l c in \<open>auto simp: ctrl_login_def Let_def split: sum.split prod.split\<close>)
qed

lemma handle_codes:
  assumes "handle ev uid rq s = Some (st, p, s')"
  shows "sv_codes s' = sv_codes s \<or> (\<exists>e x. code_step e (sv_codes s) = Some (x, sv_codes s'))"
proof (cases rq)
  case (RqSendCode phone)
  have "code_step (SendCode \<lparr>uc_code = send_code_digits (ev_rnd ev), uc_phone = phone\<rparr> code_expire) (sv_codes s)
      = Some (Inr (), svc_send_code (ev_rnd ev) phone (sv_codes s))"
    by (simp add: code_step_def svc_send_code_def)
  then show ?thesis using assms RqSendCode by (auto simp: ctrl_send_code_def split: if_splits)
next
  case (RqLogin body)
  have v: "code_step (Validate c q) cs = Some (validate_code c q cs)" for c q cs by (simp add: code_step_def)
  obtain ho cs db r where l: "ctrl_login (ev_ord ev) (ev_acc_msg ev) (ev_net ev) (ev_names ev) (sv_now s)
      (login_gen (ev_sign ev) (sv_now s) (ev_kc ev)) body (sv_codes s) (sv_db s) (sv_cache s) = (ho, cs, db, r)"
    by (metis prod_collapse3)
  have s': "sv_codes s' = cs" using assms RqLogin l by auto
  from ctrl_login_codes [of "ev_ord ev" "ev_acc_msg ev" "ev_net ev" "ev_names ev" "sv_now s"
      "login_gen (ev_sign ev) (sv_now s) (ev_kc ev)" body "sv_codes s" "sv_db s" "sv_cache s"]
  show ?thesis unfolding l s' fst_conv snd_conv using v by (metis prod.collapse)
qed (use assms in \<open>auto simp: with_sys_def split: prod.splits option.splits\<close>)

lemma serve_codes:
  "serve ev rq s = Some (st, p, s') \<Longrightarrow> sv_codes s' = sv_codes s \<or> (\<exists>e x. code_step e (sv_codes s) = Some (x, sv_codes s'))"
  by (auto simp: serve_def dest: handle_codes split: gate.splits)

text \<open>C40 (refinement).  Under the whole server, the code store only moves by
  the events of its own model: every reachable server state holds a reachable
  code store, so the invariant and the liveness of \<open>Code_Store\<close> hold in the
  running program, whatever the other handlers and goroutines do.\<close>

theorem server_code_store_refines: "sreach s \<Longrightarrow> creach (sv_codes s)"
proof (induction rule: sreach.induct)
  case (start now db r)
  then show ?case by (simp add: creach.init start_server_def)
next
  case (request s ev rq st p s')
  then show ?case using serve_codes [OF request.hyps(3)] by (auto intro: creach.step)
next
  case (timer s e x cs)
  then show ?case by (auto intro: creach.step)
next
  case (refill s net i)
  then show ?case by (simp add: with_sys_def)
next
  case (tick s cnet dnet)
  then show ?case by (simp add: with_sys_def)
next
  case (consumer s e t)
  then show ?case by (simp add: with_rsys_def)
qed

theorem server_code_store_refines_witness:
  "sreach ((start_server 0 empty_db empty_redis)
              \<lparr>sv_codes := svc_send_code (\<lambda>_. 0) ''13800000000'' empty_code_store\<rparr>)
   \<and> creach (sv_codes ((start_server 0 empty_db empty_redis)
              \<lparr>sv_codes := svc_send_code (\<lambda>_. 0) ''13800000000'' empty_code_store\<rparr>))"
proof -
  have v: "validate_phone_number ''13800000000''" by code_simp
  have g: "route_guard ''UserController.SendCode'' = Open" by (simp add: route_guard_def routes_def)
  have "serve demo_env (RqSendCode ''13800000000'') (start_server 0 empty_db empty_redis)
      = Some ([200], False, (start_server 0 empty_db empty_redis)
                \<lparr>sv_codes := svc_send_code (\<lambda>_. 0) ''13800000000'' empty_code_store\<rparr>)"
    by (simp add: serve_def g admit_def guard_role_def ctrl_send_code_def v out_of_def demo_env_def start_server_def)
  then have r: "sreach ((start_server 0 empty_db empty_redis)
              \<lparr>sv_codes := svc_send_code (\<lambda>_. 0) ''13800000000'' empty_code_store\<rparr>)"
    by (rule sreach.request [OF sreach.start, rotated]) (simp add: start_server_def)
  show ?thesis using r server_code_store_refines [OF r] by simp
qed

subsection \<open>Who writes the administrators' tables\<close>

lemma catalog_eq_refl [simp]: "catalog_eq db db"
  by (simp add: catalog_eq_def)

lemma catalog_eq_rollback [simp]: "catalog_eq db (tx_rollback db db')"
  by (simp add: catalog_eq_def tx_rollback_def)

lemma register_loop_catalog:
  "catalog_eq db0 db \<Longrightarrow> catalog_eq db0 (fst (snd (register_loop net k names u0 db0 db r)))"
proof (induction names arbitrary: k db r)
  case Nil then show ?case by simp
next
  case (Cons nm nms)
  have "catalog_eq db0 (snd (db_add_user (net k) (u0\<lparr>us_name := nm\<rparr>) db))"
    using Cons.prems by (simp add: catalog_eq_def db_add_user_def Let_def)
  with Cons.IH show ?case
    by (auto simp: catalog_eq_def tx_rollback_def split: prod.split sum.split dberr.split)
qed

lemma register_loop_catalog_eq: "register_loop net k names u0 db db r = (x, db', r') \<Longrightarrow> catalog_eq db db'"
  using register_loop_catalog [of db db net k names u0 r] by simp

lemma svc_login_catalog: "catalog_eq db (fst (snd (snd (svc_login net names now uc cs db r))))"
  by (auto simp: svc_login_def Let_def dest: register_loop_catalog_eq split: prod.split sum.split option.split)

lemma ctrl_login_catalog: "catalog_eq db (fst (snd (snd (ctrl_login ord emsg net names now gen body cs db r))))"
proof -
  obtain x cs' db' r' where l: "svc_login net names now (case body of BindOk u \<Rightarrow> u | _ \<Rightarrow> \<lparr>uc_code = [], uc_phone = []\<rparr>) cs db r
      = (x, cs', db', r')" by (metis prod_collapse3)
  have "catalog_eq db db'" using svc_login_catalog [of db net names now _ cs r] l by (metis fst_conv snd_conv)
  then show ?thesis
    by (cases body) (use l in \<open>auto simp: ctrl_login_def Let_def split: sum.split prod.split\<close>)
qed

lemma ctrl_update_user_info_catalog: "catalog_eq db (snd (ctrl_update_user_info ord emsg net uid body db))"
  by (simp add: ctrl_update_user_info_def svc_update_user_info_def db_update_user_info_def catalog_eq_def Let_def
           split: bind_result.split prod.split sum.split)

lemma ctrl_add_score_catalog: "catalog_eq db (snd (ctrl_add_score ord emsg net body db))"
  by (simp add: ctrl_add_score_def svc_add_score_def db_add_score_def catalog_eq_def Let_def
           split: bind_result.split prod.split sum.split)

lemma ctrl_add_follows_catalog: "catalog_eq db (fst (snd (ctrl_add_follows ord emsg net uid param now db r)))"
  by (simp add: ctrl_add_follows_def svc_add_follows_def db_add_follow_def catalog_eq_def tx_rollback_def
           split: option.split prod.split sum.split)

lemma ctrl_remove_follows_catalog: "catalog_eq db (fst (snd (ctrl_remove_follows ord emsg net uid param db r)))"
  by (simp add: ctrl_remove_follows_def svc_remove_follows_def db_remove_follows_def catalog_eq_def tx_rollback_def
           split: option.split prod.split sum.split)

lemma ctrl_add_user_likes_catalog: "catalog_eq db (fst (snd (ctrl_add_user_likes ord emsg net param db r)))"
  by (simp add: ctrl_add_user_likes_def svc_add_user_likes_def db_add_user_likes_def catalog_eq_def tx_rollback_def
           split: option.split prod.split sum.split)

lemma ctrl_get_article_db: "sys_db (snd (ctrl_get_article ord emsg net param t)) = sys_db t"
  by (simp add: ctrl_get_article_def svc_get_article_def Let_def split: option.split prod.split sum.split)

lemma ctrl_article_likes_db:
  "(\<And>aid uid. sys_db (snd (svc net aid uid t)) = sys_db t) \<Longrightarrow>
   sys_db (snd (ctrl_article_likes name svc ord emsg net param uid t)) = sys_db t"
  by (auto simp: ctrl_article_likes_def split: option.split prod.split sum.split) (metis snd_conv)+

lemma svc_likes_db:
  "sys_db (snd (svc_add_likes net aid uid t)) = sys_db t" "sys_db (snd (svc_remove_likes net aid uid t)) = sys_db t"
  by (simp_all add: svc_add_likes_def svc_remove_likes_def split: prod.split sum.split)

lemma catalog_dests:
  "ctrl_login ord emsg net names now gen body cs db r = (ho1, cs', db', r') \<Longrightarrow> catalog_eq db db'"
  "ctrl_update_user_info ord emsg net uid ub db = (ho2, db') \<Longrightarrow> catalog_eq db db'"
  "ctrl_add_score ord emsg net sb db = (ho3, db') \<Longrightarrow> catalog_eq db db'"
  "ctrl_add_follows ord umsg net uid param now db r = (ho4, db', r') \<Longrightarrow> catalog_eq db db'"
  "ctrl_remove_follows ord umsg net uid param db r = (ho5, db', r') \<Longrightarrow> catalog_eq db db'"
  "ctrl_add_user_likes ord umsg net param db r = (ho6, db', r') \<Longrightarrow> catalog_eq db db'"
  "ctrl_get_article ord smsg net param t = (ho7, t') \<Longrightarrow> sys_db t' = sys_db t"
  "ctrl_add_likes ord smsg net param uid t = (ho8, t') \<Longrightarrow> sys_db t' = sys_db t"
  "ctrl_remove_likes ord smsg net param uid t = (ho9, t') \<Longrightarrow> sys_db t' = sys_db t"
  using ctrl_login_catalog [of db ord emsg net names now gen body cs r] ctrl_update_user_info_catalog [of db ord emsg net uid ub]
    ctrl_add_score_catalog [of db ord emsg net sb] ctrl_add_follows_catalog [of db ord umsg net uid param now r]
    ctrl_remove_follows_catalog [of db ord umsg net uid param r] ctrl_add_user_likes_catalog [of db ord umsg net param r]
    ctrl_get_article_db [of ord smsg net param t]
    ctrl_article_likes_db [where svc = svc_add_likes and name = "''AddLikes''" and ord = ord and emsg = smsg and net = net
      and param = param and uid = uid and t = t, OF svc_likes_db(1)]
    ctrl_article_likes_db [where svc = svc_remove_likes and name = "''RemoveLikes''" and ord = ord and emsg = smsg and net = net
      and param = param and uid = uid and t = t, OF svc_likes_db(2)]
  by (simp_all add: ctrl_add_likes_def ctrl_remove_likes_def)

lemma handle_catalog:
  assumes "handle ev uid rq s = Some (st, p, s')" "request_handler rq \<notin> set privileged_handlers"
  shows "catalog_eq (sv_db s) (sv_db s')"
  using assms
  by (cases rq) (auto simp: privileged_handlers_def with_sys_def sys_of_def dest: catalog_dests
                      split: prod.splits option.splits)

lemma privileged_route_guard:
  "request_handler rq \<in> set privileged_handlers \<Longrightarrow>
     route_guard (request_handler rq) = AdminGuard \<or> route_guard (request_handler rq) = SuperAdminGuard"
  by (cases rq) (simp_all add: privileged_handlers_def route_guard_def routes_def)

lemma admit_admin:
  assumes "g = AdminGuard \<or> g = SuperAdminGuard" "admit ord g hdr jwt = (Admit u :: 'a gate)"
  shows "case jwt (hdr ''accessToken'') jwt_secret of JwtParsed ids mgr v \<Rightarrow> v \<and> admin_role mgr | JwtError e \<Rightarrow> False"
proof -
  obtain role where role: "guard_role g = Some role" "\<And>m. role m \<Longrightarrow> admin_role m"
    using assms(1) by (auto simp: guard_role_def admin_role_def super_admin_role_def)
  then obtain uid where "validate_token ord role hdr jwt = (MwNext uid :: 'a mw_out)"
    using assms(2) by (auto simp: admit_def split: mw_out.splits)
  from validate_token_Next [OF this] role(2) show ?thesis by auto
qed

text \<open>C39 (safety).  Over the whole route table: a request whose token is not
  an administrator's (no token, an invalid or expired one, or an
  \<open>IsManager\<close> claim other than 1 and 2) leaves the article, item and
  phone-record tables as they were, whatever handler it reaches and whichever
  requests fail.\<close>

theorem only_admins_write_catalog:
  assumes "serve ev rq s = Some (st, p, s')" "\<not> admin_token ev"
  shows "catalog_eq (sv_db s) (sv_db s')"
proof (cases "admit (ev_ord ev) (route_guard (request_handler rq)) (ev_hdr ev) (ev_jwt ev) :: unit gate")
  case (Reject r)
  then show ?thesis using assms(1) by (simp add: serve_def)
next
  case (Admit u)
  show ?thesis
  proof (cases "request_handler rq \<in> set privileged_handlers")
    case True
    from admit_admin [OF privileged_route_guard [OF True] Admit] assms(2) show ?thesis
      by (simp add: admin_token_def)
  next
    case False
    with assms(1) Admit show ?thesis by (auto simp: serve_def intro: handle_catalog)
  qed
qed

theorem only_admins_write_catalog_witness:
  "serve user_env (RqAddScore (BindOk demo_score)) (start_server 0 empty_db empty_redis)
     = Some ([200], False, (start_server 0 empty_db empty_redis)\<lparr>sv_db := snd (db_add_score True demo_score empty_db)\<rparr>)
   \<and> \<not> admin_token user_env
   \<and> catalog_eq empty_db (snd (db_add_score True demo_score empty_db))"
proof -
  have g: "route_guard ''UserController.AddScore'' = JwtGuard" by (simp add: route_guard_def routes_def)
  have a: "atoi ''5'' = Some 5" by code_simp
  have srv: "serve user_env (RqAddScore (BindOk demo_score)) (start_server 0 empty_db empty_redis)
     = Some ([200], False, (start_server 0 empty_db empty_redis)\<lparr>sv_db := snd (db_add_score True demo_score empty_db)\<rparr>)"
    by (simp add: serve_def g admit_def guard_role_def validate_token_def validate_empty_token_def token_header_def
                  parse_token_def check_role_and_id_def jwt_role_def a user_env_def demo_env_def ctrl_add_score_def
                  svc_add_score_def db_add_score_def out_of_def start_server_def)
  have n: "\<not> admin_token user_env" by (simp add: admin_token_def user_env_def admin_role_def)
  from only_admins_write_catalog [OF srv n] show ?thesis using srv n by (simp add: start_server_def)
qed

end
