(* ===== verification/Spec2Isabelle.thy ===== *)
theory Spec2Isabelle
  imports Server
begin

text \<open>
  \<^bold>\<open>A verification library for the hcl community-service backend.\<close>

  The program (Go, under \<open>src/\<close>) keeps hot counters and item stock in Redis,
  mirrors them lazily into MySQL, and hands reservations to RabbitMQ for durable
  persistence.  Its parts and how they interact:
  \<^item> the Counter Cache Engine (\<open>internal/article/article_repository/article_cache_repository.go\<close>,
    \<open>internal/article/article_service/article_service.go\<close>): like counts of an
    article in two cached projections (basic and full hash), the set of users who
    liked it, the periodic flush of counts to MySQL and the cache-aside update;
  \<^item> the Rank Engine (\<open>internal/user/user_repository/user_cache_repository.go\<close>):
    a global sorted set of user like counts intersected with a user's follow set,
    and the follow graph as follows/fans sets;
  \<^item> the Inventory Reservation Engine (same file, \<open>AddItem\<close> and \<open>ChooseItem\<close>):
    an atomic Lua script that checks membership, checks and decrements the stock
    and records the user; \<open>UserService.ChooseItemPublisher\<close> then publishes a
    message \<open>"uid,iid"\<close>;
  \<^item> the Reservation Consumer Scheduler (\<open>UserService.AddChooseItemConsumer\<close>):
    a time-bounded consumer applying each message as a MySQL transaction;
  \<^item> the verification-code store (\<open>user_memorydb_repository.go\<close>): phone codes
    with expiry timers, used by \<open>SendCode\<close> and \<open>Login\<close>;
  \<^item> the HTTP layer: the route table, the JWT middlewares in front of the
    handlers, and gin handlers that call the services and answer errors
    through \<open>HandleUserError\<close>;
  \<^item> the external collaborators: Redis, MySQL (gorm) and RabbitMQ.

  \<^bold>\<open>Theories.\<close>
  \<^item> \<open>Go_Prelude\<close>: Go's 64-bit \<open>int\<close> (\<open>int\<close> with the range written out), the
    decimal conversions \<open>itoa\<close> (\<open>strconv.Itoa\<close>, the \<open>%d\<close> verb), \<open>atoi\<close>
    (\<open>strconv.Atoi\<close>), Redis's strict \<open>redis_int\<close>, Go's \<open>strings.Split\<close>
    (\<open>split_on\<close>), with the round trip \<open>atoi (itoa i) = Some i\<close> and the
    injectivity facts (collection \<open>key_simps\<close>) that separate the cache keys the
    code builds with \<open>fmt.Sprintf\<close>.
  \<^item> \<open>Redis_Store\<close>: the environment.  A keyspace (association list) of typed
    values; every command the program issues, with Redis's semantics
    (\<open>WRONGTYPE\<close>, \<open>HINCRBY\<close>'s integer and overflow checks, deletion of emptied
    sets, \<open>ZINTERSTORE\<close> weights, \<open>ZREVRANGE\<close> order, \<open>SCAN MATCH p*\<close>, TTLs).
    A command issued by the program goes through \<open>call ok\<close>: a lost request is
    the connection error \<open>ErrConn\<close> and leaves the store unchanged.  Which request
    of a handler is lost is an explicit argument, so compensation paths are
    ordinary branches of the model.
  \<^item> \<open>Inventory\<close>: \<open>add_item_cache\<close> (\<open>AddItem\<close>), \<open>choose_item_script\<close> (the Lua
    script), \<open>choose_item_cache\<close> (\<open>ChooseItem\<close> with its reply \<open>switch\<close>,
    \<open>choose_reply\<close>), and \<open>choose_run\<close>, a sequence of calls: Redis runs one script
    at a time, so every interleaving of concurrent callers is such a sequence.
    Lemmas: the script touches only its two keys; on the (stock, users) view one
    call is the abstract step \<open>reserve_abs\<close> (C2); the stock invariant
    \<open>item_inv\<close> is kept by every call (C3); over any sequence the item is never
    oversold and no user counts twice (C1); the reply for an exhausted item (C4);
    the specification's capacity-2 scenario, evaluated (\<open>capacity_two_scenario\<close>).
  \<^item> \<open>Models\<close>: the gorm models of \<open>article_model\<close> and \<open>user_model\<close> as records and
    \<open>utils.Substring\<close> (\<open>substring\<close>, by UTF-8 runes), with its prefix and length
    bounds.
  \<^item> \<open>Durable_Store\<close>: the MySQL statements of \<open>ArticleRepository\<close> and of
    \<open>UserRepository.ChooseItem\<close>/\<open>UpdateItemInfo\<close> on a record of tables, each
    with its connection failure, \<open>UPDATE\<close> reporting changed rows.
  \<^item> \<open>Like_Cache\<close>: \<open>ArticleCacheRepository\<close> (\<open>article_cache_repository.go\<close>):
    the cache keys, \<open>AddBasicArticle\<close>, \<open>AddArticle\<close> (with its TTL),
    \<open>GetArticleByID\<close>, \<open>GetBasicArticleByID\<close>, \<open>AddLikes\<close>/\<open>RemoveLikes\<close>
    (membership test, then the common body \<open>bump_likes\<close>: basic increment, full
    increment with its compensation, \<open>UseLikeSort\<close>), \<open>GetAllArticlesFromHash\<close>,
    \<open>DeleteArticleForUpdate\<close>, \<open>AddBasicArticleWithoutAddList\<close>.  The counter
    invariant \<open>like_inv\<close> (basic count = size of the like set = full count).
    Lemmas: like then unlike restores the store exactly (C6); a second like is
    refused and changes nothing (C7); the invariant survives every failure
    pattern in which the compensation and the set update get through (C8); the
    compensation itself (C9); and two defects: a lost \<open>SADD\<close> makes a retry
    count one user twice (C10), and a like after the full hash's TTL expired
    re-creates it as \<open>{like: 1}\<close> without TTL, which \<open>GetArticleByID\<close> can no
    longer parse (C11).

  \<^item> \<open>Article_Service\<close>: \<open>ArticleService\<close> (\<open>article_service.go\<close>) over the
    state \<open>sys\<close> (MySQL, Redis, and the background goroutines \<open>sys_bg\<close> the
    handlers spawn, run later by \<open>run_bg\<close>): \<open>AddArticle\<close>, \<open>GetArticle\<close>,
    \<open>UpdateArticle\<close> (double delete and background refill), \<open>AddLikes\<close>,
    \<open>RemoveLikes\<close>, the reconciliation tick of \<open>PeriodicUpdateLikes\<close> and
    \<open>updateLikesInTransaction\<close>.  Lemmas: a second update panics on the nil
    article (C12); a read right after an update fails
    (\<open>get_after_update_misses\<close>) and after the refill returns the MySQL row
    (C14); the like batch is all-or-nothing (C15); a tick
    writes every cached count to MySQL (C16); a failed commit of \<open>AddArticle\<close>
    leaves the article in the cache (\<open>add_article_commit_failure\<close>).
  \<^item> \<open>Reservation\<close>: \<open>ChooseItemPublisher\<close> (cache reservation, then the broker),
    \<open>AddChooseItemConsumer\<close>'s checks, the durable \<open>ChooseItem\<close> transaction, and
    the whole reservation system as the inductive step relation \<open>rstep\<close> (clock,
    broker queue, consumers with their auto-ack buffers), with the executable
    scheduler \<open>run_event\<close> proved sound and complete for it.  Lemmas: message
    print/parse round trip (C18); reservations never precede a window (C19, rule
    induction); a reservation without message and row is lost for good (C20) and
    such a state is reachable (\<open>lost_reservation_reachable\<close>); a window with
    begin after end drains after its end (C22); a window ending now is accepted
    (\<open>add_consumer_at_end\<close>); the transaction is all-or-nothing
    (\<open>consumer_tx_all_or_nothing\<close>).
  \<^item> \<open>Rank\<close>: the follow graph and the like ranking of
    \<open>UserCacheRepository\<close> (\<open>AddFollows\<close>, \<open>AddFans\<close>, \<open>RemoveFollows\<close>,
    \<open>RemoveFans\<close>, \<open>GetCommonFollows\<close>, \<open>AddLikes\<close>, \<open>GetLikesRank\<close>) and the
    service handlers \<open>AddFollows\<close>, \<open>RemoveFollows\<close>, \<open>AddLikes\<close>.  The abstract
    ranking \<open>rank_abs\<close> is the set of (user, likes) pairs the ranking promises.
    Lemmas: the user is always ranked (C25); with every request answered the
    result is exactly \<open>rank_abs\<close> (C26, refinement); ranks are 1, 2, ... in list
    order and counts descend (C27); a failed \<open>ZSCORE\<close> ranks the user with 0
    likes (\<open>rank_self_zero_on_zscore_failure\<close>); a failed \<open>AddLikes\<close> followed
    by a retry counts twice in the cache (\<open>add_likes_retry_double_counts\<close>); a
    failed commit of \<open>AddFollows\<close> leaves the follow in both sets
    (\<open>add_follows_commit_failure_keeps_cache\<close>).
  \<^item> \<open>Code_Store\<close>: \<open>UserMemoryDBRepository\<close> (\<open>user_memorydb_repository.go\<close>):
    the code and timer maps, \<open>AddCode\<close>, \<open>ValidateCode\<close> and the \<open>AfterFunc\<close>
    callback, with the Go runtime's timers in the state; the system is the
    event function \<open>code_step\<close> (requests, time passing, a timer expiring, its
    callback running) and \<open>creach\<close> its reachable states.  Lemmas: every stored
    code has a live timer (C32, rule induction); from any reachable state three
    events remove a code (C33); a code validates once (C34); a resend after a
    login is deleted early by the old timer (C35).
  \<^item> \<open>Http_Layer\<close>: \<open>HandleUserError\<close> (\<open>common/error_handler/user_err_handler.go\<close>)
    with the map's iteration order as an argument, \<open>response/result.go\<close>, and the
    gin handlers whose services are modelled: article \<open>AddArticle\<close>,
    \<open>GetArticle\<close>, \<open>AddLikes\<close>, \<open>RemoveLikes\<close>, \<open>UpdateArticle\<close>; user
    \<open>AddFollows\<close>, \<open>RemoveFollows\<close>, \<open>AddLikes\<close>, \<open>GetLikesRank\<close>, \<open>ChooseItem\<close>,
    \<open>AddChooseItemConsumer\<close>, \<open>SendCode\<close>.  A handler returns the responses it
    writes, in order.  Messages are built as \<open>fmt.Errorf\<close> builds them (non-ASCII
    text by its code points, \<open>utf8\<close>); the text of an error produced by a library
    or by a service whose message depends on which request failed is the
    handler's argument \<open>emsg\<close>.  Lemmas: the substring search is the sublist
    relation (\<open>contains_iff_sublist\<close>); the status is the number spelled by the first
    key of the map's iteration order found in the message, or the invalid 9999 (C37);
    window errors get 400 or 500 at random
    (\<open>consumer_window_error_status_ambiguous\<close>); \<open>ChooseItem\<close> goes on after a
    bad item id (\<open>choose_item_bad_param_continues\<close>); an id containing 401 can
    turn a conflict into 401 (\<open>like_conflict_may_answer_401\<close>).
  \<^item> \<open>Accounts\<close>: the account side of \<open>UserRepository\<close> (user, score-record and
    phone-record tables; \<open>AddItem\<close>, \<open>GetItemByID\<close>, the uncalled \<open>GetAllItems\<close>) and of \<open>UserService\<close>:
    \<open>Login\<close> (code check in the code store, phone lookup, transaction, five
    registration attempts \<open>register_loop\<close> under the names
    \<open>GenerateRandomUsername\<close> returned, an argument, with the deferred commit),
    \<open>AddAdminByPhoneNumber\<close>, \<open>AddScore\<close>, \<open>AddPhoneRecord\<close> and \<open>AddItem\<close>
    (MySQL insert then the cache's \<open>AddItem\<close>).  Lemmas: a login with a valid
    code for a new phone registers the user and ranks it (C29); a failed
    deferred commit still returns the user (\<open>login_commit_failure_unseen\<close>); an
    unknown phone makes \<open>AddAdminByPhoneNumber\<close> panic.
  \<^item> \<open>Auth\<close>: \<open>common/utils/user_utils.go\<close>: \<open>MaskPhoneNumber\<close>,
    \<open>GenerateRandomUsername\<close> (the random draws \<open>rnd\<close> and the undefined
    \<open>CHARACTER_SET\<close> are arguments), \<open>ValidateEmptyToken\<close>, \<open>ParseToken\<close> over
    the jwt library's result \<open>jwt_result\<close>, and \<open>validateToken\<close> with the role
    checks of \<open>JwtInterceptor\<close>, \<open>AdminOnlyMiddleware\<close> and
    \<open>SuperAdminOnlyMiddleware\<close>.  Lemmas: only a valid token with a passing role
    and a numeric id gets through (C5); an expired token is answered 403 or 401
    by the fall-through on empty claims (C13); generated names have the length
    asked for and the character set's characters (C28); masking a valid number
    keeps 11 bytes (\<open>mask_phone_shape\<close>).
  \<^item> \<open>Router\<close>: the route table of \<open>routers/router.go\<close> with each route's
    middleware, and \<open>admit\<close>, the middleware in front of a handler.  Lemma: the
    handlers managing administrators, items, articles, phone records and
    reservation windows run only for an administrator's valid token (C36).
  \<^item> \<open>Scan_Loop\<close>: \<open>SCAN\<close> by pages (\<open>scan_page_srv\<close>, Redis's default
    \<open>COUNT\<close> of 10, glob patterns with \<open>*\<close>) and the cursor loop of
    \<open>GetAllArticlesFromHash\<close> as a \<open>partial_function\<close> in the option monad.
    Lemmas: the loop returns whatever fails (C21, by induction on the keys left
    after the cursor); with every request answered it equals the one-pass
    reading the reconciliation tick uses (C23).
  \<^item> \<open>Item_Listing\<close>: \<open>GetAllItems\<close> of the cache, its cursor loop over
    \<open>hcl:user:item:*:info\<close>, \<open>HGETALL\<close> and the field parsing, aborting on the
    first failure.  Lemmas: the loop returns and reads the matching keys in
    order; an item written by \<open>AddItem\<close> is listed back as written (C30).
  \<^item> \<open>Article_Listing\<close>: \<open>GetAllArticleByKind\<close> (the kind's id list, each
    id's basic hash, a missing hash skipped, any other failure ending the
    listing) and \<open>ArticleController.GetAllArticle\<close>.  Lemma: an article whose
    \<open>AddArticle\<close> commit failed has no MySQL row but is listed for its kind
    (C17, composing \<open>Article_Service\<close> with the listing).
  \<^item> \<open>Profile\<close>: \<open>UpdateUserInfo\<close> (gorm's \<open>Updates\<close> writes the non-zero
    fields of the bound struct, \<open>gorm_updates\<close>), \<open>GetFollows\<close> and
    \<open>GetCommonFollows\<close> with their handlers.  Lemma: any valid token can make
    its user a super administrator through \<open>PUT /user\<close> (C31, composing the
    route table, the middleware and the handler).
  \<^item> \<open>Account_Http\<close>: the account handlers of \<open>UserController\<close> (\<open>Login\<close>,
    \<open>GetUserInfo\<close>, \<open>AddAdministrator\<close>, \<open>AddScore\<close>, \<open>AddPhoneRecord\<close>,
    \<open>GetPhoneRecordByPhone\<close>, \<open>GetOtherUserInfo\<close>, \<open>AddItem\<close>,
    \<open>GetAllItems\<close>).  Lemma: a manager without a score record gets the invalid
    status 9999 from \<open>AddPhoneRecord\<close> (C24).
  \<^item> \<open>Content_Check\<close>: \<open>common/utils/utils.go\<close>, which no handler calls:
    \<open>GetAccessToken\<close> and \<open>CheckContentSecurity\<close> over the decoded answers of
    the two WeChat endpoints (functions of the URL and request the code sends),
    and \<open>timeAgo\<close> with the rules of \<open>time.Parse\<close> for its layout written
    out (\<open>parse_datetime\<close>: four-digit year, two-digit month, day, minute and
    second, one- or two-digit hour, a run of spaces, an optional fractional
    second, day checked against the month).  Lemmas: the check approves exactly
    on a clean reply (\<open>content_check_iff\<close>), so every failure rejects;
    the layout round-trips (\<open>parse_format_datetime\<close>); \<open>timeAgo\<close> counts
    whole elapsed units (\<open>time_ago_elapsed\<close>), writes a future time as a
    negative number of minutes (\<open>time_ago_future\<close>) and says 12 months
    between 360 and 365 days (\<open>time_ago_twelve_months\<close>).
  \<^item> \<open>Session\<close>: \<open>configs/config.go\<close> (\<open>GetConfig\<close> and its structs, the
    undefined \<open>MYSQL_*\<close> and \<open>MQ_*\<close> constants as an argument),
    \<open>GenAccessToken\<close>'s claims, and the wiring of \<open>cfg.Jwt\<close> into
    \<open>Login\<close> (\<open>login_gen\<close>).  Lemmas: the secret, the code expiry and the
    kind map the other theories use are \<open>GetConfig\<close>'s; a token issued by
    \<open>Login\<close> passes \<open>JwtInterceptor\<close> with the user's id and
    \<open>AdminOnlyMiddleware\<close> exactly when the user was an administrator at
    login (C38).
  \<^item> \<open>Server\<close>: \<open>main.go\<close> as a whole: the shared state \<open>server\<close>, one
    \<open>request\<close> per route, \<open>serve\<close> (the route's middleware from \<open>routes\<close>,
    then the handler with the \<open>userID\<close> it set), and \<open>sreach\<close>, the states
    reachable from the start under any interleaving of requests, code-store
    timers, background refills, ticks of \<open>PeriodicUpdateLikes\<close> and consumer
    steps.  Lemmas: the code store of every reachable server state is a
    reachable state of its own model, so its invariant and liveness hold in
    the running server (C40); a request without an administrator's token
    leaves the article, item and phone-record tables unchanged, whatever route
    it takes (C39).

  \<^bold>\<open>Modelling choices.\<close>  Timestamps are integers and their RFC3339 rendering is
  the decimal numeral (only the print/parse round trip is used).  Lua's
  \<open>tonumber\<close> is modelled on integer numerals, the only ones the item hash ever
  holds.  Redis sorted-set scores (doubles) hold integer counts and are \<open>int\<close>.
  The two-hour TTL is not counted: a key with a TTL may expire at any later step.
  A \<open>SCAN\<close> cursor is a position in the keyspace and a page holds up to 10
  keys; the keyspace does not change during a listing (the loops only read).
  \<open>Like_Cache\<close> also reads the keyspace in one pass, which \<open>Scan_Loop\<close>
  proves equal to the cursor loop when every request is answered.  Which request of a
  handler is lost is the argument \<open>net\<close>, one flag per request in program order.
  Go's unspecified map iteration order is an argument of \<open>HandleUserError\<close>,
  ranging over all permutations (\<open>map_order\<close>).  Operations of the code store are
  atomic, although the Go code runs its callbacks on unsynchronised maps.  The
  periodic ticker and the consumer run forever and are step relations; the two
  \<open>SCAN\<close> cursor loops, which leave only on a zero cursor, are
  \<open>partial_function\<close>s in the option monad with a theorem that they return;
  every other function of the model is total.  The jwt library (signing,
  parsing, expiry) is an argument: \<open>ParseToken\<close>'s use of its result is
  modelled, not the cryptography.
  In \<open>Server\<close> the code store's clock and the reservation system's clock
  advance by separate steps, which allows more interleavings than one clock
  and so keeps the server-wide results sound.
  \<open>Duration.Hours\<close> and \<open>Minutes\<close> are \<open>float64\<close> in Go; \<open>timeAgo\<close>
  is modelled with the exact quotients, which agree with the rounded ones except
  within a few nanoseconds below a unit boundary for durations beyond about
  4096 hours.
  The types \<open>UserLikeRank\<close> and \<open>UserCode\<close>, used but not defined in the source
  tree, are modelled from their uses.

  \<^bold>\<open>Not modelled\<close>: token
  signing and verification (the jwt library); the HTTP transport and JSON
  coding of the content-moderation client (its decisions are modelled);
  client construction (\<open>initial/\<close>: \<open>InitMysql\<close>, \<open>InitRedis\<close>, and the
  constructors \<open>main.go\<close> calls), which only opens connections; the HTTP
  listener \<open>Router.Run\<close>.  Redis, MySQL and RabbitMQ are libraries and
  servers, not code of this repository: their commands are the environment of
  the model (\<open>Redis_Store\<close>, \<open>Durable_Store\<close>, the queue of \<open>Reservation\<close>).
\<close>

end
